(* ===== verification/Volcom_Prelude.thy ===== *)
theory Volcom_Prelude
  imports Main "HOL-Library.Word" "HOL-Library.Monad_Syntax"
begin

text \<open>
  What the components share and no component owns: the lemma collections, the C integers
  the code computes with, counted arrays (a fixed array of which the first \<open>n\<close> cells are
  live), and the search loop \<open>for (i = 0; i < n; i++) if (P(a[i])) ...\<close>.
  A pointer argument that the code tests against NULL is an \<open>option\<close>; a C \<open>int\<close> result is
  an \<open>int\<close>, so that the \<open>-1\<close> of an error is itself.
\<close>

section \<open>Lemma collections\<close>

named_theorems invar_intros \<open>operations keep their component's invariant\<close>
named_theorems abs_simps \<open>what an operation does to its component's abstraction\<close>

section \<open>Machine integers\<close>

type_synonym u32 = "32 word"
type_synonym u64 = "64 word"

text \<open>The value of a C \<open>int\<close> after an assignment from a wider unsigned value: the low 32
  bits read as two's complement (what gcc and clang define it to be).\<close>

definition int_of_u64 :: "u64 \<Rightarrow> int" where
  "int_of_u64 w = sint (ucast w :: u32)"

text \<open>The conversion of an \<open>int\<close> operand to \<open>size_t\<close> in a mixed expression.\<close>

definition u64_of_int :: "int \<Rightarrow> u64" where
  "u64_of_int i = word_of_int i"

lemma int_of_u64_small: "unat w < 2 ^ 31 \<Longrightarrow> int_of_u64 w = int (unat w)"
proof -
  assume small: "unat w < 2 ^ 31"
  have "unat (ucast w :: u32) = unat w mod 2 ^ 32"
    by (simp add: unsigned_ucast_eq take_bit_eq_mod)
  with small have u: "unat (ucast w :: u32) = unat w" by simp
  have "sint (ucast w :: u32) = int (unat (ucast w :: u32))"
    using small u
    by (simp add: sint_uint uint_nat signed_take_bit_int_eq_self del: of_nat_unat)
  with u show ?thesis by (simp add: int_of_u64_def)
qed

text \<open>The C remainder truncates towards zero; a zero divisor has no defined result.\<close>

definition c_rem :: "int \<Rightarrow> int \<Rightarrow> int option" where
  "c_rem a b = (if b = 0 then None else Some (sgn a * (\<bar>a\<bar> mod \<bar>b\<bar>)))"

lemma c_rem_nonneg [simp]: "0 \<le> a \<Longrightarrow> 0 < b \<Longrightarrow> c_rem a b = Some (a mod b)"
  by (cases "a = 0") (simp_all add: c_rem_def)

section \<open>Floating-point numbers\<close>

text \<open>
  C doubles are a type parameter with the operations the code applies to them; no property of
  rounding is assumed. \<open>d_order\<close> is what the proofs about orderings use: the IEEE comparison
  \<open>>\<close> is irreflexive and transitive, NaN included.
\<close>

record 'd double_ops =
  d_of_int :: "int \<Rightarrow> 'd"
  d_add :: "'d \<Rightarrow> 'd \<Rightarrow> 'd"
  d_sub :: "'d \<Rightarrow> 'd \<Rightarrow> 'd"
  d_mul :: "'d \<Rightarrow> 'd \<Rightarrow> 'd"
  d_div :: "'d \<Rightarrow> 'd \<Rightarrow> 'd"
  d_gt :: "'d \<Rightarrow> 'd \<Rightarrow> bool"

definition d_order :: "'d double_ops \<Rightarrow> bool" where
  "d_order D \<longleftrightarrow> (\<forall>x. \<not> d_gt D x x) \<and> (\<forall>x y z. d_gt D x y \<and> d_gt D y z \<longrightarrow> d_gt D x z)"

lemma d_order_irrefl: "d_order D \<Longrightarrow> \<not> d_gt D x x"
  and d_order_trans: "d_order D \<Longrightarrow> d_gt D x y \<Longrightarrow> d_gt D y z \<Longrightarrow> d_gt D x z"
  unfolding d_order_def by blast+

text \<open>Whole numbers as an instance, for concrete runs.\<close>

definition int_double :: "int double_ops" where
  "int_double = \<lparr>d_of_int = (\<lambda>i. i), d_add = (+), d_sub = (-), d_mul = (*), d_div = (div),
     d_gt = (>)\<rparr>"

lemma int_double_order: "d_order int_double"
  by (auto simp: d_order_def int_double_def)

section \<open>Pointers and mutexes\<close>

text \<open>A pointer to a heap block: NULL, a live block with its content, or a block that has been
  freed while the pointer still holds its address.\<close>

datatype 'a ptr = Null | Live 'a | Dangling

text \<open>
  A default pthread mutex. Locking one that is held blocks the caller for good when the holder is
  the caller; using one that is not initialised has no defined result. Both are \<open>None\<close>, and so
  is every read or write through a pointer that is not live or outside its block: a call whose
  model is \<open>None\<close> does not return a defined result.
\<close>

datatype mutex = Uninit | Unlocked | Locked

definition mutex_lock :: "mutex \<Rightarrow> mutex option" where
  "mutex_lock m = (if m = Unlocked then Some Locked else None)"

definition mutex_unlock :: "mutex \<Rightarrow> mutex option" where
  "mutex_unlock m = (if m = Locked then Some Unlocked else None)"

lemma mutex_lock_Unlocked [simp]: "mutex_lock Unlocked = Some Locked"
  and mutex_unlock_Locked [simp]: "mutex_unlock Locked = Some Unlocked"
  by (simp_all add: mutex_lock_def mutex_unlock_def)

text \<open>\<open>p[i]\<close> and \<open>p[i] = x\<close> on a block of cells, with a C \<open>int\<close> index.\<close>

definition cell_get :: "'a list ptr \<Rightarrow> int \<Rightarrow> 'a option" where
  "cell_get p i = (case p of Live cells \<Rightarrow>
     if 0 \<le> i \<and> i < int (length cells) then Some (cells ! nat i) else None | _ \<Rightarrow> None)"

definition cell_set :: "'a list ptr \<Rightarrow> int \<Rightarrow> 'a \<Rightarrow> 'a list ptr option" where
  "cell_set p i x = (case p of Live cells \<Rightarrow>
     if 0 \<le> i \<and> i < int (length cells) then Some (Live (cells[nat i := x])) else None | _ \<Rightarrow> None)"

section \<open>Counted arrays\<close>

text \<open>
  A C array \<open>T a[MAX]\<close> with its counter \<open>n\<close> is a list of length \<open>MAX\<close> and a number; the live
  part is \<open>take n a\<close>. The cells from \<open>n\<close> on keep whatever was written there last, as in C.
  \<open>shift_left j n a\<close> is \<open>memmove(&a[j], &a[j + 1], (n - j - 1) * sizeof(T))\<close>.
\<close>

definition shift_left :: "nat \<Rightarrow> nat \<Rightarrow> 'a list \<Rightarrow> 'a list" where
  "shift_left j n a = take j a @ take (n - j - 1) (drop (Suc j) a) @ drop (n - 1) a"

lemma length_shift_left [simp]: "j < n \<Longrightarrow> n \<le> length a \<Longrightarrow> length (shift_left j n a) = length a"
  by (simp add: shift_left_def)

lemma take_shift_left:
  "j < n \<Longrightarrow> n \<le> length a \<Longrightarrow> take (n - Suc 0) (shift_left j n a) = take j a @ drop (Suc j) (take n a)"
  by (simp add: shift_left_def drop_take)

lemma take_shift_left_before:
  "k \<le> j \<Longrightarrow> j < n \<Longrightarrow> n \<le> length a \<Longrightarrow> take k (shift_left j n a) = take k a"
  by (simp add: shift_left_def min_def)

lemma nth_shift_left_before:
  "k < j \<Longrightarrow> j < n \<Longrightarrow> n \<le> length a \<Longrightarrow> shift_left j n a ! k = a ! k"
  by (simp add: shift_left_def nth_append)

text \<open>Writing the first free cell is appending to the live part.\<close>

lemma take_Suc_update_end:
  "n < length a \<Longrightarrow> take (Suc n) (a[n := x]) = take n a @ [x]"
  by (simp add: take_Suc_conv_app_nth)

lemma take_update_inside:
  "i < n \<Longrightarrow> take n (a[i := x]) = (take n a)[i := x]"
  by (simp add: take_update_swap)

section \<open>The search loop\<close>

text \<open>The index of the first element that satisfies the test: the loop that returns on its
  first hit.\<close>

primrec find_index :: "('a \<Rightarrow> bool) \<Rightarrow> 'a list \<Rightarrow> nat option" where
  "find_index P [] = None"
| "find_index P (x # xs) = (if P x then Some 0 else map_option Suc (find_index P xs))"

lemma find_index_None: "find_index P xs = None \<longleftrightarrow> (\<forall>x \<in> set xs. \<not> P x)"
  by (induction xs) auto

lemma find_index_SomeD:
  "find_index P xs = Some i \<Longrightarrow> i < length xs \<and> P (xs ! i) \<and> (\<forall>j < i. \<not> P (xs ! j))"
proof (induction xs arbitrary: i)
  case Nil
  then show ?case by simp
next
  case (Cons x xs)
  show ?case
  proof (cases "P x")
    case True
    with Cons.prems show ?thesis by simp
  next
    case False
    with Cons.prems obtain k where k: "find_index P xs = Some k" and i: "i = Suc k" by auto
    from Cons.IH [OF k] False i show ?thesis by (auto simp: less_Suc_eq_0_disj)
  qed
qed

lemma find_index_lt: "find_index P xs = Some i \<Longrightarrow> i < length xs"
  and find_index_holds: "find_index P xs = Some i \<Longrightarrow> P (xs ! i)"
  by (auto dest: find_index_SomeD)

lemma find_indexI:
  "i < length xs \<Longrightarrow> P (xs ! i) \<Longrightarrow> (\<And>j. j < i \<Longrightarrow> \<not> P (xs ! j)) \<Longrightarrow> find_index P xs = Some i"
proof (induction xs arbitrary: i)
  case Nil
  then show ?case by simp
next
  case (Cons x xs)
  show ?case
  proof (cases i)
    case 0
    with Cons.prems show ?thesis by simp
  next
    case (Suc k)
    from Cons.prems(3) [of 0] Suc have "\<not> P x" by simp
    moreover have "find_index P xs = Some k"
      using Cons.prems Suc by (intro Cons.IH) fastforce+
    ultimately show ?thesis using Suc by simp
  qed
qed

lemma find_index_cong:
  "(\<And>x. x \<in> set xs \<Longrightarrow> P x = Q x) \<Longrightarrow> find_index P xs = find_index Q xs"
  by (induction xs) auto

text \<open>With distinct keys the search finds the element it is asked for.\<close>

lemma find_index_distinct_key:
  assumes "distinct (map key xs)" and "i < length xs"
  shows "find_index (\<lambda>x. key x = key (xs ! i)) xs = Some i"
proof (rule find_indexI)
  fix j assume "j < i"
  with assms show "key (xs ! j) \<noteq> key (xs ! i)"
    by (auto simp: distinct_conv_nth)
qed (use assms in auto)

text \<open>Replacing an element without changing its key keeps the keys.\<close>

lemma map_update_same_key:
  "i < length xs \<Longrightarrow> key y = key (xs ! i) \<Longrightarrow> map key (xs[i := y]) = map key xs"
  by (metis list_update_id map_update)

lemma distinct_map_remove_nth:
  "distinct (map f xs) \<Longrightarrow> distinct (map f (take i xs @ drop (Suc i) xs))"
proof -
  assume d: "distinct (map f xs)"
  have "distinct (take i (map f xs) @ drop (Suc i) (map f xs))"
    using d set_take_disj_set_drop_if_distinct [of "map f xs" i "Suc i"] by simp
  then show ?thesis by (simp add: take_map drop_map)
qed

text \<open>With distinct keys, removing the one hit of a search is filtering it out.\<close>

lemma remove_nth_distinct_key:
  "distinct (map key xs) \<Longrightarrow> i < length xs \<Longrightarrow>
     take i xs @ drop (Suc i) xs = filter (\<lambda>x. key x \<noteq> key (xs ! i)) xs"
proof (induction xs arbitrary: i)
  case Nil
  then show ?case by simp
next
  case (Cons x xs)
  show ?case
  proof (cases i)
    case 0
    have "filter (\<lambda>y. key y \<noteq> key x) xs = xs"
      using Cons.prems(1) by (intro filter_True) (auto dest: image_eqI)
    with 0 show ?thesis by simp
  next
    case (Suc k)
    with Cons.prems have "key x \<noteq> key (xs ! k)" by auto
    with Cons Suc show ?thesis by simp
  qed
qed

end
