(* ===== verification/Bounded_Fifo.thy ===== *)
theory Bounded_Fifo
  imports Volcom_Prelude
begin

text \<open>
  The interface of the program's three ring buffers: the employee's buffer of received tasks
  and its queue of results (\<open>task_management.c\<close>), and the buffer of the user scheduler
  (\<open>volcom_uscheduler.c\<close>). \<open>ring_items\<close> reads the queue a ring stores; the locale \<open>bounded_fifo\<close>
  states what a bounded queue promises; the history lemma proved inside it says that what comes
  out is what went in, in order, whatever the calls. The components interpret the locale.
\<close>

section \<open>The queue a ring stores\<close>

definition ring_items :: "'a list \<Rightarrow> nat \<Rightarrow> nat \<Rightarrow> 'a list" where
  "ring_items cells start n = map (\<lambda>i. cells ! ((start + i) mod length cells)) [0..<n]"

lemma length_ring_items [simp]: "length (ring_items cells start n) = n"
  by (simp add: ring_items_def)

lemma ring_items_0 [simp]: "ring_items cells start 0 = []"
  by (simp add: ring_items_def)

lemma mod_add_inj_le:
  assumes "(a + i) mod m = (a + j) mod m" and "i \<le> j" and "j < (m::nat)"
  shows "i = j"
proof -
  from assms(1,2) obtain q where "a + j = a + i + m * q"
    by (metis mod_eq_nat1E add_le_cancel_left)
  with assms(2,3) show ?thesis by (cases q) auto
qed

lemma mod_add_inj:
  assumes "(a + i) mod m = (a + j) mod m" and "i < m" and "j < (m::nat)"
  shows "i = j"
  using assms mod_add_inj_le [of a i m j] mod_add_inj_le [of a j m i] by (cases "i \<le> j") auto

lemma ring_items_put:
  assumes "n < length cells"
  shows "ring_items (cells[(start + n) mod length cells := x]) start (Suc n)
       = ring_items cells start n @ [x]"
proof -
  have "(start + n) mod length cells \<noteq> (start + i) mod length cells" if "i < n" for i
    using that assms mod_add_inj [of start i "length cells" n] by auto
  moreover have "(start + n) mod length cells < length cells"
    using assms by (intro mod_less_divisor) arith
  ultimately show ?thesis
    by (auto simp: ring_items_def nth_list_update)
qed

lemma ring_items_get:
  assumes "0 < n" and "start < length cells"
  shows "ring_items cells start n
       = cells ! start # ring_items cells ((start + 1) mod length cells) (n - 1)"
proof -
  have "[0..<n] = 0 # map Suc [0..<n - 1]"
    using assms(1) by (metis Suc_pred' map_Suc_upt upt_conv_Cons)
  moreover have "((start + 1) mod length cells + i) mod length cells = (start + Suc i) mod length cells" for i
    by (simp add: mod_add_left_eq)
  ultimately show ?thesis
    using assms(2) by (simp add: ring_items_def)
qed

text \<open>The same two facts for the C \<open>int\<close> indices and counters of the code.\<close>

lemma ring_items_put_int:
  assumes "0 \<le> n" and "n < int (length cells)" and "0 \<le> start"
    and "w = (start + n) mod int (length cells)"
  shows "ring_items (cells[nat w := x]) (nat start) (nat (n + 1))
       = ring_items cells (nat start) (nat n) @ [x]"
proof -
  have "nat w = (nat start + nat n) mod length cells"
    using assms by (simp add: nat_mod_distrib nat_add_distrib)
  moreover have "nat (n + 1) = Suc (nat n)" using assms(1) by simp
  ultimately show ?thesis
    using assms ring_items_put [of "nat n" cells "nat start" x] by simp
qed

lemma ring_items_get_int:
  assumes "0 < n" and "0 \<le> start" and "start < int (length cells)"
  shows "ring_items cells (nat start) (nat n)
       = cells ! nat start # ring_items cells (nat ((start + 1) mod int (length cells))) (nat (n - 1))"
proof -
  have "nat ((start + 1) mod int (length cells)) = (nat start + 1) mod length cells"
    using assms by (simp add: nat_mod_distrib nat_add_distrib)
  moreover have "nat (n - 1) = nat n - 1" using assms by simp
  ultimately show ?thesis
    using assms ring_items_get [of "nat n" "nat start" cells] by simp
qed

section \<open>A ring in a heap block, under a mutex\<close>

text \<open>The invariant of a ring with its write index, read index and counter. While no call is in
  progress its mutex is free.\<close>

definition ring_ok :: "'a list ptr \<Rightarrow> int \<Rightarrow> int \<Rightarrow> int \<Rightarrow> int \<Rightarrow> mutex \<Rightarrow> bool" where
  "ring_ok p capacity wr rd count m \<longleftrightarrow>
     m = Unlocked \<and> 0 < capacity \<and> 0 \<le> rd \<and> rd < capacity \<and> 0 \<le> count \<and> count \<le> capacity \<and>
     wr = (rd + count) mod capacity \<and>
     (case p of Live cells \<Rightarrow> int (length cells) = capacity | _ \<Rightarrow> False)"

definition ring_list :: "'a list ptr \<Rightarrow> int \<Rightarrow> int \<Rightarrow> 'a list" where
  "ring_list p rd count =
     (case p of Live cells \<Rightarrow> ring_items cells (nat rd) (nat count) | _ \<Rightarrow> [])"

lemma ring_okE:
  assumes "ring_ok p capacity wr rd count m"
  obtains cells where "p = Live cells" "int (length cells) = capacity" "m = Unlocked"
    "0 < capacity" "0 \<le> rd" "rd < capacity" "0 \<le> count" "count \<le> capacity"
    "wr = (rd + count) mod capacity"
  using assms by (auto simp: ring_ok_def split: ptr.splits)

lemma length_ring_list:
  "ring_ok p capacity wr rd count m \<Longrightarrow> int (length (ring_list p rd count)) = count"
  by (elim ring_okE) (simp add: ring_list_def)

text \<open>Storing into a ring with room: the cell written is inside the block, the ring stays well
  formed and its list grows at the end.\<close>

lemma ring_store:
  assumes "ring_ok p capacity wr rd count m" and "count < capacity"
  shows "\<exists>p'. cell_set p wr x = Some p' \<and>
     c_rem (wr + 1) capacity = Some ((wr + 1) mod capacity) \<and>
     ring_ok p' capacity ((wr + 1) mod capacity) rd (count + 1) m \<and>
     ring_list p' rd (count + 1) = ring_list p rd count @ [x]"
  using assms(1)
proof (rule ring_okE)
  fix cells
  assume f: "p = Live cells" "int (length cells) = capacity" "m = Unlocked"
    "0 < capacity" "0 \<le> rd" "rd < capacity" "0 \<le> count" "count \<le> capacity"
    "wr = (rd + count) mod capacity"
  then have h: "0 \<le> wr" "wr < capacity" by simp_all
  have set: "cell_set p wr x = Some (Live (cells[nat wr := x]))"
    using f(1,2) h by (simp add: cell_set_def)
  have rem: "c_rem (wr + 1) capacity = Some ((wr + 1) mod capacity)"
    using h f(4) by (intro c_rem_nonneg) auto
  have "(wr + 1) mod capacity = (rd + (count + 1)) mod capacity"
    using f(9) by (simp add: mod_simps add.assoc)
  then have ok: "ring_ok (Live (cells[nat wr := x])) capacity ((wr + 1) mod capacity) rd (count + 1) m"
    using f assms(2) by (simp add: ring_ok_def)
  have "ring_items (cells[nat wr := x]) (nat rd) (nat (count + 1))
      = ring_items cells (nat rd) (nat count) @ [x]"
    using f assms(2) by (intro ring_items_put_int) auto
  with set rem ok f(1) show ?thesis by (auto simp: ring_list_def)
qed

text \<open>Taking from a ring that is not empty.\<close>

lemma ring_fetch:
  assumes "ring_ok p capacity wr rd count m" and "count \<noteq> 0"
  shows "\<exists>x. cell_get p rd = Some x \<and>
     c_rem (rd + 1) capacity = Some ((rd + 1) mod capacity) \<and>
     ring_ok p capacity wr ((rd + 1) mod capacity) (count - 1) m \<and>
     ring_list p rd count = x # ring_list p ((rd + 1) mod capacity) (count - 1)"
  using assms(1)
proof (rule ring_okE)
  fix cells
  assume f: "p = Live cells" "int (length cells) = capacity" "m = Unlocked"
    "0 < capacity" "0 \<le> rd" "rd < capacity" "0 \<le> count" "count \<le> capacity"
    "wr = (rd + count) mod capacity"
  have "((rd + 1) mod capacity + (count - 1)) mod capacity = (rd + 1 + (count - 1)) mod capacity"
    by (rule mod_add_left_eq)
  then have "((rd + 1) mod capacity + (count - 1)) mod capacity = wr" using f(9) by simp
  then have ok: "ring_ok p capacity wr ((rd + 1) mod capacity) (count - 1) m"
    using f assms(2) by (auto simp: ring_ok_def)
  have "ring_items cells (nat rd) (nat count)
      = cells ! nat rd # ring_items cells (nat ((rd + 1) mod int (length cells))) (nat (count - 1))"
    using f assms(2) by (intro ring_items_get_int) auto
  then have "ring_list p rd count
      = cells ! nat rd # ring_list p ((rd + 1) mod capacity) (count - 1)"
    using f(1,2) by (simp add: ring_list_def)
  with ok f show ?thesis by (auto simp: cell_get_def)
qed

section \<open>The interface\<close>

text \<open>\<open>put q x = None\<close>: the queue refuses \<open>x\<close> (the call returns an error, or would block);
  \<open>get q = None\<close>: there is nothing to take.\<close>

locale bounded_fifo =
  fixes invar :: "'q \<Rightarrow> bool"
    and items :: "'q \<Rightarrow> 'a list"
    and cap :: "'q \<Rightarrow> nat"
    and put :: "'q \<Rightarrow> 'a \<Rightarrow> 'q option"
    and get :: "'q \<Rightarrow> ('a \<times> 'q) option"
  assumes items_le_cap: "invar q \<Longrightarrow> length (items q) \<le> cap q"
    and put_full: "invar q \<Longrightarrow> length (items q) = cap q \<Longrightarrow> put q x = None"
    and put_room: "invar q \<Longrightarrow> length (items q) < cap q \<Longrightarrow>
      \<exists>q'. put q x = Some q' \<and> invar q' \<and> items q' = items q @ [x] \<and> cap q' = cap q"
    and get_empty: "invar q \<Longrightarrow> items q = [] \<Longrightarrow> get q = None"
    and get_some: "invar q \<Longrightarrow> items q = x # xs \<Longrightarrow>
      \<exists>q'. get q = Some (x, q') \<and> invar q' \<and> items q' = xs \<and> cap q' = cap q"

text \<open>A client's calls, and what a run of them yields: the values the queue accepted, the values
  it handed out, and the queue at the end. A refused call leaves the queue as it is.\<close>

datatype 'a fifo_call = Put 'a | Get

fun fifo_run :: "('q \<Rightarrow> 'a \<Rightarrow> 'q option) \<Rightarrow> ('q \<Rightarrow> ('a \<times> 'q) option)
    \<Rightarrow> 'q \<Rightarrow> 'a fifo_call list \<Rightarrow> 'a list \<times> 'a list \<times> 'q" where
  "fifo_run put get q [] = ([], [], q)"
| "fifo_run put get q (Put x # cs) =
     (case put q x of
        None \<Rightarrow> fifo_run put get q cs
      | Some q' \<Rightarrow> (case fifo_run put get q' cs of (ins, outs, r) \<Rightarrow> (x # ins, outs, r)))"
| "fifo_run put get q (Get # cs) =
     (case get q of
        None \<Rightarrow> fifo_run put get q cs
      | Some (x, q') \<Rightarrow> (case fifo_run put get q' cs of (ins, outs, r) \<Rightarrow> (ins, x # outs, r)))"

context bounded_fifo
begin

lemma put_iff: "invar q \<Longrightarrow> put q x = None \<longleftrightarrow> length (items q) = cap q"
  using put_full [of q x] put_room [of q x] items_le_cap [of q] by (fastforce simp: le_less)

lemma get_iff: "invar q \<Longrightarrow> get q = None \<longleftrightarrow> items q = []"
  using get_empty [of q] get_some [of q] by (cases "items q") fastforce+

lemma put_Some: "invar q \<Longrightarrow> put q x = Some q' \<Longrightarrow>
    invar q' \<and> items q' = items q @ [x] \<and> cap q' = cap q"
  using put_room [of q x] put_full [of q x] items_le_cap [of q] by (fastforce simp: le_less)

lemma get_Some: "invar q \<Longrightarrow> get q = Some (x, q') \<Longrightarrow>
    invar q' \<and> items q = x # items q' \<and> cap q' = cap q"
  using get_some [of q] get_empty [of q] by (cases "items q") fastforce+

text \<open>The history law: what was stored and what was accepted is what came out and what is left,
  in that order.\<close>

lemma fifo_history:
  "invar q \<Longrightarrow> fifo_run put get q cs = (ins, outs, r) \<Longrightarrow>
     invar r \<and> cap r = cap q \<and> items q @ ins = outs @ items r"
proof (induction cs arbitrary: q ins outs)
  case Nil
  then show ?case by simp
next
  case (Cons c cs)
  show ?case
  proof (cases c)
    case (Put x)
    with Cons show ?thesis
      by (fastforce split: option.splits prod.splits dest: put_Some)
  next
    case Get
    with Cons show ?thesis
      by (fastforce split: option.splits prod.splits dest: get_Some)
  qed
qed

lemma fifo_run_bound:
  assumes "invar q" and "fifo_run put get q cs = (ins, outs, r)"
  shows "length (items q) + length ins \<le> length outs + cap q"
proof -
  from fifo_history [OF assms] have "invar r" "cap r = cap q" and e: "items q @ ins = outs @ items r"
    by auto
  moreover from e have "length (items q) + length ins = length outs + length (items r)"
    by (metis length_append)
  ultimately show ?thesis using items_le_cap [of r] by simp
qed

end

end
