(* ===== verification/Volcom_CString.thy ===== *)
theory Volcom_CString
  imports Volcom_Prelude
begin

text \<open>
  C strings in fixed character arrays. A \<open>char buf[N]\<close> is a \<open>char list\<close> of length \<open>N\<close>, its
  bytes as they are in memory; the string it holds ends at its first NUL. The library calls
  the code uses write the array byte for byte as ISO C says: \<open>strncpy\<close> pads with NUL but does
  not terminate a source of \<open>n\<close> characters or more, \<open>snprintf\<close> truncates and always terminates.
  Reading an array with no NUL runs past its end in C, which has no defined result: the
  invariants of the components say where arrays are \<open>terminated\<close>.
\<close>

section \<open>Arrays of characters\<close>

abbreviation NUL :: char where
  "NUL \<equiv> CHR 0x00"

definition cstr :: "char list \<Rightarrow> string" where
  "cstr buf = takeWhile (\<lambda>c. c \<noteq> NUL) buf"

definition terminated :: "char list \<Rightarrow> bool" where
  "terminated buf \<longleftrightarrow> NUL \<in> set buf"

text \<open>\<open>strcmp(a, b) == 0\<close>.\<close>

definition str_eq :: "char list \<Rightarrow> char list \<Rightarrow> bool" where
  "str_eq a b \<longleftrightarrow> cstr a = cstr b"

definition strncpy :: "char list \<Rightarrow> char list \<Rightarrow> nat \<Rightarrow> char list" where
  "strncpy dst src n =
     take n (cstr src @ replicate (n - length (cstr src)) NUL) @ drop n dst"

text \<open>\<open>snprintf(dst, n, ...)\<close> where the formatted text is \<open>s\<close>.\<close>

definition snprintf :: "char list \<Rightarrow> nat \<Rightarrow> string \<Rightarrow> char list" where
  "snprintf dst n s =
     (if n = 0 then dst
      else take (n - 1) s @ [NUL] @ drop (Suc (length (take (n - 1) s))) dst)"

text \<open>An array of \<open>n\<close> bytes set to zero that then receives a short string.\<close>

definition zbuf :: "nat \<Rightarrow> string \<Rightarrow> char list" where
  "zbuf n s = take n s @ replicate (n - length s) NUL"

lemma length_strncpy [simp]: "n \<le> length dst \<Longrightarrow> length (strncpy dst src n) = length dst"
  by (simp add: strncpy_def)

lemma length_snprintf [simp]:
  "n \<le> length dst \<Longrightarrow> length (snprintf dst n s) = length dst"
  by (cases "n - 1 \<le> length s") (auto simp: snprintf_def min_def)

lemma length_zbuf [simp]: "length (zbuf n s) = n"
  by (simp add: zbuf_def)

lemma cstr_no_NUL [simp]: "NUL \<notin> set (cstr buf)"
  by (auto simp: cstr_def dest: set_takeWhileD)

lemma cstr_cstr [simp]: "cstr (cstr s) = cstr s"
  by (simp add: cstr_def takeWhile_idem)

lemma cstr_id: "NUL \<notin> set s \<Longrightarrow> cstr s = s"
  by (auto simp: cstr_def takeWhile_eq_all_conv)

lemma cstr_append_NUL: "NUL \<notin> set s \<Longrightarrow> cstr (s @ NUL # r) = s"
  by (auto simp: cstr_def takeWhile_append)

lemma length_cstr_le: "length (cstr s) \<le> length s"
  by (simp add: cstr_def length_takeWhile_le)

lemma length_cstr_terminated: "terminated buf \<Longrightarrow> length (cstr buf) < length buf"
  by (induction buf) (auto simp: cstr_def terminated_def)

lemma str_eq_refl [simp]: "str_eq a a"
  by (simp add: str_eq_def)

lemma str_eq_sym: "str_eq a b \<longleftrightarrow> str_eq b a"
  by (auto simp: str_eq_def)

text \<open>A source that leaves room for the terminator arrives whole and terminated, whatever the
  array held before.\<close>

lemma strncpy_fits:
  assumes "length (cstr src) < n" and "n \<le> length dst"
  shows "cstr (strncpy dst src n) = cstr src" and "terminated (strncpy dst src n)"
proof -
  obtain k where k: "n - length (cstr src) = Suc k"
    using assms(1) by (metis Suc_diff_Suc)
  have "strncpy dst src n = cstr src @ NUL # replicate k NUL @ drop n dst"
    using assms by (simp add: strncpy_def k)
  then show "cstr (strncpy dst src n) = cstr src" and "terminated (strncpy dst src n)"
    by (simp_all add: cstr_append_NUL terminated_def)
qed

text \<open>Copying \<open>N - 1\<close> characters into an \<open>N\<close>-byte array whose last byte is NUL terminates it and
  truncates the source.\<close>

lemma strncpy_last_NUL:
  assumes "length dst = Suc n" and "last dst = NUL"
  shows "cstr (strncpy dst src n) = take n (cstr src)" and "terminated (strncpy dst src n)"
    and "last (strncpy dst src n) = NUL"
proof -
  have "dst = butlast dst @ [NUL]"
    using assms append_butlast_last_id [of dst] by fastforce
  moreover have "length (butlast dst) = n" using assms(1) by simp
  ultimately have d: "drop n dst = [NUL]" by (metis append_eq_conv_conj)
  show "terminated (strncpy dst src n)" and "last (strncpy dst src n) = NUL"
    by (simp_all add: strncpy_def d terminated_def)
  show "cstr (strncpy dst src n) = take n (cstr src)"
  proof (cases "length (cstr src) < n")
    case True
    with strncpy_fits(1) [OF True, of dst] assms(1) show ?thesis by simp
  next
    case False
    moreover have "NUL \<notin> set (take n (cstr src))"
      by (meson cstr_no_NUL in_set_takeD)
    ultimately show ?thesis by (simp add: strncpy_def d cstr_append_NUL)
  qed
qed

text \<open>The idiom \<open>strncpy(d, s, n - 1); d[n - 1] = 0\<close>: the truncated source, terminated, whatever the
  array held.\<close>

lemma cstr_take_pad: "NUL \<notin> set t \<Longrightarrow> cstr (take m (t @ replicate (m - length t) NUL) @ NUL # r) = take m t"
proof (cases "m \<le> length t")
  case True
  moreover assume "NUL \<notin> set t"
  then have "NUL \<notin> set (take m t)" by (meson in_set_takeD)
  ultimately show ?thesis by (simp add: cstr_append_NUL)
next
  case False
  assume n: "NUL \<notin> set t"
  from False obtain k where "m - length t = Suc k" by (metis Suc_diff_Suc leI)
  with n False show ?thesis by (simp add: cstr_append_NUL)
qed

lemma strncpy_set_last:
  assumes "m < length dst"
  shows "cstr ((strncpy dst src m)[m := NUL]) = take m (cstr src)"
    and "terminated ((strncpy dst src m)[m := NUL])"
proof -
  let ?P = "take m (cstr src @ replicate (m - length (cstr src)) NUL)"
  have len: "length ?P = m" by simp
  have "(strncpy dst src m)[m := NUL] = ?P @ (drop m dst)[0 := NUL]"
    unfolding strncpy_def list_update_append len by simp
  also have "drop m dst = dst ! m # drop (Suc m) dst"
    using assms by (simp add: Cons_nth_drop_Suc)
  finally have e: "(strncpy dst src m)[m := NUL] = ?P @ NUL # drop (Suc m) dst" by simp
  show "cstr ((strncpy dst src m)[m := NUL]) = take m (cstr src)"
    unfolding e by (rule cstr_take_pad) simp
  show "terminated ((strncpy dst src m)[m := NUL])"
    unfolding e terminated_def by simp
qed

lemma snprintf_cstr:
  assumes "0 < n" and "NUL \<notin> set s"
  shows "cstr (snprintf dst n s) = take (n - 1) s" and "terminated (snprintf dst n s)"
proof -
  have "NUL \<notin> set (take (n - 1) s)" using assms(2) by (meson in_set_takeD)
  then show "cstr (snprintf dst n s) = take (n - 1) s" and "terminated (snprintf dst n s)"
    using assms(1) by (simp_all add: snprintf_def cstr_append_NUL terminated_def)
qed

lemma cstr_zbuf: "NUL \<notin> set s \<Longrightarrow> length s < n \<Longrightarrow> cstr (zbuf n s) = s"
proof -
  assume s: "NUL \<notin> set s" "length s < n"
  then obtain k where "n - length s = Suc k" by (metis Suc_diff_Suc)
  then have "zbuf n s = s @ NUL # replicate k NUL"
    using s(2) by (simp add: zbuf_def)
  with s(1) show ?thesis by (simp add: cstr_append_NUL)
qed

section \<open>Decimal numbers: the \<open>%d\<close>, \<open>%lu\<close> and \<open>%ld\<close> conversions\<close>

definition digit :: "nat \<Rightarrow> char" where
  "digit d = char_of (48 + d)"

fun dec_nat :: "nat \<Rightarrow> string" where
  "dec_nat n = (if n < 10 then [digit n] else dec_nat (n div 10) @ [digit (n mod 10)])"

declare dec_nat.simps [simp del]

definition dec_int :: "int \<Rightarrow> string" where
  "dec_int i = (if i < 0 then CHR ''-'' # dec_nat (nat (- i)) else dec_nat (nat i))"

definition is_digit :: "char \<Rightarrow> bool" where
  "is_digit c \<longleftrightarrow> 48 \<le> (of_char c :: nat) \<and> (of_char c :: nat) \<le> 57"

definition digit_val :: "char \<Rightarrow> nat" where
  "digit_val c = of_char c - 48"

text \<open>The value of a run of digits, most significant first.\<close>

definition digits_val :: "string \<Rightarrow> nat" where
  "digits_val s = foldl (\<lambda>v c. 10 * v + digit_val c) 0 s"

lemma of_char_digit: "d < 10 \<Longrightarrow> (of_char (digit d) :: nat) = 48 + d"
  by (simp add: digit_def of_char_of)

lemma digit_val_digit [simp]: "d < 10 \<Longrightarrow> digit_val (digit d) = d"
  by (simp add: digit_val_def of_char_digit)

lemma is_digit_digit [simp]: "d < 10 \<Longrightarrow> is_digit (digit d)"
  by (simp add: is_digit_def of_char_digit)

lemma is_digit_not_NUL: "is_digit c \<Longrightarrow> c \<noteq> NUL"
  by (auto simp: is_digit_def)

lemma dec_nat_digits: "c \<in> set (dec_nat n) \<Longrightarrow> is_digit c"
proof (induction n rule: dec_nat.induct)
  case (1 n)
  show ?case
  proof (cases "n < 10")
    case True
    with "1.prems" show ?thesis by (simp add: dec_nat.simps [of n])
  next
    case False
    with 1 show ?thesis by (auto simp: dec_nat.simps [of n])
  qed
qed

lemma dec_nat_no_NUL [simp]: "NUL \<notin> set (dec_nat n)"
  using dec_nat_digits is_digit_not_NUL by blast

lemma dec_nat_not_Nil [simp]: "dec_nat n \<noteq> []"
  by (subst dec_nat.simps) simp

lemma digits_val_dec_nat [simp]: "digits_val (dec_nat n) = n"
proof (induction n rule: dec_nat.induct)
  case (1 n)
  show ?case
  proof (cases "n < 10")
    case True
    then show ?thesis by (simp add: dec_nat.simps [of n] digits_val_def)
  next
    case False
    with "1.IH" have "digits_val (dec_nat (n div 10)) = n div 10" by simp
    with False show ?thesis by (simp add: dec_nat.simps [of n] digits_val_def)
  qed
qed

lemma dec_nat_inject [simp]: "dec_nat m = dec_nat n \<longleftrightarrow> m = n"
  by (metis digits_val_dec_nat)

lemma dec_int_no_NUL [simp]: "NUL \<notin> set (dec_int i)"
  by (simp add: dec_int_def)

end
