(* ===== verification/Task_Management.thy ===== *)
theory Task_Management
  imports Bounded_Fifo Volcom_CString
begin

text \<open>
  \<open>volcom_agents/task_management.c\<close>: the buffer of received tasks and the queue of results of
  the employee agent, both circular arrays under a mutex, with the types of
  \<open>volcom_agents.h\<close>. In both, \<open>head\<close> is the next cell to write and \<open>tail\<close> the next cell to read.
  Every function is the whole C body, locks included; \<open>None\<close> is a call with no defined result.
\<close>

section \<open>The records of volcom_agents.h\<close>

record received_task_t =
  rt_task_id :: "char list"
  rt_chunk_filename :: "char list"
  rt_sender_id :: "char list"
  rt_data :: "char list ptr"
  rt_data_size :: u64
  rt_received_time :: int
  rt_is_processed :: bool
  rt_frame_no :: int

record result_info_t =
  ri_task_id :: "char list"
  ri_result_filepath :: "char list"
  ri_employer_ip :: "char list"

record task_buffer_t =
  tb_tasks :: "received_task_t list ptr"
  tb_capacity :: int
  tb_head :: int
  tb_tail :: int
  tb_count :: int
  tb_mutex :: mutex

record result_queue_t =
  rq_results :: "result_info_t list ptr"
  rq_capacity :: int
  rq_head :: int
  rq_tail :: int
  rq_count :: int
  rq_mutex :: mutex

section \<open>Task buffer\<close>

text \<open>\<open>mem\<close> is what \<open>malloc(sizeof(received_task_t) * capacity)\<close> returns: \<open>Null\<close>, or a live
  block of \<open>capacity\<close> cells with any content.\<close>

definition init_task_buffer ::
    "task_buffer_t option \<Rightarrow> int \<Rightarrow> received_task_t list ptr \<Rightarrow> int \<times> task_buffer_t option" where
  "init_task_buffer buffer capacity mem =
     (case buffer of
        None \<Rightarrow> (-1, None)
      | Some b \<Rightarrow>
          if mem = Null then (-1, Some (b\<lparr>tb_tasks := Null\<rparr>))
          else (0, Some (b\<lparr>tb_tasks := mem, tb_capacity := capacity, tb_head := 0, tb_tail := 0,
                           tb_count := 0, tb_mutex := Unlocked\<rparr>)))"

text \<open>The block is freed and the mutex destroyed, but the pointer is not cleared: a second
  cleanup frees the block again.\<close>

definition cleanup_task_buffer :: "task_buffer_t option \<Rightarrow> task_buffer_t option option" where
  "cleanup_task_buffer buffer =
     (case buffer of
        None \<Rightarrow> Some None
      | Some b \<Rightarrow> (case tb_tasks b of
          Null \<Rightarrow> Some (Some b)
        | Live _ \<Rightarrow> Some (Some (b\<lparr>tb_tasks := Dangling, tb_mutex := Uninit\<rparr>))
        | Dangling \<Rightarrow> None))"

definition add_task_to_buffer ::
    "task_buffer_t \<Rightarrow> received_task_t \<Rightarrow> (int \<times> task_buffer_t) option" where
  "add_task_to_buffer buffer task = do {
     m \<leftarrow> mutex_lock (tb_mutex buffer);
     if tb_count buffer \<ge> tb_capacity buffer
     then do {
       m \<leftarrow> mutex_unlock m;
       Some (-1, buffer\<lparr>tb_mutex := m\<rparr>)
     }
     else do {
       tasks \<leftarrow> cell_set (tb_tasks buffer) (tb_head buffer) task;
       head \<leftarrow> c_rem (tb_head buffer + 1) (tb_capacity buffer);
       m \<leftarrow> mutex_unlock m;
       Some (0, buffer\<lparr>tb_tasks := tasks, tb_head := head,
                       tb_count := tb_count buffer + 1, tb_mutex := m\<rparr>)
     }
   }"

definition get_task_from_buffer ::
    "task_buffer_t \<Rightarrow> (int \<times> received_task_t option \<times> task_buffer_t) option" where
  "get_task_from_buffer buffer = do {
     m \<leftarrow> mutex_lock (tb_mutex buffer);
     if tb_count buffer = 0
     then do {
       m \<leftarrow> mutex_unlock m;
       Some (-1, None, buffer\<lparr>tb_mutex := m\<rparr>)
     }
     else do {
       task \<leftarrow> cell_get (tb_tasks buffer) (tb_tail buffer);
       tail \<leftarrow> c_rem (tb_tail buffer + 1) (tb_capacity buffer);
       m \<leftarrow> mutex_unlock m;
       Some (0, Some task, buffer\<lparr>tb_tail := tail, tb_count := tb_count buffer - 1, tb_mutex := m\<rparr>)
     }
   }"

definition is_task_buffer_empty :: "task_buffer_t \<Rightarrow> (bool \<times> task_buffer_t) option" where
  "is_task_buffer_empty buffer = do {
     m \<leftarrow> mutex_lock (tb_mutex buffer);
     m \<leftarrow> mutex_unlock m;
     Some (tb_count buffer = 0, buffer\<lparr>tb_mutex := m\<rparr>)
   }"

section \<open>Result queue\<close>

definition init_result_queue ::
    "result_queue_t option \<Rightarrow> int \<Rightarrow> result_info_t list ptr \<Rightarrow> int \<times> result_queue_t option" where
  "init_result_queue queue capacity mem =
     (case queue of
        None \<Rightarrow> (-1, None)
      | Some q \<Rightarrow>
          if mem = Null then (-1, Some (q\<lparr>rq_results := Null\<rparr>))
          else (0, Some (q\<lparr>rq_results := mem, rq_capacity := capacity, rq_head := 0, rq_tail := 0,
                           rq_count := 0, rq_mutex := Unlocked\<rparr>)))"

definition cleanup_result_queue :: "result_queue_t option \<Rightarrow> result_queue_t option option" where
  "cleanup_result_queue queue =
     (case queue of
        None \<Rightarrow> Some None
      | Some q \<Rightarrow> (case rq_results q of
          Null \<Rightarrow> Some (Some q)
        | Live _ \<Rightarrow> Some (Some (q\<lparr>rq_results := Dangling, rq_mutex := Uninit\<rparr>))
        | Dangling \<Rightarrow> None))"

definition add_result_to_queue ::
    "result_queue_t \<Rightarrow> result_info_t \<Rightarrow> (int \<times> result_queue_t) option" where
  "add_result_to_queue queue result = do {
     m \<leftarrow> mutex_lock (rq_mutex queue);
     if rq_count queue \<ge> rq_capacity queue
     then do {
       m \<leftarrow> mutex_unlock m;
       Some (-1, queue\<lparr>rq_mutex := m\<rparr>)
     }
     else do {
       results \<leftarrow> cell_set (rq_results queue) (rq_head queue) result;
       head \<leftarrow> c_rem (rq_head queue + 1) (rq_capacity queue);
       m \<leftarrow> mutex_unlock m;
       Some (0, queue\<lparr>rq_results := results, rq_head := head,
                      rq_count := rq_count queue + 1, rq_mutex := m\<rparr>)
     }
   }"

definition get_result_from_queue ::
    "result_queue_t \<Rightarrow> (int \<times> result_info_t option \<times> result_queue_t) option" where
  "get_result_from_queue queue = do {
     m \<leftarrow> mutex_lock (rq_mutex queue);
     if rq_count queue = 0
     then do {
       m \<leftarrow> mutex_unlock m;
       Some (-1, None, queue\<lparr>rq_mutex := m\<rparr>)
     }
     else do {
       result \<leftarrow> cell_get (rq_results queue) (rq_tail queue);
       tail \<leftarrow> c_rem (rq_tail queue + 1) (rq_capacity queue);
       m \<leftarrow> mutex_unlock m;
       Some (0, Some result, queue\<lparr>rq_tail := tail, rq_count := rq_count queue - 1, rq_mutex := m\<rparr>)
     }
   }"

definition is_result_queue_empty :: "result_queue_t \<Rightarrow> (bool \<times> result_queue_t) option" where
  "is_result_queue_empty queue = do {
     m \<leftarrow> mutex_lock (rq_mutex queue);
     m \<leftarrow> mutex_unlock m;
     Some (rq_count queue = 0, queue\<lparr>rq_mutex := m\<rparr>)
   }"

section \<open>What they keep and what they store\<close>

definition task_buffer_inv :: "task_buffer_t \<Rightarrow> bool" where
  "task_buffer_inv b \<longleftrightarrow>
     ring_ok (tb_tasks b) (tb_capacity b) (tb_head b) (tb_tail b) (tb_count b) (tb_mutex b)"

definition task_buffer_items :: "task_buffer_t \<Rightarrow> received_task_t list" where
  "task_buffer_items b = ring_list (tb_tasks b) (tb_tail b) (tb_count b)"

definition result_queue_inv :: "result_queue_t \<Rightarrow> bool" where
  "result_queue_inv q \<longleftrightarrow>
     ring_ok (rq_results q) (rq_capacity q) (rq_head q) (rq_tail q) (rq_count q) (rq_mutex q)"

definition result_queue_items :: "result_queue_t \<Rightarrow> result_info_t list" where
  "result_queue_items q = ring_list (rq_results q) (rq_tail q) (rq_count q)"

lemmas task_management_defs =
  task_buffer_inv_def task_buffer_items_def result_queue_inv_def result_queue_items_def

lemma init_task_buffer_inv:
  assumes "int (length cells) = capacity" and "0 < capacity"
    and "init_task_buffer (Some b) capacity (Live cells) = (r, Some b')"
  shows "r = 0 \<and> task_buffer_inv b' \<and> task_buffer_items b' = [] \<and> tb_capacity b' = capacity"
  using assms by (auto simp: init_task_buffer_def task_management_defs ring_ok_def ring_list_def)

lemma init_result_queue_inv:
  assumes "int (length cells) = capacity" and "0 < capacity"
    and "init_result_queue (Some q) capacity (Live cells) = (r, Some q')"
  shows "r = 0 \<and> result_queue_inv q' \<and> result_queue_items q' = [] \<and> rq_capacity q' = capacity"
  using assms by (auto simp: init_result_queue_def task_management_defs ring_ok_def ring_list_def)

lemma task_buffer_inv_Unlocked: "task_buffer_inv b \<Longrightarrow> tb_mutex b = Unlocked"
  and result_queue_inv_Unlocked: "result_queue_inv q \<Longrightarrow> rq_mutex q = Unlocked"
  by (auto simp: task_management_defs elim: ring_okE)

lemma task_buffer_count:
  "task_buffer_inv b \<Longrightarrow> int (length (task_buffer_items b)) = tb_count b"
  by (simp add: task_management_defs length_ring_list)

lemma result_queue_count:
  "result_queue_inv q \<Longrightarrow> int (length (result_queue_items q)) = rq_count q"
  by (simp add: task_management_defs length_ring_list)

lemma task_buffer_bounds:
  "task_buffer_inv b \<Longrightarrow> 0 \<le> tb_count b \<and> tb_count b \<le> tb_capacity b \<and> 0 < tb_capacity b"
  by (auto simp: task_management_defs elim: ring_okE)

lemma result_queue_bounds:
  "result_queue_inv q \<Longrightarrow> 0 \<le> rq_count q \<and> rq_count q \<le> rq_capacity q \<and> 0 < rq_capacity q"
  by (auto simp: task_management_defs elim: ring_okE)

lemma add_task_full:
  "task_buffer_inv b \<Longrightarrow> tb_count b = tb_capacity b \<Longrightarrow> add_task_to_buffer b t = Some (-1, b)"
  by (simp add: add_task_to_buffer_def task_buffer_inv_Unlocked)

lemma add_result_full:
  "result_queue_inv q \<Longrightarrow> rq_count q = rq_capacity q \<Longrightarrow> add_result_to_queue q t = Some (-1, q)"
  by (simp add: add_result_to_queue_def result_queue_inv_Unlocked)

lemma add_task_room:
  assumes "task_buffer_inv b" and "tb_count b < tb_capacity b"
  shows "\<exists>b'. add_task_to_buffer b t = Some (0, b') \<and> task_buffer_inv b' \<and>
     task_buffer_items b' = task_buffer_items b @ [t] \<and> tb_capacity b' = tb_capacity b"
proof -
  have free: "tb_mutex b = Unlocked" using assms(1) by (rule task_buffer_inv_Unlocked)
  from ring_store [OF assms [unfolded task_buffer_inv_def], of t] assms(2) free show ?thesis
    by (auto simp: add_task_to_buffer_def task_management_defs)
qed

lemma add_result_room:
  assumes "result_queue_inv q" and "rq_count q < rq_capacity q"
  shows "\<exists>q'. add_result_to_queue q t = Some (0, q') \<and> result_queue_inv q' \<and>
     result_queue_items q' = result_queue_items q @ [t] \<and> rq_capacity q' = rq_capacity q"
proof -
  have free: "rq_mutex q = Unlocked" using assms(1) by (rule result_queue_inv_Unlocked)
  from ring_store [OF assms [unfolded result_queue_inv_def], of t] assms(2) free show ?thesis
    by (auto simp: add_result_to_queue_def task_management_defs)
qed

lemma get_task_empty:
  "task_buffer_inv b \<Longrightarrow> tb_count b = 0 \<Longrightarrow> get_task_from_buffer b = Some (-1, None, b)"
  by (simp add: get_task_from_buffer_def task_buffer_inv_Unlocked)

lemma get_result_empty:
  "result_queue_inv q \<Longrightarrow> rq_count q = 0 \<Longrightarrow> get_result_from_queue q = Some (-1, None, q)"
  by (simp add: get_result_from_queue_def result_queue_inv_Unlocked)

lemma get_task_some:
  assumes "task_buffer_inv b" and "tb_count b \<noteq> 0"
  shows "\<exists>t b'. get_task_from_buffer b = Some (0, Some t, b') \<and> task_buffer_inv b' \<and>
     task_buffer_items b = t # task_buffer_items b' \<and> tb_capacity b' = tb_capacity b"
proof -
  have free: "tb_mutex b = Unlocked" using assms(1) by (rule task_buffer_inv_Unlocked)
  from ring_fetch [OF assms [unfolded task_buffer_inv_def]] assms(2) free show ?thesis
    by (auto simp: get_task_from_buffer_def task_management_defs)
qed

lemma get_result_some:
  assumes "result_queue_inv q" and "rq_count q \<noteq> 0"
  shows "\<exists>t q'. get_result_from_queue q = Some (0, Some t, q') \<and> result_queue_inv q' \<and>
     result_queue_items q = t # result_queue_items q' \<and> rq_capacity q' = rq_capacity q"
proof -
  have free: "rq_mutex q = Unlocked" using assms(1) by (rule result_queue_inv_Unlocked)
  from ring_fetch [OF assms [unfolded result_queue_inv_def]] assms(2) free show ?thesis
    by (auto simp: get_result_from_queue_def task_management_defs)
qed

section \<open>Both are bounded queues\<close>

text \<open>The calls as the interface sees them: accepted when the return value is 0.\<close>

definition task_put :: "task_buffer_t \<Rightarrow> received_task_t \<Rightarrow> task_buffer_t option" where
  "task_put b t = do { (r, b') \<leftarrow> add_task_to_buffer b t; if r = 0 then Some b' else None }"

definition task_get :: "task_buffer_t \<Rightarrow> (received_task_t \<times> task_buffer_t) option" where
  "task_get b = do { (r, t, b') \<leftarrow> get_task_from_buffer b; map_option (\<lambda>x. (x, b')) t }"

definition result_put :: "result_queue_t \<Rightarrow> result_info_t \<Rightarrow> result_queue_t option" where
  "result_put q t = do { (r, q') \<leftarrow> add_result_to_queue q t; if r = 0 then Some q' else None }"

definition result_get :: "result_queue_t \<Rightarrow> (result_info_t \<times> result_queue_t) option" where
  "result_get q = do { (r, t, q') \<leftarrow> get_result_from_queue q; map_option (\<lambda>x. (x, q')) t }"

interpretation tbuf: bounded_fifo task_buffer_inv task_buffer_items "\<lambda>b. nat (tb_capacity b)"
  task_put task_get
proof (unfold_locales, goal_cases)
  case (1 b)
  then show ?case using task_buffer_count [of b] task_buffer_bounds [of b] by linarith
next
  case (2 b t)
  then have "tb_count b = tb_capacity b"
    using task_buffer_count [of b] task_buffer_bounds [of b] by linarith
  with 2 show ?case by (simp add: task_put_def add_task_full)
next
  case (3 b t)
  then have "tb_count b < tb_capacity b"
    using task_buffer_count [of b] task_buffer_bounds [of b] by linarith
  with add_task_room [OF 3(1) this, of t] show ?case by (auto simp: task_put_def)
next
  case (4 b)
  then have "tb_count b = 0" using task_buffer_count [of b] by simp
  with 4 show ?case by (simp add: task_get_def get_task_empty)
next
  case (5 b t ts)
  then have "tb_count b \<noteq> 0" using task_buffer_count [of b] by auto
  with get_task_some [OF 5(1) this] 5(2) show ?case by (auto simp: task_get_def)
qed

interpretation rqueue: bounded_fifo result_queue_inv result_queue_items "\<lambda>q. nat (rq_capacity q)"
  result_put result_get
proof (unfold_locales, goal_cases)
  case (1 q)
  then show ?case using result_queue_count [of q] result_queue_bounds [of q] by linarith
next
  case (2 q t)
  then have "rq_count q = rq_capacity q"
    using result_queue_count [of q] result_queue_bounds [of q] by linarith
  with 2 show ?case by (simp add: result_put_def add_result_full)
next
  case (3 q t)
  then have "rq_count q < rq_capacity q"
    using result_queue_count [of q] result_queue_bounds [of q] by linarith
  with add_result_room [OF 3(1) this, of t] show ?case by (auto simp: result_put_def)
next
  case (4 q)
  then have "rq_count q = 0" using result_queue_count [of q] by simp
  with 4 show ?case by (simp add: result_get_def get_result_empty)
next
  case (5 q t ts)
  then have "rq_count q \<noteq> 0" using result_queue_count [of q] by auto
  with get_result_some [OF 5(1) this] 5(2) show ?case by (auto simp: result_get_def)
qed

section \<open>Properties\<close>

text \<open>The capacity agrees with the block while the buffer lives.\<close>

lemma add_task_outcome:
  assumes "task_buffer_inv b"
  shows "if int (length (task_buffer_items b)) = tb_capacity b then add_task_to_buffer b t = Some (-1, b)
    else \<exists>b'. add_task_to_buffer b t = Some (0, b') \<and> task_buffer_items b' = task_buffer_items b @ [t]"
  using add_task_full [OF assms] add_task_room [OF assms, of t] task_buffer_count [OF assms]
    task_buffer_bounds [OF assms] by auto

lemma get_task_outcome:
  assumes "task_buffer_inv b"
  shows "case task_buffer_items b of [] \<Rightarrow> get_task_from_buffer b = Some (-1, None, b)
    | t # ts \<Rightarrow> \<exists>b'. get_task_from_buffer b = Some (0, Some t, b') \<and> task_buffer_items b' = ts"
  using get_task_empty [OF assms] get_task_some [OF assms] task_buffer_count [OF assms]
  by (fastforce split: list.splits)

lemma add_result_outcome:
  assumes "result_queue_inv q"
  shows "if int (length (result_queue_items q)) = rq_capacity q then add_result_to_queue q t = Some (-1, q)
    else \<exists>q'. add_result_to_queue q t = Some (0, q') \<and> result_queue_items q' = result_queue_items q @ [t]"
  using add_result_full [OF assms] add_result_room [OF assms, of t] result_queue_count [OF assms]
    result_queue_bounds [OF assms] by auto

lemma get_result_outcome:
  assumes "result_queue_inv q"
  shows "case result_queue_items q of [] \<Rightarrow> get_result_from_queue q = Some (-1, None, q)
    | t # ts \<Rightarrow> \<exists>q'. get_result_from_queue q = Some (0, Some t, q') \<and> result_queue_items q' = ts"
  using get_result_empty [OF assms] get_result_some [OF assms] result_queue_count [OF assms]
  by (fastforce split: list.splits)

text \<open>C6: a task buffer set up with a positive capacity is a bounded FIFO queue: after any sequence
  of adds and gets the accepted tasks are those handed out followed by those stored, in order; the
  next add stores its task or, exactly when the buffer holds its capacity, returns -1 and changes
  nothing; the next get hands out the oldest task or returns -1; no call blocks on the mutex, or
  reads or writes outside the block.\<close>
theorem received_tasks_fifo:
  assumes "int (length cells) = capacity" and "0 < capacity"
    and "init_task_buffer (Some b) capacity (Live cells) = (r, Some b0)"
    and "fifo_run task_put task_get b0 calls = (ins, outs, fin)"
  shows "r = 0 \<and> ins = outs @ task_buffer_items fin \<and> int (length (task_buffer_items fin)) \<le> capacity \<and>
    (if int (length (task_buffer_items fin)) = capacity then add_task_to_buffer fin t = Some (-1, fin)
     else \<exists>b'. add_task_to_buffer fin t = Some (0, b') \<and> task_buffer_items b' = task_buffer_items fin @ [t]) \<and>
    (case task_buffer_items fin of [] \<Rightarrow> get_task_from_buffer fin = Some (-1, None, fin)
     | u # us \<Rightarrow> \<exists>b'. get_task_from_buffer fin = Some (0, Some u, b') \<and> task_buffer_items b' = us)"
proof -
  from init_task_buffer_inv [OF assms(1-3)]
  have i: "r = 0" "task_buffer_inv b0" "task_buffer_items b0 = []" "tb_capacity b0 = capacity" by auto
  from tbuf.fifo_history [OF i(2) assms(4)] i assms(2) task_buffer_bounds
  have f: "task_buffer_inv fin" "tb_capacity fin = capacity" "ins = outs @ task_buffer_items fin"
    by (auto, metis less_le nat_eq_iff2 nat_eq_iff order_le_less_trans zless_nat_conj)
  with i add_task_outcome [OF f(1), of t] get_task_outcome [OF f(1)] task_buffer_count [OF f(1)]
    task_buffer_bounds [OF f(1)] show ?thesis by simp
qed

definition demo_received :: "int \<Rightarrow> received_task_t" where
  "demo_received n = \<lparr>rt_task_id = zbuf 256 ''a'', rt_chunk_filename = zbuf 256 ''c'',
     rt_sender_id = zbuf 64 ''s'', rt_data = Null, rt_data_size = 0, rt_received_time = 0,
     rt_is_processed = False, rt_frame_no = n\<rparr>"

definition demo_buffer :: task_buffer_t where
  "demo_buffer = \<lparr>tb_tasks = Null, tb_capacity = 0, tb_head = 9, tb_tail = 9, tb_count = 9,
     tb_mutex = Uninit\<rparr>"

theorem received_tasks_fifo_witness:
  "\<exists>b0 outs fin. init_task_buffer (Some demo_buffer) 1 (Live [demo_received 0]) = (0, Some b0) \<and>
     fifo_run task_put task_get b0 [Put (demo_received 1), Put (demo_received 2), Get]
       = ([demo_received 1], outs, fin) \<and> outs @ task_buffer_items fin = [demo_received 1]"
proof -
  obtain b0 where b0: "init_task_buffer (Some demo_buffer) 1 (Live [demo_received 0]) = (0, Some b0)"
    by (auto simp: init_task_buffer_def)
  obtain ins outs fin where r: "fifo_run task_put task_get b0 [Put (demo_received 1), Put (demo_received 2), Get]
      = (ins, outs, fin)" by (rule prod_cases3)
  from received_tasks_fifo [OF _ _ b0 r, of "demo_received 3"]
  have "ins = outs @ task_buffer_items fin" by simp
  moreover have "ins = [demo_received 1]"
    using b0 r by (auto simp: init_task_buffer_def task_put_def task_get_def add_task_to_buffer_def
        get_task_from_buffer_def cell_set_def cell_get_def c_rem_def)
  ultimately show ?thesis using b0 r by auto
qed

text \<open>C7: the same promises for the queue of results that wait to be sent: accepted results come
  out in the order they went in, the queue never exceeds its capacity, a full queue refuses with -1
  and an empty one answers -1, both without a change.\<close>
theorem results_fifo:
  assumes "int (length cells) = capacity" and "0 < capacity"
    and "init_result_queue (Some q) capacity (Live cells) = (r, Some q0)"
    and "fifo_run result_put result_get q0 calls = (ins, outs, fin)"
  shows "r = 0 \<and> ins = outs @ result_queue_items fin \<and> int (length (result_queue_items fin)) \<le> capacity \<and>
    (if int (length (result_queue_items fin)) = capacity then add_result_to_queue fin t = Some (-1, fin)
     else \<exists>q'. add_result_to_queue fin t = Some (0, q') \<and> result_queue_items q' = result_queue_items fin @ [t]) \<and>
    (case result_queue_items fin of [] \<Rightarrow> get_result_from_queue fin = Some (-1, None, fin)
     | u # us \<Rightarrow> \<exists>q'. get_result_from_queue fin = Some (0, Some u, q') \<and> result_queue_items q' = us)"
proof -
  from init_result_queue_inv [OF assms(1-3)]
  have i: "r = 0" "result_queue_inv q0" "result_queue_items q0 = []" "rq_capacity q0 = capacity" by auto
  from rqueue.fifo_history [OF i(2) assms(4)] i assms(2) result_queue_bounds
  have f: "result_queue_inv fin" "rq_capacity fin = capacity" "ins = outs @ result_queue_items fin"
    by (auto, metis less_le nat_eq_iff2 nat_eq_iff order_le_less_trans zless_nat_conj)
  with i add_result_outcome [OF f(1), of t] get_result_outcome [OF f(1)] result_queue_count [OF f(1)]
    result_queue_bounds [OF f(1)] show ?thesis by simp
qed

definition demo_result :: "string \<Rightarrow> result_info_t" where
  "demo_result f = \<lparr>ri_task_id = zbuf 256 ''a'', ri_result_filepath = zbuf 256 f,
     ri_employer_ip = zbuf 16 ''1''\<rparr>"

definition demo_queue :: result_queue_t where
  "demo_queue = \<lparr>rq_results = Null, rq_capacity = 0, rq_head = 9, rq_tail = 9, rq_count = 9,
     rq_mutex = Uninit\<rparr>"

theorem results_fifo_witness:
  "\<exists>q0 outs fin. init_result_queue (Some demo_queue) 1 (Live [demo_result ''z'']) = (0, Some q0) \<and>
     fifo_run result_put result_get q0 [Put (demo_result ''x''), Get, Put (demo_result ''y'')]
       = ([demo_result ''x'', demo_result ''y''], outs, fin) \<and>
     outs @ result_queue_items fin = [demo_result ''x'', demo_result ''y'']"
proof -
  obtain q0 where q0: "init_result_queue (Some demo_queue) 1 (Live [demo_result ''z'']) = (0, Some q0)"
    by (auto simp: init_result_queue_def)
  obtain ins outs fin where r: "fifo_run result_put result_get q0
      [Put (demo_result ''x''), Get, Put (demo_result ''y'')] = (ins, outs, fin)" by (rule prod_cases3)
  from results_fifo [OF _ _ q0 r, of "demo_result ''w''"]
  have "ins = outs @ result_queue_items fin" by simp
  moreover have "ins = [demo_result ''x'', demo_result ''y'']"
    using q0 r by (auto simp: init_result_queue_def result_put_def result_get_def add_result_to_queue_def
        get_result_from_queue_def cell_set_def cell_get_def c_rem_def)
  ultimately show ?thesis using q0 r by auto
qed

end
