(* ===== verification/User_Scheduler.thy ===== *)
theory User_Scheduler
  imports Bounded_Fifo Volcom_CString
begin

text \<open>
  \<open>volcom_uscheduler/volcom_uscheduler.c\<close>: the blocking buffer of eight tasks. First the C
  functions as one thread runs them alone (a call that would wait for another thread is \<open>None\<close>),
  then the same statements as the steps of any number of threads over one mutex and the two
  condition variables, with the properties of every reachable state. Here \<open>tail\<close> is the cell to
  write and \<open>head\<close> the cell to read.
\<close>

section \<open>Data\<close>

text \<open>A C \<open>double\<close> that is only carried along is a type parameter.\<close>

record client_info_s =
  ci_ip_address :: "char list"
  ci_port :: int
  ci_client_name :: "char list"

record 'd task_info_s =
  ti_task_id :: int
  ti_task_name :: "char list"
  ti_priority :: int
  ti_memory_usage :: u64
  ti_cpu_usage :: 'd
  ti_status :: "char list"
  ti_client :: client_info_s

record 'd task_buffer =
  us_tasks :: "'d task_info_s list"
  us_head :: int
  us_tail :: int
  us_count :: int
  us_mutex :: mutex

definition MAX_TASKS :: int where
  "MAX_TASKS = 8"

section \<open>One thread alone\<close>

definition task_buffer_init :: "'d task_buffer \<Rightarrow> 'd task_buffer" where
  "task_buffer_init buf = buf\<lparr>us_head := 0, us_tail := 0, us_count := 0, us_mutex := Unlocked\<rparr>"

definition task_buffer_destroy :: "'d task_buffer \<Rightarrow> 'd task_buffer" where
  "task_buffer_destroy buf = buf\<lparr>us_mutex := Uninit\<rparr>"

text \<open>\<open>buf->tasks[buf->tail] = *task; buf->tail = (buf->tail + 1) % MAX_TASKS; buf->count++;\<close>
  and its counterpart for the head.\<close>

definition us_store :: "'d task_buffer \<Rightarrow> 'd task_info_s \<Rightarrow> 'd task_buffer option" where
  "us_store buf task = do {
     p \<leftarrow> cell_set (Live (us_tasks buf)) (us_tail buf) task;
     cells \<leftarrow> (case p of Live cells \<Rightarrow> Some cells | _ \<Rightarrow> None);
     tail \<leftarrow> c_rem (us_tail buf + 1) MAX_TASKS;
     Some (buf\<lparr>us_tasks := cells, us_tail := tail, us_count := us_count buf + 1\<rparr>)
   }"

definition us_fetch :: "'d task_buffer \<Rightarrow> ('d task_info_s \<times> 'd task_buffer) option" where
  "us_fetch buf = do {
     task \<leftarrow> cell_get (Live (us_tasks buf)) (us_head buf);
     head \<leftarrow> c_rem (us_head buf + 1) MAX_TASKS;
     Some (task, buf\<lparr>us_head := head, us_count := us_count buf - 1\<rparr>)
   }"

definition task_buffer_enqueue ::
    "'d task_buffer \<Rightarrow> 'd task_info_s \<Rightarrow> (bool \<times> 'd task_buffer) option" where
  "task_buffer_enqueue buf task = do {
     m \<leftarrow> mutex_lock (us_mutex buf);
     if us_count buf = MAX_TASKS then None
     else do {
       buf' \<leftarrow> us_store buf task;
       m \<leftarrow> mutex_unlock m;
       Some (True, buf'\<lparr>us_mutex := m\<rparr>)
     }
   }"

definition task_buffer_dequeue ::
    "'d task_buffer \<Rightarrow> (bool \<times> 'd task_info_s \<times> 'd task_buffer) option" where
  "task_buffer_dequeue buf = do {
     m \<leftarrow> mutex_lock (us_mutex buf);
     if us_count buf = 0 then None
     else do {
       (task, buf') \<leftarrow> us_fetch buf;
       m \<leftarrow> mutex_unlock m;
       Some (True, task, buf'\<lparr>us_mutex := m\<rparr>)
     }
   }"

definition task_buffer_size :: "'d task_buffer \<Rightarrow> (int \<times> 'd task_buffer) option" where
  "task_buffer_size buf = do {
     m \<leftarrow> mutex_lock (us_mutex buf);
     m \<leftarrow> mutex_unlock m;
     Some (us_count buf, buf\<lparr>us_mutex := m\<rparr>)
   }"

text \<open>What \<open>task_buffer_print\<close> lists: the number, the id, the name and the priority of each
  stored task, in queue order.\<close>

definition task_buffer_print ::
    "'d task_buffer \<Rightarrow> ((int \<times> int \<times> char list \<times> int) list \<times> 'd task_buffer) option" where
  "task_buffer_print buf = do {
     m \<leftarrow> mutex_lock (us_mutex buf);
     rows \<leftarrow> those (map (\<lambda>i. do {
        index \<leftarrow> c_rem (us_head buf + i) MAX_TASKS;
        t \<leftarrow> cell_get (Live (us_tasks buf)) index;
        Some (i + 1, ti_task_id t, ti_task_name t, ti_priority t)
      }) [0..us_count buf - 1]);
     m \<leftarrow> mutex_unlock m;
     Some (rows, buf\<lparr>us_mutex := m\<rparr>)
   }"

definition us_ring_ok :: "'d task_buffer \<Rightarrow> bool" where
  "us_ring_ok buf \<longleftrightarrow>
     ring_ok (Live (us_tasks buf)) MAX_TASKS (us_tail buf) (us_head buf) (us_count buf) Unlocked"

definition us_items :: "'d task_buffer \<Rightarrow> 'd task_info_s list" where
  "us_items buf = ring_list (Live (us_tasks buf)) (us_head buf) (us_count buf)"

definition us_inv :: "'d task_buffer \<Rightarrow> bool" where
  "us_inv buf \<longleftrightarrow> us_mutex buf = Unlocked \<and> us_ring_ok buf"

lemma us_init_inv:
  "length (us_tasks buf) = 8 \<Longrightarrow> us_inv (task_buffer_init buf) \<and> us_items (task_buffer_init buf) = []"
  by (simp add: us_inv_def us_ring_ok_def us_items_def task_buffer_init_def ring_ok_def ring_list_def
      MAX_TASKS_def)

lemma us_count_items: "us_ring_ok buf \<Longrightarrow> int (length (us_items buf)) = us_count buf"
  by (simp add: us_ring_ok_def us_items_def length_ring_list)

lemma us_count_bounds: "us_ring_ok buf \<Longrightarrow> 0 \<le> us_count buf \<and> us_count buf \<le> MAX_TASKS"
  by (auto simp: us_ring_ok_def elim: ring_okE)

lemma cell_set_Live_cases: "cell_set p i x = Some p' \<Longrightarrow> \<exists>cells. p' = Live cells"
  by (auto simp: cell_set_def split: ptr.splits if_splits)

lemma us_store_ok:
  assumes "us_ring_ok buf" and "us_count buf \<noteq> MAX_TASKS"
  shows "\<exists>buf'. us_store buf t = Some buf' \<and> us_ring_ok buf' \<and> us_items buf' = us_items buf @ [t] \<and>
     us_count buf' = us_count buf + 1 \<and> us_mutex buf' = us_mutex buf"
proof -
  have "us_count buf < MAX_TASKS" using assms us_count_bounds [of buf] by linarith
  from ring_store [OF assms(1) [unfolded us_ring_ok_def] this, of t] obtain p' where
    p': "cell_set (Live (us_tasks buf)) (us_tail buf) t = Some p'"
    and r: "c_rem (us_tail buf + 1) MAX_TASKS = Some ((us_tail buf + 1) mod MAX_TASKS)"
    "ring_ok p' MAX_TASKS ((us_tail buf + 1) mod MAX_TASKS) (us_head buf) (us_count buf + 1) Unlocked"
    "ring_list p' (us_head buf) (us_count buf + 1) = ring_list (Live (us_tasks buf)) (us_head buf) (us_count buf) @ [t]"
    by blast
  from cell_set_Live_cases [OF p'] obtain cells where "p' = Live cells" by blast
  with p' r show ?thesis by (simp add: us_store_def us_ring_ok_def us_items_def)
qed

lemma us_fetch_ok:
  assumes "us_ring_ok buf" and "us_count buf \<noteq> 0"
  shows "\<exists>t buf'. us_fetch buf = Some (t, buf') \<and> us_ring_ok buf' \<and> us_items buf = t # us_items buf' \<and>
     us_count buf' = us_count buf - 1 \<and> us_mutex buf' = us_mutex buf"
  using ring_fetch [OF assms(1) [unfolded us_ring_ok_def] assms(2)]
  by (auto simp: us_fetch_def us_ring_ok_def us_items_def)

text \<open>Run by one thread, the buffer is a bounded queue of eight tasks.\<close>

definition us_put :: "'d task_buffer \<Rightarrow> 'd task_info_s \<Rightarrow> 'd task_buffer option" where
  "us_put buf t = map_option snd (task_buffer_enqueue buf t)"

definition us_get :: "'d task_buffer \<Rightarrow> ('d task_info_s \<times> 'd task_buffer) option" where
  "us_get buf = map_option snd (task_buffer_dequeue buf)"

lemma us_ring_ok_mutex [simp]: "us_ring_ok (buf\<lparr>us_mutex := m\<rparr>) = us_ring_ok buf"
  and us_items_mutex [simp]: "us_items (buf\<lparr>us_mutex := m\<rparr>) = us_items buf"
  by (simp_all add: us_ring_ok_def us_items_def)

interpretation usched: bounded_fifo us_inv us_items "\<lambda>_. nat MAX_TASKS" us_put us_get
proof (unfold_locales, goal_cases)
  case (1 b)
  then show ?case using us_count_items [of b] us_count_bounds [of b] by (auto simp: us_inv_def)
next
  case (2 b t)
  then have "us_count b = MAX_TASKS" using us_count_items [of b] by (auto simp: us_inv_def MAX_TASKS_def)
  with 2 show ?case by (simp add: us_put_def task_buffer_enqueue_def us_inv_def)
next
  case (3 b t)
  then have "us_count b \<noteq> MAX_TASKS" using us_count_items [of b] by (auto simp: us_inv_def MAX_TASKS_def)
  with us_store_ok [of b t] 3 show ?case
    by (auto simp: us_put_def task_buffer_enqueue_def us_inv_def)
next
  case (4 b)
  then have "us_count b = 0" using us_count_items [of b] by (auto simp: us_inv_def)
  with 4 show ?case by (simp add: us_get_def task_buffer_dequeue_def us_inv_def)
next
  case (5 b t ts)
  then have "us_count b \<noteq> 0" using us_count_items [of b] by (auto simp: us_inv_def)
  with us_fetch_ok [of b] 5 show ?case
    by (auto simp: us_get_def task_buffer_dequeue_def us_inv_def)
qed

section \<open>The listing\<close>

lemma ring_list_nth:
  assumes "us_ring_ok buf" and "i < length (us_items buf)"
  shows "c_rem (us_head buf + int i) MAX_TASKS = Some ((us_head buf + int i) mod MAX_TASKS) \<and>
     cell_get (Live (us_tasks buf)) ((us_head buf + int i) mod MAX_TASKS) = Some (us_items buf ! i)"
  using assms(1) [unfolded us_ring_ok_def]
proof (rule ring_okE)
  fix cells
  assume f: "Live (us_tasks buf) = Live cells" "int (length cells) = MAX_TASKS" "0 < MAX_TASKS"
    "0 \<le> us_head buf" "us_head buf < MAX_TASKS"
  have "nat ((us_head buf + int i) mod MAX_TASKS) = (nat (us_head buf) + i) mod length cells"
    using f(2-5) by (simp add: nat_mod_distrib nat_add_distrib flip: f(2))
  moreover have "us_items buf ! i = cells ! ((nat (us_head buf) + i) mod length cells)"
    using assms(2) f(1) by (simp add: us_items_def ring_list_def ring_items_def)
  ultimately show ?thesis
    using f by (simp add: cell_get_def)
qed

lemma map_int_upt: "map int [0..<n] = [0..int n - 1]"
  by (induction n) (simp_all add: upto_rec2)

lemma those_map_Some: "(\<And>x. x \<in> set xs \<Longrightarrow> f x = Some (g x)) \<Longrightarrow> those (map f xs) = Some (map g xs)"
  by (induction xs) auto

text \<open>\<open>task_buffer_print\<close> lists exactly the stored tasks, numbered from 1 in the order in which
  they will be dequeued, reads no cell outside the array and leaves the buffer as it was.\<close>
theorem print_lists_queue:
  assumes "us_inv buf"
  shows "task_buffer_print buf =
    Some (map (\<lambda>i. (int i + 1, ti_task_id (us_items buf ! i), ti_task_name (us_items buf ! i),
                    ti_priority (us_items buf ! i))) [0..<length (us_items buf)], buf)"
proof -
  from assms have ok: "us_ring_ok buf" and m: "us_mutex buf = Unlocked" by (auto simp: us_inv_def)
  let ?row = "\<lambda>i. do {
        index \<leftarrow> c_rem (us_head buf + i) MAX_TASKS;
        t \<leftarrow> cell_get (Live (us_tasks buf)) index;
        Some (i + 1, ti_task_id t, ti_task_name t, ti_priority t)
      }"
  have "[0..us_count buf - 1] = map int [0..<length (us_items buf)]"
    using us_count_items [OF ok] by (simp add: map_int_upt)
  then have "those (map ?row [0..us_count buf - 1])
    = Some (map (\<lambda>i. (int i + 1, ti_task_id (us_items buf ! i), ti_task_name (us_items buf ! i),
                    ti_priority (us_items buf ! i))) [0..<length (us_items buf)])"
    using ring_list_nth [OF ok] by (simp add: o_def) (intro those_map_Some, simp)
  then show ?thesis using m by (simp add: task_buffer_print_def)
qed

definition demo_us_task :: "int \<Rightarrow> int task_info_s" where
  "demo_us_task n = \<lparr>ti_task_id = n, ti_task_name = zbuf 4 ''t'', ti_priority = 5, ti_memory_usage = 0,
     ti_cpu_usage = 0, ti_status = zbuf 4 ''s'',
     ti_client = \<lparr>ci_ip_address = [], ci_port = 0, ci_client_name = []\<rparr>\<rparr>"

text \<open>Two tasks across the end of the array.\<close>

definition demo_us :: "int task_buffer" where
  "demo_us = \<lparr>us_tasks = map demo_us_task [20, 21, 22, 23, 24, 25, 26, 27], us_head = 7, us_tail = 1,
     us_count = 2, us_mutex = Unlocked\<rparr>"

lemma demo_us_inv: "us_inv demo_us"
  by (simp add: us_inv_def us_ring_ok_def ring_ok_def demo_us_def MAX_TASKS_def)

theorem print_lists_queue_witness:
  "map_option (map (\<lambda>(i, tid, _). (i, tid)) \<circ> fst) (task_buffer_print demo_us) = Some [(1, 27), (2, 20)]"
  unfolding print_lists_queue [OF demo_us_inv]
  by (simp add: us_items_def ring_list_def ring_items_def demo_us_def demo_us_task_def upt_rec)

end
