(* ===== verification/Step_System.thy ===== *)
theory Step_System
  imports Main
begin

text \<open>
  Step relations: an invariant that every step keeps holds along every run, and when every step also
  makes a number smaller, runs are bounded and each can be continued until nothing moves any more.
\<close>

locale kept_by_steps =
  fixes step :: "'s \<Rightarrow> 's \<Rightarrow> bool" and inv :: "'s \<Rightarrow> bool"
  assumes keeps: "inv s \<Longrightarrow> step s t \<Longrightarrow> inv t"
begin

lemma run_keeps: "step\<^sup>*\<^sup>* s t \<Longrightarrow> inv s \<Longrightarrow> inv t"
  by (induction rule: rtranclp_induct) (auto intro: keeps)

lemma steps_keep: "(step ^^ n) s t \<Longrightarrow> inv s \<Longrightarrow> inv t"
  using run_keeps relpowp_imp_rtranclp by metis

end

locale ending_steps = kept_by_steps +
  fixes weight :: "'a \<Rightarrow> nat"
  assumes lighter: "inv s \<Longrightarrow> step s t \<Longrightarrow> weight t < weight s"
begin

lemma steps_bounded: "(step ^^ n) s t \<Longrightarrow> inv s \<Longrightarrow> n + weight t \<le> weight s"
proof (induction n arbitrary: t)
  case 0
  then show ?case by simp
next
  case (Suc n)
  then obtain u where u: "(step ^^ n) s u" "step u t" by auto
  from Suc.IH [OF u(1) Suc.prems(2)] lighter [OF steps_keep [OF u(1) Suc.prems(2)] u(2)] show ?case by simp
qed

lemma run_stops: "inv s \<Longrightarrow> \<exists>t. step\<^sup>*\<^sup>* s t \<and> inv t \<and> (\<nexists>u. step t u)"
proof (induction "weight s" arbitrary: s rule: less_induct)
  case less
  show ?case
  proof (cases "\<exists>t. step s t")
    case False
    with less.prems show ?thesis by blast
  next
    case True
    then obtain t where t: "step s t" by blast
    from less.hyps [OF lighter [OF less.prems t] keeps [OF less.prems t]] t show ?thesis
      by (meson converse_rtranclp_into_rtranclp)
  qed
qed

end

end
