(* ===== verification/User_Scheduler_Threads.thy ===== *)
theory User_Scheduler_Threads
  imports User_Scheduler Step_System
begin

text \<open>
  The functions of \<open>volcom_uscheduler.c\<close> called by \<open>N\<close> threads at once. A step is one thread
  executing one statement: taking the mutex, the test of the \<open>while\<close>, going to sleep in
  \<open>pthread_cond_wait\<close> (which releases the mutex), waking up, the body, the signal, the unlock.
  Which thread moves is not determined; a signal wakes at least one sleeper when there is one, and
  a sleeper may also wake for no reason, as POSIX allows. Two history lists record what was stored
  and what was handed out, in order.
\<close>

section \<open>Steps\<close>

datatype 'd us_pc =
    Idle
  | EnqEnter "'d task_info_s" | EnqTest "'d task_info_s" | EnqWait "'d task_info_s"
  | EnqBack "'d task_info_s" | EnqSignal | EnqUnlock
  | DeqEnter | DeqTest | DeqWait | DeqBack | DeqSignal "'d task_info_s" | DeqUnlock "'d task_info_s"
  | SizeEnter | SizeHold

record 'd us_sys =
  us_buf :: "'d task_buffer"
  us_holder :: "nat option"
  us_pc :: "nat \<Rightarrow> 'd us_pc"
  us_in :: "'d task_info_s list"
  us_out :: "'d task_info_s list"

abbreviation goto :: "'d us_sys \<Rightarrow> nat \<Rightarrow> 'd us_pc \<Rightarrow> 'd us_sys" where
  "goto s i p \<equiv> s\<lparr>us_pc := (us_pc s)(i := p)\<rparr>"

definition wake :: "nat set \<Rightarrow> ('d us_pc \<Rightarrow> 'd us_pc) \<Rightarrow> (nat \<Rightarrow> 'd us_pc) \<Rightarrow> nat \<Rightarrow> 'd us_pc" where
  "wake S f pcs = (\<lambda>j. if j \<in> S then f (pcs j) else pcs j)"

fun woken :: "'d us_pc \<Rightarrow> 'd us_pc" where
  "woken (EnqWait t) = EnqBack t"
| "woken DeqWait = DeqBack"
| "woken p = p"

fun waits_not_full :: "'d us_pc \<Rightarrow> bool" where
  "waits_not_full (EnqWait _) = True"
| "waits_not_full _ = False"

fun waits_not_empty :: "'d us_pc \<Rightarrow> bool" where
  "waits_not_empty DeqWait = True"
| "waits_not_empty _ = False"

text \<open>\<open>S\<close> is a set of threads that a signal to the sleepers \<open>w\<close> may wake.\<close>

definition may_wake :: "nat \<Rightarrow> ('d us_pc \<Rightarrow> bool) \<Rightarrow> (nat \<Rightarrow> 'd us_pc) \<Rightarrow> nat set \<Rightarrow> bool" where
  "may_wake N w pcs S \<longleftrightarrow> S \<subseteq> {j. j < N \<and> w (pcs j)} \<and> ((\<exists>j < N. w (pcs j)) \<longrightarrow> S \<noteq> {})"

inductive us_step :: "nat \<Rightarrow> nat \<Rightarrow> 'd us_sys \<Rightarrow> 'd us_sys \<Rightarrow> bool" for N :: nat and i :: nat where
  call_enqueue: "i < N \<Longrightarrow> us_pc s i = Idle \<Longrightarrow> us_step N i s (goto s i (EnqEnter t))"
| call_dequeue: "i < N \<Longrightarrow> us_pc s i = Idle \<Longrightarrow> us_step N i s (goto s i DeqEnter)"
| call_size: "i < N \<Longrightarrow> us_pc s i = Idle \<Longrightarrow> us_step N i s (goto s i SizeEnter)"
| enq_lock: "i < N \<Longrightarrow> us_pc s i = EnqEnter t \<or> us_pc s i = EnqBack t \<Longrightarrow> us_holder s = None \<Longrightarrow>
    us_step N i s ((goto s i (EnqTest t))\<lparr>us_holder := Some i\<rparr>)"
| enq_wait: "i < N \<Longrightarrow> us_pc s i = EnqTest t \<Longrightarrow> us_count (us_buf s) = MAX_TASKS \<Longrightarrow>
    us_step N i s ((goto s i (EnqWait t))\<lparr>us_holder := None\<rparr>)"
| enq_store: "i < N \<Longrightarrow> us_pc s i = EnqTest t \<Longrightarrow> us_count (us_buf s) \<noteq> MAX_TASKS \<Longrightarrow>
    us_store (us_buf s) t = Some buf' \<Longrightarrow>
    us_step N i s ((goto s i EnqSignal)\<lparr>us_buf := buf', us_in := us_in s @ [t]\<rparr>)"
| enq_signal: "i < N \<Longrightarrow> us_pc s i = EnqSignal \<Longrightarrow> may_wake N waits_not_empty (us_pc s) S \<Longrightarrow>
    us_step N i s (s\<lparr>us_pc := (wake S woken (us_pc s))(i := EnqUnlock)\<rparr>)"
| enq_unlock: "i < N \<Longrightarrow> us_pc s i = EnqUnlock \<Longrightarrow>
    us_step N i s ((goto s i Idle)\<lparr>us_holder := None\<rparr>)"
| deq_lock: "i < N \<Longrightarrow> us_pc s i = DeqEnter \<or> us_pc s i = DeqBack \<Longrightarrow> us_holder s = None \<Longrightarrow>
    us_step N i s ((goto s i DeqTest)\<lparr>us_holder := Some i\<rparr>)"
| deq_wait: "i < N \<Longrightarrow> us_pc s i = DeqTest \<Longrightarrow> us_count (us_buf s) = 0 \<Longrightarrow>
    us_step N i s ((goto s i DeqWait)\<lparr>us_holder := None\<rparr>)"
| deq_fetch: "i < N \<Longrightarrow> us_pc s i = DeqTest \<Longrightarrow> us_count (us_buf s) \<noteq> 0 \<Longrightarrow>
    us_fetch (us_buf s) = Some (t, buf') \<Longrightarrow>
    us_step N i s ((goto s i (DeqSignal t))\<lparr>us_buf := buf', us_out := us_out s @ [t]\<rparr>)"
| deq_signal: "i < N \<Longrightarrow> us_pc s i = DeqSignal t \<Longrightarrow> may_wake N waits_not_full (us_pc s) S \<Longrightarrow>
    us_step N i s (s\<lparr>us_pc := (wake S woken (us_pc s))(i := DeqUnlock t)\<rparr>)"
| deq_unlock: "i < N \<Longrightarrow> us_pc s i = DeqUnlock t \<Longrightarrow>
    us_step N i s ((goto s i Idle)\<lparr>us_holder := None\<rparr>)"
| spurious: "i < N \<Longrightarrow> waits_not_full (us_pc s i) \<or> waits_not_empty (us_pc s i) \<Longrightarrow>
    us_step N i s (goto s i (woken (us_pc s i)))"
| size_lock: "i < N \<Longrightarrow> us_pc s i = SizeEnter \<Longrightarrow> us_holder s = None \<Longrightarrow>
    us_step N i s ((goto s i SizeHold)\<lparr>us_holder := Some i\<rparr>)"
| size_unlock: "i < N \<Longrightarrow> us_pc s i = SizeHold \<Longrightarrow>
    us_step N i s ((goto s i Idle)\<lparr>us_holder := None\<rparr>)"

text \<open>The start: a buffer that \<open>task_buffer_init\<close> has set up, no thread inside a call.\<close>

definition us_start :: "'d task_buffer \<Rightarrow> 'd us_sys" where
  "us_start buf = \<lparr>us_buf = task_buffer_init buf, us_holder = None, us_pc = (\<lambda>_. Idle),
                   us_in = [], us_out = []\<rparr>"

inductive us_reachable :: "nat \<Rightarrow> 'd us_sys \<Rightarrow> bool" for N :: nat where
  start: "length (us_tasks buf) = 8 \<Longrightarrow> us_reachable N (us_start buf)"
| step: "us_reachable N s \<Longrightarrow> us_step N i s s' \<Longrightarrow> us_reachable N s'"

section \<open>Mutual exclusion, FIFO order\<close>

fun in_crit :: "'d us_pc \<Rightarrow> bool" where
  "in_crit (EnqTest _) = True"
| "in_crit EnqSignal = True"
| "in_crit EnqUnlock = True"
| "in_crit DeqTest = True"
| "in_crit (DeqSignal _) = True"
| "in_crit (DeqUnlock _) = True"
| "in_crit SizeHold = True"
| "in_crit _ = False"

definition mutex_ok :: "(nat \<Rightarrow> 'd us_pc) \<Rightarrow> nat option \<Rightarrow> bool" where
  "mutex_ok pcs h \<longleftrightarrow> (\<forall>i. in_crit (pcs i) \<longleftrightarrow> h = Some i)"

definition mutex_inv :: "'d us_sys \<Rightarrow> bool" where
  "mutex_inv s \<longleftrightarrow> mutex_ok (us_pc s) (us_holder s)"

definition fifo_inv :: "'d us_sys \<Rightarrow> bool" where
  "fifo_inv s \<longleftrightarrow> us_ring_ok (us_buf s) \<and> us_in s = us_out s @ us_items (us_buf s)"

lemma in_crit_back [simp]: "in_crit (woken p) \<longleftrightarrow> in_crit p"
  by (cases p) auto

lemma in_crit_wake [simp]: "in_crit (wake S woken pcs j) \<longleftrightarrow> in_crit (pcs j)"
  by (simp add: wake_def)

lemma waits_not_in_crit: "waits_not_full p \<or> waits_not_empty p \<Longrightarrow> \<not> in_crit p"
  by (cases p) auto

lemma mutex_ok_same: "mutex_ok pcs h \<Longrightarrow> in_crit p = in_crit (pcs i) \<Longrightarrow> mutex_ok (pcs(i := p)) h"
  by (auto simp: mutex_ok_def)

lemma mutex_ok_acquire: "mutex_ok pcs None \<Longrightarrow> in_crit p \<Longrightarrow> mutex_ok (pcs(i := p)) (Some i)"
  by (auto simp: mutex_ok_def)

lemma mutex_ok_release:
  "mutex_ok pcs h \<Longrightarrow> in_crit (pcs i) \<Longrightarrow> \<not> in_crit p \<Longrightarrow> mutex_ok (pcs(i := p)) None"
  by (fastforce simp: mutex_ok_def)

lemma mutex_ok_wake: "mutex_ok pcs h \<Longrightarrow> mutex_ok (wake S woken pcs) h"
  by (simp add: mutex_ok_def)

lemmas mutex_ok_intros = mutex_ok_same mutex_ok_acquire mutex_ok_release mutex_ok_wake

lemma mutex_inv_step: "us_step N i s s' \<Longrightarrow> mutex_inv s \<Longrightarrow> mutex_inv s'"
  by (induction rule: us_step.induct)
    (auto simp: mutex_inv_def dest: waits_not_in_crit intro: mutex_ok_intros)

lemma fifo_inv_step: "us_step N i s s' \<Longrightarrow> fifo_inv s \<Longrightarrow> fifo_inv s'"
proof (induction rule: us_step.induct)
  case (enq_store s t buf')
  with us_store_ok [of "us_buf s" t] show ?case by (auto simp: fifo_inv_def)
next
  case (deq_fetch s t buf')
  with us_fetch_ok [of "us_buf s"] show ?case by (auto simp: fifo_inv_def)
qed (auto simp: fifo_inv_def)

section \<open>No wake-up is lost\<close>

text \<open>
  A consumer that sleeps while tasks are stored is no deadlock as long as somebody is on the way to
  deal with each of them: a consumer that was woken, one that is testing the counter, or a producer
  that has stored and will signal. \<open>load w\<close> counts those threads; the invariant says there are
  enough of them whenever a consumer sleeps, and the same for producers and free cells.
\<close>

definition load :: "nat \<Rightarrow> ('d us_pc \<Rightarrow> int) \<Rightarrow> (nat \<Rightarrow> 'd us_pc) \<Rightarrow> int" where
  "load N w pcs = (\<Sum>i<N. w (pcs i))"

fun for_consumers :: "'d us_pc \<Rightarrow> int" where
  "for_consumers DeqBack = 1"
| "for_consumers DeqTest = 1"
| "for_consumers EnqSignal = 1"
| "for_consumers _ = 0"

fun for_producers :: "'d us_pc \<Rightarrow> int" where
  "for_producers (EnqBack _) = 1"
| "for_producers (EnqTest _) = 1"
| "for_producers (DeqSignal _) = 1"
| "for_producers _ = 0"

definition enough :: "nat \<Rightarrow> ('d us_pc \<Rightarrow> bool) \<Rightarrow> ('d us_pc \<Rightarrow> int) \<Rightarrow> int \<Rightarrow> (nat \<Rightarrow> 'd us_pc) \<Rightarrow> bool" where
  "enough N waits w c pcs \<longleftrightarrow> ((\<exists>i < N. waits (pcs i)) \<longrightarrow> c \<le> load N w pcs)"

definition wakeup_inv :: "nat \<Rightarrow> 'd us_sys \<Rightarrow> bool" where
  "wakeup_inv N s \<longleftrightarrow>
     enough N waits_not_empty for_consumers (us_count (us_buf s)) (us_pc s) \<and>
     enough N waits_not_full for_producers (MAX_TASKS - us_count (us_buf s)) (us_pc s)"

lemma load_upd: "i < N \<Longrightarrow> load N w (pcs(i := p)) = load N w pcs - w (pcs i) + w p"
proof -
  assume i: "i < N"
  then have "{..<N} = insert i ({..<N} - {i})" by auto
  then have "load N w f = w (f i) + (\<Sum>j\<in>{..<N} - {i}. w (f j))" for f
    unfolding load_def by (metis finite_Diff finite_lessThan insert_Diff_single sum.insert Diff_iff singletonI)
  from this [of pcs] this [of "pcs(i := p)"] show ?thesis by simp
qed

lemma load_wake_same: "(\<And>j. w (woken (pcs j)) = w (pcs j)) \<Longrightarrow> load N w (wake S woken pcs) = load N w pcs"
  by (simp add: load_def wake_def if_distrib cong: if_cong)

lemma load_wake_more:
  assumes "k \<in> S" and "k < N" and "w (woken (pcs k)) = w (pcs k) + 1"
    and "\<And>j. w (pcs j) \<le> w (woken (pcs j))"
  shows "load N w pcs + 1 \<le> load N w (wake S woken pcs)"
proof -
  have "load N w pcs + 1 = load N w (pcs(k := woken (pcs k)))"
    using assms(2,3) by (simp add: load_upd)
  also have "\<dots> \<le> load N w (wake S woken pcs)"
    unfolding load_def by (rule sum_mono) (use assms(1,4) in \<open>auto simp: wake_def\<close>)
  finally show ?thesis .
qed

lemma for_consumers_woken: "for_consumers p \<le> for_consumers (woken p)"
  and for_producers_woken: "for_producers p \<le> for_producers (woken p)"
  by (cases p; simp)+

lemma for_consumers_nonneg: "0 \<le> for_consumers p"
  and for_producers_nonneg: "0 \<le> for_producers p"
  by (cases p; simp)+

lemma load_nonneg: "0 \<le> load N for_consumers pcs" "0 \<le> load N for_producers pcs"
  by (auto simp: load_def for_consumers_nonneg for_producers_nonneg intro!: sum_nonneg)

lemma woken_waits [simp]: "\<not> waits_not_empty (woken p)" "\<not> waits_not_full (woken p)"
  by (cases p; simp)+

lemma enough_upd:
  assumes "enough N waits w c pcs" and "i < N" and "\<not> waits p" and "c' - c \<le> w p - w (pcs i)"
  shows "enough N waits w c' (pcs(i := p))"
proof (unfold enough_def, intro impI)
  assume "\<exists>j < N. waits ((pcs(i := p)) j)"
  with assms(3) have "\<exists>j < N. waits (pcs j)" by (metis fun_upd_apply)
  with assms(1,2,4) show "c' \<le> load N w (pcs(i := p))" by (auto simp: enough_def load_upd)
qed

lemma enough_none: "c \<le> 0 \<Longrightarrow> enough N waits for_consumers c pcs"
  and enough_none': "c \<le> 0 \<Longrightarrow> enough N waits for_producers c pcs"
  using load_nonneg [of N pcs] by (auto simp: enough_def)

lemma load_wake_mono: "(\<And>p. w p \<le> w (woken p)) \<Longrightarrow> load N w pcs \<le> load N w (wake S woken pcs)"
  unfolding load_def by (rule sum_mono) (simp add: wake_def)

lemma enough_wake:
  assumes "enough N waits w c pcs" and "\<And>p. w p \<le> w (woken p)" and "\<And>p. \<not> waits (woken p)"
  shows "enough N waits w c (wake S woken pcs)"
proof (unfold enough_def, intro impI)
  assume "\<exists>j < N. waits (wake S woken pcs j)"
  with assms(3) have "\<exists>j < N. waits (pcs j)" by (auto simp: wake_def split: if_splits)
  with assms(1) load_wake_mono [of w N pcs S] assms(2)
  show "c \<le> load N w (wake S woken pcs)" by (auto simp: enough_def intro: order_trans)
qed

lemma enough_signal:
  assumes e: "enough N waits w c pcs" and i: "i < N" and S: "may_wake N waits pcs S"
    and p: "\<not> waits p" "\<not> waits (pcs i)" "w (pcs i) = 1" "w p = 0"
    and w: "\<And>q. waits q \<Longrightarrow> w (woken q) = w q + 1" "\<And>q. w q \<le> w (woken q)" "\<And>q. \<not> waits (woken q)"
  shows "enough N waits w c ((wake S woken pcs)(i := p))"
proof (unfold enough_def, intro impI)
  assume "\<exists>j < N. waits (((wake S woken pcs)(i := p)) j)"
  then obtain j where "j < N" "waits (pcs j)"
    using p(1) w(3) by (auto simp: wake_def split: if_splits)
  with S obtain k where k: "k \<in> S" "k < N" "waits (pcs k)"
    by (fastforce simp: may_wake_def)
  have iS: "i \<notin> S" using S p(2) by (auto simp: may_wake_def)
  have "c \<le> load N w pcs" using e \<open>j < N\<close> \<open>waits (pcs j)\<close> by (auto simp: enough_def)
  also have "\<dots> \<le> load N w (wake S woken pcs) - 1"
    using load_wake_more [where pcs = pcs and w = w, OF k(1,2)] w k(3) by simp
  also have "\<dots> = load N w ((wake S woken pcs)(i := p))"
    using i iS p by (simp add: load_upd wake_def)
  finally show "c \<le> load N w ((wake S woken pcs)(i := p))" .
qed

lemma woken_consumer: "waits_not_empty q \<Longrightarrow> for_consumers (woken q) = for_consumers q + 1"
  and woken_producer: "waits_not_full q \<Longrightarrow> for_producers (woken q) = for_producers q + 1"
  by (cases q; simp)+

lemma wakeup_goto:
  assumes "wakeup_inv N s" and "i < N" and "\<not> waits_not_empty p" and "\<not> waits_not_full p"
    and "c - us_count (us_buf s) \<le> for_consumers p - for_consumers (us_pc s i)"
    and "us_count (us_buf s) - c \<le> for_producers p - for_producers (us_pc s i)"
  shows "enough N waits_not_empty for_consumers c ((us_pc s)(i := p)) \<and>
         enough N waits_not_full for_producers (MAX_TASKS - c) ((us_pc s)(i := p))"
  using assms by (auto simp: wakeup_inv_def intro: enough_upd)

lemma wake_i: "may_wake N waits pcs S \<Longrightarrow> \<not> waits (pcs i) \<Longrightarrow> wake S woken pcs i = pcs i"
  by (auto simp: may_wake_def wake_def)

lemma wakeup_inv_step:
  "us_step N i s s' \<Longrightarrow> us_ring_ok (us_buf s) \<Longrightarrow> wakeup_inv N s \<Longrightarrow> wakeup_inv N s'"
proof (induction rule: us_step.induct)
  case (enq_store s t buf')
  then have "us_count buf' = us_count (us_buf s) + 1" using us_store_ok [of "us_buf s" t] by auto
  with enq_store wakeup_goto [of N s i EnqSignal "us_count buf'"] show ?case
    by (simp add: wakeup_inv_def)
next
  case (deq_fetch s t buf')
  then have "us_count buf' = us_count (us_buf s) - 1" using us_fetch_ok [of "us_buf s"] by auto
  with deq_fetch wakeup_goto [of N s i "DeqSignal t" "us_count buf'"] show ?case
    by (simp add: wakeup_inv_def)
next
  case (enq_wait s t)
  then show ?case by (auto simp: wakeup_inv_def intro: enough_none' enough_upd)
next
  case (deq_wait s)
  then show ?case by (auto simp: wakeup_inv_def intro: enough_none enough_upd)
next
  case (enq_signal s S)
  have "enough N waits_not_empty for_consumers (us_count (us_buf s)) ((wake S woken (us_pc s))(i := EnqUnlock))"
    using enq_signal
    by (intro enough_signal) (auto simp: wakeup_inv_def woken_consumer for_consumers_woken)
  moreover have "enough N waits_not_full for_producers (MAX_TASKS - us_count (us_buf s))
      ((wake S woken (us_pc s))(i := EnqUnlock))"
    using enq_signal
    by (intro enough_upd [OF enough_wake]) (auto simp: wakeup_inv_def for_producers_woken wake_i)
  ultimately show ?case by (simp add: wakeup_inv_def)
next
  case (deq_signal s t S)
  have "enough N waits_not_full for_producers (MAX_TASKS - us_count (us_buf s))
      ((wake S woken (us_pc s))(i := DeqUnlock t))"
    using deq_signal
    by (intro enough_signal) (auto simp: wakeup_inv_def woken_producer for_producers_woken)
  moreover have "enough N waits_not_empty for_consumers (us_count (us_buf s))
      ((wake S woken (us_pc s))(i := DeqUnlock t))"
    using deq_signal
    by (intro enough_upd [OF enough_wake]) (auto simp: wakeup_inv_def for_consumers_woken wake_i)
  ultimately show ?case by (simp add: wakeup_inv_def)
next
  case (spurious s)
  then show ?case
    by (auto simp: wakeup_inv_def for_consumers_woken for_producers_woken intro!: enough_upd)
qed (auto simp: wakeup_inv_def intro!: enough_upd)

section \<open>Every reachable state\<close>

lemma us_start_inv:
  assumes "length (us_tasks buf) = 8"
  shows "mutex_inv (us_start buf) \<and> fifo_inv (us_start buf) \<and> wakeup_inv N (us_start buf)"
  using us_init_inv [OF assms]
  by (auto simp: us_start_def mutex_inv_def mutex_ok_def fifo_inv_def us_inv_def wakeup_inv_def enough_def)

text \<open>A move of any thread, and what every move keeps.\<close>

definition us_moves :: "nat \<Rightarrow> 'd us_sys \<Rightarrow> 'd us_sys \<Rightarrow> bool" where
  "us_moves N s s' \<longleftrightarrow> (\<exists>i. us_step N i s s')"

definition us_sys_inv :: "nat \<Rightarrow> 'd us_sys \<Rightarrow> bool" where
  "us_sys_inv N s \<longleftrightarrow> mutex_inv s \<and> fifo_inv s \<and> wakeup_inv N s \<and> (\<forall>i \<ge> N. us_pc s i = Idle)"

lemma us_step_idle: "us_step N i s s' \<Longrightarrow> \<forall>j \<ge> N. us_pc s j = Idle \<Longrightarrow> \<forall>j \<ge> N. us_pc s' j = Idle"
  by (induction rule: us_step.induct) (auto simp: wake_def may_wake_def)

interpretation us: kept_by_steps "us_moves N" "us_sys_inv N" for N
proof
  fix s s' :: "'a us_sys"
  assume inv: "us_sys_inv N s" and "us_moves N s s'"
  then obtain i where i: "us_step N i s s'" by (auto simp: us_moves_def)
  from inv mutex_inv_step [OF i] fifo_inv_step [OF i] wakeup_inv_step [OF i] us_step_idle [OF i]
  show "us_sys_inv N s'" by (simp add: us_sys_inv_def fifo_inv_def)
qed

lemma us_reachable_run:
  "us_reachable N s \<Longrightarrow> \<exists>buf. length (us_tasks buf) = 8 \<and> (us_moves N)\<^sup>*\<^sup>* (us_start buf) s"
proof (induction rule: us_reachable.induct)
  case (step s i s')
  then show ?case by (meson us_moves_def rtranclp.rtrancl_into_rtrancl)
qed blast

lemma us_reachable_sys_inv: "us_reachable N s \<Longrightarrow> us_sys_inv N s"
proof -
  assume "us_reachable N s"
  then obtain buf where b: "length (us_tasks buf) = 8" "(us_moves N)\<^sup>*\<^sup>* (us_start buf) s"
    using us_reachable_run by blast
  have "us_sys_inv N (us_start buf)"
    using us_start_inv [OF b(1), of N] by (simp add: us_sys_inv_def) (simp add: us_start_def)
  with b(2) show ?thesis by (rule us.run_keeps)
qed

lemma us_reachable_inv: "us_reachable N s \<Longrightarrow> mutex_inv s \<and> fifo_inv s \<and> wakeup_inv N s"
  and us_others_idle: "us_reachable N s \<Longrightarrow> N \<le> i \<Longrightarrow> us_pc s i = Idle"
  using us_reachable_sys_inv [of N s] by (simp_all add: us_sys_inv_def)

text \<open>The thread that is at the test, the body, the signal or the unlock can move, whatever the
  others do.\<close>

lemma us_holder_moves:
  assumes "us_ring_ok (us_buf s)" and "in_crit (us_pc s i)" and "i < N"
  shows "\<exists>s'. us_step N i s s'"
proof (cases "us_pc s i")
  case (EnqTest t)
  with assms us_store_ok [of "us_buf s" t] show ?thesis
    by (cases "us_count (us_buf s) = MAX_TASKS") (blast intro: us_step.enq_wait us_step.enq_store)+
next
  case DeqTest
  with assms us_fetch_ok [of "us_buf s"] show ?thesis
    by (cases "us_count (us_buf s) = 0") (blast intro: us_step.deq_wait us_step.deq_fetch)+
next
  case EnqSignal
  have "may_wake N waits_not_empty (us_pc s) {j. j < N \<and> waits_not_empty (us_pc s j)}"
    by (auto simp: may_wake_def)
  with EnqSignal assms(3) show ?thesis by (blast intro: us_step.enq_signal)
next
  case (DeqSignal t)
  have "may_wake N waits_not_full (us_pc s) {j. j < N \<and> waits_not_full (us_pc s j)}"
    by (auto simp: may_wake_def)
  with DeqSignal assms(3) show ?thesis by (blast intro: us_step.deq_signal)
qed (use assms in \<open>auto intro: us_step.intros\<close>)

text \<open>A thread inside a call that is not asleep: it wants the mutex or has it.\<close>

definition awake :: "'d us_pc \<Rightarrow> bool" where
  "awake p \<longleftrightarrow> p \<noteq> Idle \<and> \<not> waits_not_full p \<and> \<not> waits_not_empty p"

lemma us_entering_moves:
  assumes "us_holder s = None" and "awake (us_pc s i)" and "\<not> in_crit (us_pc s i)" and "i < N"
  shows "\<exists>s'. us_step N i s s'"
  using assms by (cases "us_pc s i") (auto simp: awake_def intro: us_step.intros)

lemma us_awake_progress:
  assumes "us_reachable N s" and "i < N" and "awake (us_pc s i)"
  shows "\<exists>j < N. awake (us_pc s j) \<and> (\<exists>s'. us_step N j s s')"
proof (cases "us_holder s")
  case None
  with assms us_reachable_inv [OF assms(1)] have "\<not> in_crit (us_pc s i)"
    by (auto simp: mutex_inv_def mutex_ok_def)
  with us_entering_moves [OF None assms(3) _ assms(2)] assms show ?thesis by blast
next
  case (Some j)
  with us_reachable_inv [OF assms(1)] have j: "in_crit (us_pc s j)" and ok: "us_ring_ok (us_buf s)"
    by (auto simp: mutex_inv_def mutex_ok_def fifo_inv_def)
  then have "us_pc s j \<noteq> Idle" by auto
  with us_others_idle [OF assms(1)] have "j < N" by (metis leI)
  moreover have "awake (us_pc s j)" using j by (cases "us_pc s j") (auto simp: awake_def)
  ultimately show ?thesis using us_holder_moves [OF ok j] by blast
qed

lemma load_zero: "(\<And>i. i < N \<Longrightarrow> w (pcs i) = 0) \<Longrightarrow> load N w pcs = 0"
  by (simp add: load_def)

lemma asleep_weights: "\<not> awake p \<Longrightarrow> for_consumers p = 0 \<and> for_producers p = 0"
  by (cases p) (auto simp: awake_def)

lemma us_all_asleep:
  assumes "us_reachable N s" and "\<And>i. i < N \<Longrightarrow> \<not> awake (us_pc s i)"
  shows "(\<exists>i < N. waits_not_empty (us_pc s i)) \<Longrightarrow> us_count (us_buf s) = 0"
    and "(\<exists>i < N. waits_not_full (us_pc s i)) \<Longrightarrow> us_count (us_buf s) = MAX_TASKS"
proof -
  from us_reachable_inv [OF assms(1)] have w: "wakeup_inv N s" and ok: "us_ring_ok (us_buf s)"
    by (auto simp: fifo_inv_def)
  have z: "load N for_consumers (us_pc s) = 0" "load N for_producers (us_pc s) = 0"
    using assms(2) asleep_weights by (auto intro!: load_zero)
  from us_count_bounds [OF ok] have b: "0 \<le> us_count (us_buf s)" "us_count (us_buf s) \<le> MAX_TASKS"
    by auto
  from w z b show "(\<exists>i < N. waits_not_empty (us_pc s i)) \<Longrightarrow> us_count (us_buf s) = 0"
    and "(\<exists>i < N. waits_not_full (us_pc s i)) \<Longrightarrow> us_count (us_buf s) = MAX_TASKS"
    by (auto simp: wakeup_inv_def enough_def)
qed

section \<open>Properties\<close>

text \<open>C3: with any number of threads in any interleaving, at most one is between lock and unlock; the
  tasks taken so far followed by the tasks stored are the tasks put in, in order; at most eight are
  stored; and the indices stay inside the array.\<close>
theorem buffer_safe_under_threads:
  assumes "us_reachable N s"
  shows "(\<forall>i j. in_crit (us_pc s i) \<longrightarrow> in_crit (us_pc s j) \<longrightarrow> i = j) \<and>
    us_in s = us_out s @ us_items (us_buf s) \<and> length (us_items (us_buf s)) \<le> 8 \<and>
    length (us_tasks (us_buf s)) = 8 \<and> 0 \<le> us_head (us_buf s) \<and> us_head (us_buf s) < 8 \<and>
    0 \<le> us_tail (us_buf s) \<and> us_tail (us_buf s) < 8"
proof -
  from us_reachable_inv [OF assms] have m: "mutex_ok (us_pc s) (us_holder s)"
    and ok: "us_ring_ok (us_buf s)" and f: "us_in s = us_out s @ us_items (us_buf s)"
    by (auto simp: mutex_inv_def fifo_inv_def)
  from ok have r: "ring_ok (Live (us_tasks (us_buf s))) 8 (us_tail (us_buf s)) (us_head (us_buf s))
      (us_count (us_buf s)) Unlocked" by (simp add: us_ring_ok_def MAX_TASKS_def)
  have "int (length (us_items (us_buf s))) \<le> 8"
    using us_count_items [OF ok] us_count_bounds [OF ok] by (simp add: MAX_TASKS_def)
  moreover have "length (us_tasks (us_buf s)) = 8" "0 \<le> us_head (us_buf s)" "us_head (us_buf s) < 8"
    "0 \<le> us_tail (us_buf s)" "us_tail (us_buf s) < 8"
    using r by (auto elim!: ring_okE)
  ultimately show ?thesis using m f by (auto simp: mutex_ok_def)
qed

text \<open>C5: the buffer never gets stuck: while some thread is inside a call and not asleep on a
  condition, some thread that is inside a call and not asleep can take a step.\<close>
theorem buffer_progress:
  assumes "us_reachable N s" and "i < N" and "awake (us_pc s i)"
  shows "\<exists>j < N. awake (us_pc s j) \<and> (\<exists>s'. us_step N j s s')"
  using assms by (rule us_awake_progress)

text \<open>C4: no wake-up is lost: when every thread is idle or asleep, a sleeping consumer means that
  the buffer is empty and a sleeping producer that it is full; so producers and consumers never
  sleep at the same time for good.\<close>
theorem no_lost_wakeup:
  assumes "us_reachable N s" and "\<forall>i < N. \<not> awake (us_pc s i)"
  shows "((\<exists>i < N. waits_not_empty (us_pc s i)) \<longrightarrow> us_items (us_buf s) = []) \<and>
    ((\<exists>i < N. waits_not_full (us_pc s i)) \<longrightarrow> length (us_items (us_buf s)) = 8) \<and>
    \<not> ((\<exists>i < N. waits_not_empty (us_pc s i)) \<and> (\<exists>i < N. waits_not_full (us_pc s i)))"
proof -
  have a: "\<And>i. i < N \<Longrightarrow> \<not> awake (us_pc s i)" using assms(2) by blast
  from us_reachable_inv [OF assms(1)] have "us_ring_ok (us_buf s)" by (simp add: fifo_inv_def)
  note len = us_count_items [OF this]
  have "(\<exists>i < N. waits_not_empty (us_pc s i)) \<longrightarrow> us_items (us_buf s) = []"
    using us_all_asleep(1) [OF assms(1) a] len by fastforce
  moreover have "(\<exists>i < N. waits_not_full (us_pc s i)) \<longrightarrow> length (us_items (us_buf s)) = 8"
    using us_all_asleep(2) [OF assms(1) a] len unfolding MAX_TASKS_def by (metis int_eq_iff_numeral)
  ultimately show ?thesis by fastforce
qed

text \<open>One thread starts a dequeue on the empty buffer and falls asleep.\<close>

definition demo_start :: "int us_sys" where
  "demo_start = us_start demo_us"

definition demo_calls :: "int us_sys" where
  "demo_calls = goto demo_start 0 DeqEnter"

definition demo_asleep :: "int us_sys" where
  "demo_asleep = (goto ((goto demo_calls 0 DeqTest)\<lparr>us_holder := Some 0\<rparr>) 0 DeqWait)\<lparr>us_holder := None\<rparr>"

lemma demo_calls_reachable: "us_reachable 1 demo_calls"
  unfolding demo_calls_def
proof (rule us_reachable.step)
  show "us_reachable 1 demo_start"
    unfolding demo_start_def by (rule us_reachable.start) (simp add: demo_us_def)
  show "us_step 1 0 demo_start (goto demo_start 0 DeqEnter)"
    by (rule us_step.call_dequeue) (simp_all add: demo_start_def us_start_def)
qed

lemma demo_asleep_reachable: "us_reachable 1 demo_asleep"
  unfolding demo_asleep_def
proof (rule us_reachable.step)
  let ?t = "(goto demo_calls 0 DeqTest)\<lparr>us_holder := Some 0\<rparr>"
  show "us_reachable 1 ?t"
  proof (rule us_reachable.step [OF demo_calls_reachable])
    show "us_step 1 0 demo_calls ?t"
      by (rule us_step.deq_lock) (simp_all add: demo_calls_def demo_start_def us_start_def)
  qed
  show "us_step 1 0 ?t ((goto ?t 0 DeqWait)\<lparr>us_holder := None\<rparr>)"
    by (rule us_step.deq_wait)
      (simp_all add: demo_calls_def demo_start_def us_start_def task_buffer_init_def)
qed

theorem buffer_safe_under_threads_witness: "us_in demo_asleep = us_out demo_asleep @ us_items (us_buf demo_asleep)"
  using buffer_safe_under_threads [OF demo_asleep_reachable] by simp

theorem buffer_progress_witness: "\<exists>s'. us_step 1 0 demo_calls s'"
proof -
  have "awake (us_pc demo_calls 0)" by (simp add: demo_calls_def awake_def)
  from buffer_progress [OF demo_calls_reachable _ this] show ?thesis by auto
qed

theorem no_lost_wakeup_witness:
  "waits_not_empty (us_pc demo_asleep 0) \<and> us_items (us_buf demo_asleep) = []"
proof -
  have w: "waits_not_empty (us_pc demo_asleep 0)" by (simp add: demo_asleep_def)
  moreover have "\<forall>i < 1. \<not> awake (us_pc demo_asleep i)" by (simp add: demo_asleep_def awake_def)
  ultimately show ?thesis using no_lost_wakeup [OF demo_asleep_reachable] by auto
qed

end
