(* ===== verification/Task_Scheduler.thy ===== *)
theory Task_Scheduler
  imports Volcom_CString
begin

text \<open>
  \<open>volcom_scheduler/task_scheduler.c\<close>: the tables of tasks and chunks, the splitting of a task's
  input file into chunks, their assignment and completion, and the choice of an employee. The
  static arrays keep all their cells, live or not; the live part of a table is abstracted by
  \<open>live_tasks\<close> and \<open>live_chunks\<close>. A pointer into a table is the index of its cell.
\<close>

section \<open>Data\<close>

record task_descriptor_t =
  td_task_id :: "char list"
  td_task_name :: "char list"
  td_input_file :: "char list"
  td_output_file :: "char list"
  td_chunk_size :: u64
  td_priority :: int
  td_created_time :: int
  td_deadline :: int
  td_is_chunked :: bool

record chunk_info_t =
  ck_chunk_id :: "char list"
  ck_task_id :: "char list"
  ck_chunk_file :: "char list"
  ck_chunk_size :: u64
  ck_chunk_index :: int
  ck_total_chunks :: int
  ck_assigned_employee :: "char list"
  ck_assigned_time :: int
  ck_is_completed :: bool

datatype scheduling_policy_t =
    SCHEDULE_ROUND_ROBIN | SCHEDULE_LOAD_BALANCED | SCHEDULE_PRIORITY_BASED | SCHEDULE_DEADLINE_AWARE

definition MAX_TASKS :: nat where "MAX_TASKS = 100"
definition MAX_CHUNKS :: nat where "MAX_CHUNKS = 1000"

record sched =
  tasks :: "task_descriptor_t list"
  chunks :: "chunk_info_t list"
  task_count :: nat
  chunk_count :: nat
  current_policy :: scheduling_policy_t

definition live_tasks :: "sched \<Rightarrow> task_descriptor_t list" where
  "live_tasks s = take (task_count s) (tasks s)"

definition live_chunks :: "sched \<Rightarrow> chunk_info_t list" where
  "live_chunks s = take (chunk_count s) (chunks s)"

section \<open>Tasks\<close>

definition init_scheduler :: "sched \<Rightarrow> int \<times> sched" where
  "init_scheduler s =
     (0, s\<lparr>task_count := 0, chunk_count := 0, current_policy := SCHEDULE_ROUND_ROBIN\<rparr>)"

definition cleanup_scheduler :: "sched \<Rightarrow> sched" where
  "cleanup_scheduler s = s\<lparr>task_count := 0, chunk_count := 0\<rparr>"

definition add_task :: "task_descriptor_t option \<Rightarrow> sched \<Rightarrow> int \<times> sched" where
  "add_task task s =
     (case task of
        None \<Rightarrow> (-1, s)
      | Some t \<Rightarrow>
          if task_count s \<ge> MAX_TASKS then (-1, s)
          else if \<exists>u \<in> set (live_tasks s). str_eq (td_task_id u) (td_task_id t) then (-1, s)
          else (0, s\<lparr>tasks := (tasks s)[task_count s := t], task_count := task_count s + 1\<rparr>))"

text \<open>The inner loop of \<open>remove_task\<close>: a matching chunk is removed by shifting the rest left, and
  the same position is looked at again.\<close>

function remove_chunks :: "char list \<Rightarrow> nat \<Rightarrow> chunk_info_t list \<Rightarrow> nat \<Rightarrow> chunk_info_t list \<times> nat" where
  "remove_chunks task_id j cs n =
     (if j < n then
        if str_eq (ck_task_id (cs ! j)) task_id
        then remove_chunks task_id j (shift_left j n cs) (n - 1)
        else remove_chunks task_id (Suc j) cs n
      else (cs, n))"
  by pat_completeness auto
termination
  by (relation "measure (\<lambda>(task_id, j, cs, n). n - j)") auto

declare remove_chunks.simps [simp del]

definition remove_task :: "char list option \<Rightarrow> sched \<Rightarrow> int \<times> sched" where
  "remove_task task_id s =
     (case task_id of
        None \<Rightarrow> (-1, s)
      | Some tid \<Rightarrow>
          (case find_index (\<lambda>t. str_eq (td_task_id t) tid) (live_tasks s) of
             None \<Rightarrow> (-1, s)
           | Some i \<Rightarrow>
               (case remove_chunks tid 0 (chunks s) (chunk_count s) of
                  (cs, n) \<Rightarrow>
                    (0, s\<lparr>chunks := cs, chunk_count := n,
                          tasks := shift_left i (task_count s) (tasks s),
                          task_count := task_count s - 1\<rparr>))))"

definition get_task :: "char list option \<Rightarrow> sched \<Rightarrow> nat option" where
  "get_task task_id s =
     (case task_id of
        None \<Rightarrow> None
      | Some tid \<Rightarrow> find_index (\<lambda>t. str_eq (td_task_id t) tid) (live_tasks s))"

definition has_incomplete :: "sched \<Rightarrow> task_descriptor_t \<Rightarrow> bool" where
  "has_incomplete s t \<longleftrightarrow>
     (\<exists>c \<in> set (live_chunks s). str_eq (ck_task_id c) (td_task_id t) \<and> \<not> ck_is_completed c)"

text \<open>The loop of \<open>get_pending_tasks\<close> from index \<open>i\<close> on, with \<open>room\<close> places left in the output:
  the indices of the tasks written to it.\<close>

fun pending_from :: "sched \<Rightarrow> nat \<Rightarrow> int \<Rightarrow> task_descriptor_t list \<Rightarrow> nat list" where
  "pending_from s i room [] = []"
| "pending_from s i room (t # ts) =
     (if 0 < room then
        if has_incomplete s t \<or> \<not> td_is_chunked t
        then i # pending_from s (Suc i) (room - 1) ts
        else pending_from s (Suc i) room ts
      else [])"

definition get_pending_tasks :: "bool \<Rightarrow> int \<Rightarrow> sched \<Rightarrow> int \<times> nat list" where
  "get_pending_tasks tasks_out max_tasks s =
     (if \<not> tasks_out then (-1, [])
      else (let out = pending_from s 0 max_tasks (live_tasks s) in (int (length out), out)))"

section \<open>Chunks\<close>

text \<open>The text of \<open>"%s_chunk_%d"\<close> and of \<open>"/tmp/%s_chunk_%d.dat"\<close>.\<close>

definition chunk_id_text :: "char list \<Rightarrow> int \<Rightarrow> string" where
  "chunk_id_text task_id i = cstr task_id @ ''_chunk_'' @ dec_int i"

definition chunk_file_text :: "char list \<Rightarrow> int \<Rightarrow> string" where
  "chunk_file_text task_id i = ''/tmp/'' @ cstr task_id @ ''_chunk_'' @ dec_int i @ ''.dat''"

text \<open>The local variable \<open>chunk\<close> of the loop starts with the bytes \<open>junk\<close> that are on the stack.\<close>

definition make_chunk ::
    "char list \<Rightarrow> u64 \<Rightarrow> u64 \<Rightarrow> int \<Rightarrow> int \<Rightarrow> chunk_info_t \<Rightarrow> chunk_info_t" where
  "make_chunk task_id file_size chunk_size tot i junk =
     junk\<lparr>ck_chunk_id := snprintf (ck_chunk_id junk) 64 (chunk_id_text task_id i),
          ck_task_id := strncpy (ck_task_id junk) task_id 63,
          ck_chunk_file := snprintf (ck_chunk_file junk) 256 (chunk_file_text task_id i),
          ck_chunk_size := (if i = tot - 1 then file_size - u64_of_int i * chunk_size else chunk_size),
          ck_chunk_index := i,
          ck_total_chunks := tot,
          ck_assigned_employee := (ck_assigned_employee junk)[0 := NUL],
          ck_assigned_time := 0,
          ck_is_completed := False\<rparr>"

function create_loop ::
    "(int \<Rightarrow> chunk_info_t) \<Rightarrow> int \<Rightarrow> int \<Rightarrow> chunk_info_t list \<Rightarrow> nat \<Rightarrow> chunk_info_t list \<times> nat" where
  "create_loop mk tot i cs n =
     (if i < tot \<and> n < MAX_CHUNKS
      then create_loop mk tot (i + 1) (cs[n := mk i]) (n + 1)
      else (cs, n))"
  by pat_completeness auto
termination
  by (relation "measure (\<lambda>(mk, tot, i, cs, n). nat (tot - i))") auto

declare create_loop.simps [simp del]

definition total_chunks_of :: "u64 \<Rightarrow> u64 \<Rightarrow> int" where
  "total_chunks_of file_size chunk_size = int_of_u64 ((file_size + chunk_size - 1) div chunk_size)"

text \<open>\<open>stat_size f\<close> is \<open>st_size\<close> when \<open>stat\<close> finds the file. A chunk size of zero divides by zero.\<close>

definition create_chunks ::
    "(string \<Rightarrow> u64 option) \<Rightarrow> (int \<Rightarrow> chunk_info_t) \<Rightarrow> char list option \<Rightarrow> u64 \<Rightarrow> sched
     \<Rightarrow> (int \<times> sched) option" where
  "create_chunks stat_size junk task_id chunk_size s =
     (case task_id of
        None \<Rightarrow> Some (-1, s)
      | Some tid \<Rightarrow>
          (case get_task (Some tid) s of
             None \<Rightarrow> Some (-1, s)
           | Some k \<Rightarrow>
               (case stat_size (cstr (td_input_file (tasks s ! k))) of
                  None \<Rightarrow> Some (-1, s)
                | Some file_size \<Rightarrow>
                    if chunk_size = 0 then None
                    else
                      (let tot = total_chunks_of file_size chunk_size;
                           (cs, n) = create_loop
                              (\<lambda>i. make_chunk tid file_size chunk_size tot i (junk i))
                              tot 0 (chunks s) (chunk_count s)
                       in Some (tot,
                            s\<lparr>chunks := cs, chunk_count := n,
                              tasks := (tasks s)[k := (tasks s ! k)\<lparr>td_is_chunked := True\<rparr>]\<rparr>)))))"

definition chunk_available :: "chunk_info_t \<Rightarrow> bool" where
  "chunk_available c \<longleftrightarrow> \<not> ck_is_completed c \<and> ck_assigned_employee c ! 0 = NUL"

text \<open>\<open>chunk_info\<close> says whether the output pointer is valid.\<close>

definition get_next_chunk :: "bool \<Rightarrow> sched \<Rightarrow> int \<times> chunk_info_t option" where
  "get_next_chunk chunk_info s =
     (if \<not> chunk_info then (-1, None)
      else (case find_index chunk_available (live_chunks s) of
              None \<Rightarrow> (-1, None)
            | Some i \<Rightarrow> (0, Some (chunks s ! i))))"

definition assign_chunk :: "int \<Rightarrow> char list option \<Rightarrow> char list option \<Rightarrow> sched \<Rightarrow> int \<times> sched" where
  "assign_chunk now chunk_id employee_id s =
     (case (chunk_id, employee_id) of
        (Some cid, Some eid) \<Rightarrow>
          (case find_index (\<lambda>c. str_eq (ck_chunk_id c) cid) (live_chunks s) of
             None \<Rightarrow> (-1, s)
           | Some i \<Rightarrow>
               (0, s\<lparr>chunks := (chunks s)[i := (chunks s ! i)
                       \<lparr>ck_assigned_employee := strncpy (ck_assigned_employee (chunks s ! i)) eid 63,
                        ck_assigned_time := now\<rparr>]\<rparr>))
      | _ \<Rightarrow> (-1, s))"

definition mark_chunk_completed :: "char list option \<Rightarrow> sched \<Rightarrow> int \<times> sched" where
  "mark_chunk_completed chunk_id s =
     (case chunk_id of
        None \<Rightarrow> (-1, s)
      | Some cid \<Rightarrow>
          (case find_index (\<lambda>c. str_eq (ck_chunk_id c) cid) (live_chunks s) of
             None \<Rightarrow> (-1, s)
           | Some i \<Rightarrow> (0, s\<lparr>chunks := (chunks s)[i := (chunks s ! i)\<lparr>ck_is_completed := True\<rparr>]\<rparr>)))"

text \<open>The counting loop of \<open>get_chunk_status\<close>.\<close>

fun count_status :: "char list \<Rightarrow> chunk_info_t list \<Rightarrow> int \<Rightarrow> int \<Rightarrow> int \<times> int" where
  "count_status tid [] completed tot = (completed, tot)"
| "count_status tid (c # cs) completed tot =
     (if str_eq (ck_task_id c) tid
      then count_status tid cs (if ck_is_completed c then completed + 1 else completed) (tot + 1)
      else count_status tid cs completed tot)"

text \<open>\<open>out\<close> says whether both output pointers are valid.\<close>

definition get_chunk_status :: "char list option \<Rightarrow> bool \<Rightarrow> sched \<Rightarrow> int \<times> (int \<times> int) option" where
  "get_chunk_status task_id out s =
     (case task_id of
        None \<Rightarrow> (-1, None)
      | Some tid \<Rightarrow>
          if \<not> out then (-1, None) else (0, Some (count_status tid (live_chunks s) 0 0)))"

definition send_task_to_employee :: "char list option \<Rightarrow> char list option \<Rightarrow> int" where
  "send_task_to_employee task_id employee_id =
     (if task_id = None \<or> employee_id = None then -1 else 0)"

definition set_scheduling_policy :: "scheduling_policy_t \<Rightarrow> sched \<Rightarrow> int \<times> sched" where
  "set_scheduling_policy policy s = (0, s\<lparr>current_policy := policy\<rparr>)"

definition get_scheduling_policy :: "sched \<Rightarrow> scheduling_policy_t" where
  "get_scheduling_policy s = current_policy s"

section \<open>The choice of an employee\<close>

record 'd employee_info_t =
  ei_employee_id :: "char list"
  ei_ip_address :: "char list"
  ei_cpu_usage :: 'd
  ei_memory_usage :: 'd
  ei_active_tasks :: int
  ei_last_seen :: int
  ei_is_available :: bool

text \<open>The switch over the policy. \<open>difftime\<close> and \<open>time(NULL)\<close> (read once per employee) are
  parameters.\<close>

definition employee_score ::
    "'d double_ops \<Rightarrow> (int \<Rightarrow> int \<Rightarrow> 'd) \<Rightarrow> int \<Rightarrow> scheduling_policy_t \<Rightarrow> task_descriptor_t
     \<Rightarrow> 'd employee_info_t \<Rightarrow> 'd" where
  "employee_score D difftime now policy task e =
     (case policy of
        SCHEDULE_LOAD_BALANCED \<Rightarrow>
          d_sub D
            (d_add D (d_sub D (d_of_int D 100) (ei_cpu_usage e))
                     (d_sub D (d_of_int D 100) (ei_memory_usage e)))
            (d_mul D (d_of_int D (ei_active_tasks e)) (d_of_int D 10))
      | SCHEDULE_ROUND_ROBIN \<Rightarrow> d_sub D (d_of_int D 100) (d_of_int D (ei_active_tasks e))
      | SCHEDULE_PRIORITY_BASED \<Rightarrow>
          d_mul D (d_sub D (d_of_int D 100) (ei_cpu_usage e))
                  (d_div D (d_of_int D (td_priority task)) (d_of_int D 10))
      | SCHEDULE_DEADLINE_AWARE \<Rightarrow>
          d_div D (difftime (td_deadline task) now) (d_of_int D (ei_active_tasks e + 1)))"

text \<open>The loop from index \<open>i\<close> on, with the best index and score so far.\<close>

fun best_from :: "'d double_ops \<Rightarrow> (nat \<Rightarrow> 'd employee_info_t \<Rightarrow> 'd) \<Rightarrow> nat \<Rightarrow> 'd employee_info_t list
    \<Rightarrow> int \<Rightarrow> 'd \<Rightarrow> int" where
  "best_from D score i [] best_index best_score = best_index"
| "best_from D score i (e # es) best_index best_score =
     (if \<not> ei_is_available e then best_from D score (Suc i) es best_index best_score
      else if d_gt D (score i e) best_score
      then best_from D score (Suc i) es (int i) (score i e)
      else best_from D score (Suc i) es best_index best_score)"

definition select_best_employee ::
    "'d double_ops \<Rightarrow> (int \<Rightarrow> int \<Rightarrow> 'd) \<Rightarrow> (nat \<Rightarrow> int) \<Rightarrow> 'd employee_info_t list option \<Rightarrow> int
     \<Rightarrow> task_descriptor_t option \<Rightarrow> sched \<Rightarrow> int" where
  "select_best_employee D difftime now employees count task s =
     (case (employees, task) of
        (Some es, Some t) \<Rightarrow>
          if count \<le> 0 then -1
          else best_from D (\<lambda>i. employee_score D difftime (now i) (current_policy s) t) 0
                 (take (nat count) es) (-1) (d_of_int D (-1))
      | _ \<Rightarrow> -1)"

section \<open>The loops against their specifications\<close>

lemma remove_chunks_filter:
  "j \<le> n \<Longrightarrow> n \<le> length cs \<Longrightarrow> remove_chunks tid j cs n = (cs', n') \<Longrightarrow>
     length cs' = length cs \<and> n' \<le> n \<and>
     take n' cs' = take j cs @ filter (\<lambda>c. \<not> str_eq (ck_task_id c) tid) (drop j (take n cs))"
proof (induction tid j cs n arbitrary: cs' n' rule: remove_chunks.induct)
  case (1 tid j cs n)
  show ?case
  proof (cases "j < n")
    case False
    then have "remove_chunks tid j cs n = (cs, n)" by (subst remove_chunks.simps) simp
    with False "1.prems" show ?thesis by simp
  next
    case jn: True
    then have hd: "drop j (take n cs) = cs ! j # drop (Suc j) (take n cs)"
      using "1.prems" by (simp add: Cons_nth_drop_Suc [symmetric])
    show ?thesis
    proof (cases "str_eq (ck_task_id (cs ! j)) tid")
      case True
      with jn "1.prems"(3) have "remove_chunks tid j (shift_left j n cs) (n - 1) = (cs', n')"
        by (simp add: remove_chunks.simps [of tid j cs n])
      from "1.IH"(1) [OF jn True _ _ this] jn "1.prems"(2)
      have IH: "length cs' = length cs" "n' \<le> n - 1"
        "take n' cs' = take j (shift_left j n cs)
           @ filter (\<lambda>c. \<not> str_eq (ck_task_id c) tid) (drop j (take (n - 1) (shift_left j n cs)))"
        by auto
      moreover have "drop j (take (n - 1) (shift_left j n cs)) = drop (Suc j) (take n cs)"
        using jn "1.prems"(2) by (simp add: take_shift_left)
      moreover have "take j (shift_left j n cs) = take j cs"
        using jn "1.prems"(2) by (intro take_shift_left_before) auto
      ultimately show ?thesis using True hd by simp
    next
      case False
      with jn "1.prems"(3) have "remove_chunks tid (Suc j) cs n = (cs', n')"
        by (simp add: remove_chunks.simps [of tid j cs n])
      from "1.IH"(2) [OF jn False _ _ this] jn "1.prems"(2) False hd show ?thesis
        by (simp add: take_Suc_conv_app_nth)
    qed
  qed
qed

lemma create_loop_appends:
  "n \<le> length cs \<Longrightarrow> length cs = MAX_CHUNKS \<Longrightarrow> create_loop mk tot i cs n = (cs', n') \<Longrightarrow>
     length cs' = length cs \<and> n' = n + min (nat (tot - i)) (MAX_CHUNKS - n) \<and>
     take n' cs' = take n cs @ map (\<lambda>k. mk (i + int k)) [0..<min (nat (tot - i)) (MAX_CHUNKS - n)]"
proof (induction mk tot i cs n arbitrary: cs' n' rule: create_loop.induct)
  case (1 mk tot i cs n)
  show ?case
  proof (cases "i < tot \<and> n < MAX_CHUNKS")
    case False
    then have "create_loop mk tot i cs n = (cs, n)" by (subst create_loop.simps) (rule if_not_P [OF False])
    with False "1.prems" show ?thesis by auto
  next
    case True
    with "1.prems"(3) have "create_loop mk tot (i + 1) (cs[n := mk i]) (n + 1) = (cs', n')"
      by (simp add: create_loop.simps [of mk tot i cs n])
    from "1.IH" [OF True _ _ this] True "1.prems"(2)
    have IH: "length cs' = length cs"
      "n' = n + 1 + min (nat (tot - (i + 1))) (MAX_CHUNKS - (n + 1))"
      "take n' cs' = take n cs @ [mk i]
         @ map (\<lambda>k. mk (i + 1 + int k)) [0..<min (nat (tot - (i + 1))) (MAX_CHUNKS - (n + 1))]"
      by (auto simp: take_Suc_update_end)
    have m: "min (nat (tot - i)) (MAX_CHUNKS - n) = Suc (min (nat (tot - (i + 1))) (MAX_CHUNKS - (n + 1)))"
      using True by linarith
    have "mk i # map (\<lambda>k. mk (i + 1 + int k)) [0..<k] = map (\<lambda>k. mk (i + int k)) [0..<Suc k]" for k
      by (simp add: upt_conv_Cons map_Suc_upt [symmetric] add.assoc del: upt_Suc)
    with IH m show ?thesis by simp
  qed
qed

lemma pending_from_filter:
  "int (length ts) \<le> room \<Longrightarrow>
     pending_from s i room ts
     = map (\<lambda>k. i + k) (filter (\<lambda>k. has_incomplete s (ts ! k) \<or> \<not> td_is_chunked (ts ! k)) [0..<length ts])"
proof (induction ts arbitrary: i room)
  case Nil
  then show ?case by simp
next
  case (Cons t ts)
  let ?P = "\<lambda>k. has_incomplete s ((t # ts) ! k) \<or> \<not> td_is_chunked ((t # ts) ! k)"
  have "filter ?P [0..<length (t # ts)] = (if ?P 0 then [0] else []) @ map Suc (filter (?P \<circ> Suc) [0..<length ts])"
    by (simp add: upt_conv_Cons map_Suc_upt [symmetric] filter_map del: upt_Suc)
  then show ?case using Cons by (auto simp: o_def)
qed

lemma pending_from_length: "0 \<le> room \<Longrightarrow> int (length (pending_from s i room ts)) \<le> room"
proof (induction ts arbitrary: i room)
  case Nil
  then show ?case by simp
next
  case (Cons t ts)
  then show ?case using Cons.IH [of "room - 1" "Suc i"] Cons.IH [of room "Suc i"] by auto
qed

lemma count_status_counts:
  "count_status tid cs c n =
     (c + int (length (filter (\<lambda>k. str_eq (ck_task_id k) tid \<and> ck_is_completed k) cs)),
      n + int (length (filter (\<lambda>k. str_eq (ck_task_id k) tid) cs)))"
  by (induction cs arbitrary: c n) auto

section \<open>The invariant of the tables\<close>

definition sched_inv :: "sched \<Rightarrow> bool" where
  "sched_inv s \<longleftrightarrow>
     length (tasks s) = MAX_TASKS \<and> task_count s \<le> MAX_TASKS \<and>
     length (chunks s) = MAX_CHUNKS \<and> chunk_count s \<le> MAX_CHUNKS \<and>
     distinct (map (\<lambda>t. cstr (td_task_id t)) (live_tasks s))"

lemma live_lengths:
  "sched_inv s \<Longrightarrow> length (live_tasks s) = task_count s \<and> length (live_chunks s) = chunk_count s"
  by (simp add: sched_inv_def live_tasks_def live_chunks_def)

lemma init_scheduler_inv [invar_intros]:
  "length (tasks s) = MAX_TASKS \<Longrightarrow> length (chunks s) = MAX_CHUNKS \<Longrightarrow> sched_inv (snd (init_scheduler s))"
  by (simp add: init_scheduler_def sched_inv_def live_tasks_def)

lemma cleanup_scheduler_inv [invar_intros]: "sched_inv s \<Longrightarrow> sched_inv (cleanup_scheduler s)"
  by (simp add: cleanup_scheduler_def sched_inv_def live_tasks_def)

lemma add_task_effect:
  assumes "sched_inv s" and "add_task (Some t) s = (0, s')"
  shows "live_tasks s' = live_tasks s @ [t] \<and> live_chunks s' = live_chunks s \<and>
    (\<forall>u \<in> set (live_tasks s). cstr (td_task_id u) \<noteq> cstr (td_task_id t))"
  using assms by (auto simp: add_task_def sched_inv_def live_tasks_def live_chunks_def str_eq_def
      take_Suc_update_end split: if_splits)

lemma add_task_inv [invar_intros]: "sched_inv s \<Longrightarrow> sched_inv (snd (add_task t s))"
  by (cases t) (auto simp: add_task_def sched_inv_def live_tasks_def str_eq_def take_Suc_update_end
      split: if_splits)

lemma remove_task_effect:
  assumes inv: "sched_inv s"
    and i: "find_index (\<lambda>t. str_eq (td_task_id t) tid) (live_tasks s) = Some i"
    and r: "remove_task (Some tid) s = (r, s')"
  shows "r = 0 \<and> live_tasks s' = filter (\<lambda>t. \<not> str_eq (td_task_id t) tid) (live_tasks s) \<and>
    live_chunks s' = filter (\<lambda>c. \<not> str_eq (ck_task_id c) tid) (live_chunks s) \<and>
    task_count s' = task_count s - 1 \<and> sched_inv s'"
proof -
  obtain cs n where rc: "remove_chunks tid 0 (chunks s) (chunk_count s) = (cs, n)" by fastforce
  have c: "length cs = MAX_CHUNKS" "n \<le> chunk_count s"
    "take n cs = filter (\<lambda>c. \<not> str_eq (ck_task_id c) tid) (live_chunks s)"
    using remove_chunks_filter [OF _ _ rc] inv by (auto simp: sched_inv_def live_chunks_def)
  have s': "r = 0" "s' = s\<lparr>chunks := cs, chunk_count := n,
      tasks := shift_left i (task_count s) (tasks s), task_count := task_count s - 1\<rparr>"
    using r i rc by (auto simp: remove_task_def)
  have il: "i < task_count s" and hit: "cstr (td_task_id (live_tasks s ! i)) = cstr tid"
    using find_index_SomeD [OF i] inv by (auto simp: live_lengths str_eq_def)
  have "live_tasks s' = take i (live_tasks s) @ drop (Suc i) (live_tasks s)"
    using il inv by (simp add: s' live_tasks_def take_shift_left sched_inv_def)
  also have "\<dots> = filter (\<lambda>t. cstr (td_task_id t) \<noteq> cstr (td_task_id (live_tasks s ! i))) (live_tasks s)"
    using inv il by (intro remove_nth_distinct_key) (auto simp: sched_inv_def live_tasks_def)
  finally have t: "live_tasks s' = filter (\<lambda>t. \<not> str_eq (td_task_id t) tid) (live_tasks s)"
    by (simp add: hit str_eq_def)
  have "sched_inv s'"
    using inv il c t by (auto simp: s' sched_inv_def distinct_map_filter live_tasks_def)
  with t c s' show ?thesis by (simp add: live_chunks_def)
qed

lemma remove_task_unknown:
  "find_index (\<lambda>t. str_eq (td_task_id t) tid) (live_tasks s) = None \<Longrightarrow> remove_task (Some tid) s = (-1, s)"
  by (simp add: remove_task_def)

lemma remove_task_inv [invar_intros]:
  assumes "sched_inv s"
  shows "sched_inv (snd (remove_task t s))"
proof (cases t)
  case None
  with assms show ?thesis by (simp add: remove_task_def)
next
  case (Some tid)
  show ?thesis
  proof (cases "find_index (\<lambda>t. str_eq (td_task_id t) tid) (live_tasks s)")
    case None
    with assms Some show ?thesis by (simp only: remove_task_unknown snd_conv)
  next
    case i: (Some i)
    obtain r s' where "remove_task (Some tid) s = (r, s')" by fastforce
    with remove_task_effect [OF assms i this] Some show ?thesis by simp
  qed
qed

lemma assign_chunk_inv [invar_intros]: "sched_inv s \<Longrightarrow> sched_inv (snd (assign_chunk now c e s))"
  by (auto simp: assign_chunk_def sched_inv_def live_tasks_def split: option.splits)

lemma mark_chunk_completed_inv [invar_intros]: "sched_inv s \<Longrightarrow> sched_inv (snd (mark_chunk_completed c s))"
  by (auto simp: mark_chunk_completed_def sched_inv_def live_tasks_def split: option.splits)

lemma set_scheduling_policy_inv [invar_intros]: "sched_inv s \<Longrightarrow> sched_inv (snd (set_scheduling_policy p s))"
  by (simp add: set_scheduling_policy_def sched_inv_def live_tasks_def)

lemma live_tasks_set_chunked:
  "k < task_count s \<Longrightarrow> task_count s \<le> length (tasks s) \<Longrightarrow>
     map f (take (task_count s) ((tasks s)[k := (tasks s ! k)\<lparr>td_is_chunked := b\<rparr>]))
   = (map f (live_tasks s))[k := f ((tasks s ! k)\<lparr>td_is_chunked := b\<rparr>)]"
  by (simp add: live_tasks_def take_update_swap map_update)

text \<open>What \<open>create_chunks\<close> does when it gets as far as the loop.\<close>

lemma create_chunks_effect:
  assumes inv: "sched_inv s" and k: "get_task (Some tid) s = Some k"
    and sz: "stat_size (cstr (td_input_file (tasks s ! k))) = Some file_size"
    and cz: "chunk_size \<noteq> 0"
  defines "tot \<equiv> total_chunks_of file_size chunk_size"
  defines "m \<equiv> min (nat tot) (MAX_CHUNKS - chunk_count s)"
  shows "\<exists>s'. create_chunks stat_size junk (Some tid) chunk_size s = Some (tot, s') \<and>
     live_chunks s' = live_chunks s
       @ map (\<lambda>i. make_chunk tid file_size chunk_size tot (int i) (junk (int i))) [0..<m] \<and>
     live_tasks s' = (live_tasks s)[k := (tasks s ! k)\<lparr>td_is_chunked := True\<rparr>] \<and>
     chunk_count s' = chunk_count s + m \<and> sched_inv s'"
proof -
  obtain cs n where cl: "create_loop (\<lambda>i. make_chunk tid file_size chunk_size tot i (junk i))
      tot 0 (chunks s) (chunk_count s) = (cs, n)" by fastforce
  have c: "length cs = MAX_CHUNKS" "n = chunk_count s + m"
    "take n cs = live_chunks s
       @ map (\<lambda>i. make_chunk tid file_size chunk_size tot (int i) (junk (int i))) [0..<m]"
    using create_loop_appends [OF _ _ cl] inv by (auto simp: sched_inv_def live_chunks_def m_def)
  have kl: "k < task_count s"
    using k find_index_lt inv by (fastforce simp: get_task_def live_lengths)
  let ?s' = "s\<lparr>chunks := cs, chunk_count := n,
      tasks := (tasks s)[k := (tasks s ! k)\<lparr>td_is_chunked := True\<rparr>]\<rparr>"
  have "create_chunks stat_size junk (Some tid) chunk_size s = Some (tot, ?s')"
    using k sz cz cl by (simp add: create_chunks_def tot_def Let_def)
  moreover have "live_tasks ?s' = (live_tasks s)[k := (tasks s ! k)\<lparr>td_is_chunked := True\<rparr>]"
    using kl by (simp add: live_tasks_def take_update_swap)
  moreover have "sched_inv ?s'"
  proof -
    have "map (\<lambda>t. cstr (td_task_id t)) (live_tasks ?s') = map (\<lambda>t. cstr (td_task_id t)) (live_tasks s)"
      using kl inv live_tasks_set_chunked [of k s "\<lambda>t. cstr (td_task_id t)" True]
      by (simp add: live_tasks_def sched_inv_def map_update flip: take_map)
        (metis list_update_id nth_map order_less_le_trans take_update_swap)
    with inv c show ?thesis by (auto simp: sched_inv_def m_def)
  qed
  ultimately show ?thesis using c by (auto simp: live_chunks_def)
qed

section \<open>The sizes of the chunks\<close>

text \<open>File size and chunk size for which the computation of the number of chunks neither wraps
  around in \<open>size_t\<close> nor loses bits in the \<open>int\<close> it is stored in.\<close>

definition sizes_in_range :: "u64 \<Rightarrow> u64 \<Rightarrow> bool" where
  "sizes_in_range F C \<longleftrightarrow> 0 < unat F \<and> 0 < unat C \<and> unat F + unat C \<le> 2 ^ 64 \<and>
     (unat F + unat C - 1) div unat C < 2 ^ 31"

lemma total_chunks_of_unat:
  assumes "sizes_in_range F C"
  shows "total_chunks_of F C = int ((unat F + unat C - 1) div unat C)"
proof -
  from assms have r: "0 < unat F" "0 < unat C" "unat F + unat C \<le> 2 ^ 64"
    "(unat F + unat C - 1) div unat C < 2 ^ 31"
    by (auto simp: sizes_in_range_def)
  have "F + C - 1 = word_of_nat (unat F + unat C - 1)"
    using r by (simp add: of_nat_diff)
  moreover have "unat F + unat C - 1 < 2 ^ 64" using r by simp
  ultimately have "unat (F + C - 1) = unat F + unat C - 1"
    by (simp add: unat_of_nat)
  then have "unat ((F + C - 1) div C) = (unat F + unat C - 1) div unat C"
    by (simp add: unat_div_distrib)
  with r int_of_u64_small [of "(F + C - 1) div C"] show ?thesis
    by (simp add: total_chunks_of_def)
qed

lemma ceil_div_bounds:
  fixes F C :: nat
  assumes "0 < F" and "0 < C"
  defines "q \<equiv> (F + C - 1) div C"
  shows "0 < q" and "(q - 1) * C < F" and "F \<le> q * C"
proof -
  have e: "q * C + (F + C - 1) mod C = F + C - 1" unfolding q_def by (rule div_mult_mod_eq)
  moreover have "(F + C - 1) mod C < C" using assms(2) by simp
  ultimately show u: "F \<le> q * C" by linarith
  show q: "0 < q"
  proof (rule ccontr)
    assume "\<not> 0 < q"
    then have "q = 0" by simp
    with u assms(1) show False by simp
  qed
  have "(q - 1) * C = q * C - C" by (simp add: diff_mult_distrib)
  moreover have "C \<le> q * C" using q by simp
  ultimately show "(q - 1) * C < F" using e assms(1,2) by linarith
qed

lemma make_chunk_size:
  assumes r: "sizes_in_range F C" and i: "i < (unat F + unat C - 1) div unat C"
  defines "q \<equiv> (unat F + unat C - 1) div unat C"
  shows "unat (ck_chunk_size (make_chunk tid F C (total_chunks_of F C) (int i) junk))
       = (if i = q - 1 then unat F - (q - 1) * unat C else unat C)"
proof -
  from r have pos: "0 < unat F" "0 < unat C" by (auto simp: sizes_in_range_def)
  note b = ceil_div_bounds [OF pos, folded q_def]
  have tot: "total_chunks_of F C = int q" unfolding q_def by (rule total_chunks_of_unat [OF r])
  have "unat F < 2 ^ 64" by (rule order_less_le_trans [OF unsigned_less]) simp
  with b(2) have le: "(q - 1) * unat C < 2 ^ 64" by linarith
  have w: "u64_of_int (int (q - 1)) * C = word_of_nat ((q - 1) * unat C)"
    by (simp add: u64_of_int_def)
  then have u: "unat (u64_of_int (int (q - 1)) * C) = (q - 1) * unat C"
    using le by (simp only: unat_of_nat) simp
  then have "u64_of_int (int (q - 1)) * C \<le> F"
    using b(2) by (simp add: word_le_nat_alt)
  then have "unat (F - u64_of_int (int (q - 1)) * C) = unat F - (q - 1) * unat C"
    using u by (simp add: unat_sub)
  then show ?thesis using b(1) i
    by (auto simp: make_chunk_def tot q_def [symmetric] of_nat_diff)
qed

lemma make_chunk_sizes_sum:
  assumes r: "sizes_in_range F C"
  defines "q \<equiv> (unat F + unat C - 1) div unat C"
  shows "(\<Sum>i<q. unat (ck_chunk_size (make_chunk tid F C (total_chunks_of F C) (int i) (junk i)))) = unat F"
proof -
  from r have pos: "0 < unat F" "0 < unat C" by (auto simp: sizes_in_range_def)
  note b = ceil_div_bounds [OF pos, folded q_def]
  have "(\<Sum>i<q. unat (ck_chunk_size (make_chunk tid F C (total_chunks_of F C) (int i) (junk i))))
      = (\<Sum>i<q. if i = q - 1 then unat F - (q - 1) * unat C else unat C)"
    using make_chunk_size [OF r, folded q_def] by (intro sum.cong) auto
  also have "\<dots> = (\<Sum>i<Suc (q - 1). if i = q - 1 then unat F - (q - 1) * unat C else unat C)"
    using b(1) by simp
  also have "\<dots> = (q - 1) * unat C + (unat F - (q - 1) * unat C)"
    by (simp add: sum.lessThan_Suc del: lessThan_Suc)
  finally show ?thesis using b(2) by simp
qed

text \<open>Task ids that leave room for the terminator in the 64-byte field arrive whole, whatever the
  stack held; the chunk id is complete when its text fits.\<close>

lemma make_chunk_task_id:
  assumes "length (cstr tid) < 63" and "length (ck_task_id junk) = 64"
  shows "str_eq (ck_task_id (make_chunk tid F C tot i junk)) tid"
  using strncpy_fits(1) [of tid 63 "ck_task_id junk"] assms
  by (simp add: make_chunk_def str_eq_def)

lemma take_append_long: "n \<le> length xs \<Longrightarrow> take n (xs @ ys) = take n xs"
  by simp

lemma make_chunk_id:
  shows "cstr (ck_chunk_id (make_chunk tid F C tot i junk)) = take 63 (chunk_id_text tid i)"
  using snprintf_cstr(1) [of 64 "chunk_id_text tid i"]
  by (simp add: make_chunk_def chunk_id_text_def)

section \<open>The employee chosen\<close>

text \<open>The loop keeps either what it had, when nothing beats it, or the index of an available
  employee whose score beats it and is beaten by none.\<close>

lemma best_from_max:
  assumes D: "d_order D"
  shows "(best_from D score i es b v = b \<and>
       (\<forall>k < length es. ei_is_available (es ! k) \<longrightarrow> \<not> d_gt D (score (i + k) (es ! k)) v)) \<or>
     (\<exists>k < length es. best_from D score i es b v = int (i + k) \<and> ei_is_available (es ! k) \<and>
       d_gt D (score (i + k) (es ! k)) v \<and>
       (\<forall>j < length es. ei_is_available (es ! j) \<longrightarrow>
          \<not> d_gt D (score (i + j) (es ! j)) (score (i + k) (es ! k))))"
  (is "?Keep i es b v \<or> ?New i es b v")
proof (induction es arbitrary: i b v)
  case Nil
  then show ?case by simp
next
  case (Cons e es)
  show ?case
  proof (cases "ei_is_available e \<and> d_gt D (score i e) v")
    case True
    from Cons.IH [of "Suc i" "int i" "score i e"] show ?thesis
    proof
      assume k: "?Keep (Suc i) es (int i) (score i e)"
      have "?New i (e # es) b v"
        using True k d_order_irrefl [OF D]
        by (intro exI [of _ 0]) (auto simp: nth_Cons split: nat.splits)
      then show ?thesis ..
    next
      assume "?New (Suc i) es (int i) (score i e)"
      then obtain k where k: "k < length es" "best_from D score (Suc i) es (int i) (score i e) = int (Suc i + k)"
        "ei_is_available (es ! k)" "d_gt D (score (Suc i + k) (es ! k)) (score i e)"
        "\<forall>j < length es. ei_is_available (es ! j) \<longrightarrow>
          \<not> d_gt D (score (Suc i + j) (es ! j)) (score (Suc i + k) (es ! k))" by blast
      have "?New i (e # es) b v"
        using True k d_order_trans [OF D] d_order_irrefl [OF D]
        by (intro exI [of _ "Suc k"]) (auto simp: nth_Cons split: nat.splits)
      then show ?thesis ..
    qed
  next
    case False
    then have s: "best_from D score i (e # es) b v = best_from D score (Suc i) es b v" by auto
    from Cons.IH [of "Suc i" b v] show ?thesis
    proof
      assume "?Keep (Suc i) es b v"
      then have "?Keep i (e # es) b v" using False s by (auto simp: nth_Cons split: nat.splits)
      then show ?thesis ..
    next
      assume "?New (Suc i) es b v"
      then obtain k where k: "k < length es" "best_from D score (Suc i) es b v = int (Suc i + k)"
        "ei_is_available (es ! k)" "d_gt D (score (Suc i + k) (es ! k)) v"
        "\<forall>j < length es. ei_is_available (es ! j) \<longrightarrow>
          \<not> d_gt D (score (Suc i + j) (es ! j)) (score (Suc i + k) (es ! k))" by blast
      have "?New i (e # es) b v"
        using False s k d_order_trans [OF D]
        by (intro exI [of _ "Suc k"]) (auto simp: nth_Cons split: nat.splits)
      then show ?thesis ..
    qed
  qed
qed

section \<open>Runs of the scheduler\<close>

text \<open>The states the program can reach from start-up, with any content of the static arrays and
  of the stack, any files and any clock.\<close>

inductive sched_reachable :: "sched \<Rightarrow> bool" where
  reach_init: "length (tasks s) = MAX_TASKS \<Longrightarrow> length (chunks s) = MAX_CHUNKS
    \<Longrightarrow> sched_reachable (snd (init_scheduler s))"
| reach_cleanup: "sched_reachable s \<Longrightarrow> sched_reachable (cleanup_scheduler s)"
| reach_add: "sched_reachable s \<Longrightarrow> sched_reachable (snd (add_task t s))"
| reach_remove: "sched_reachable s \<Longrightarrow> sched_reachable (snd (remove_task t s))"
| reach_create: "sched_reachable s \<Longrightarrow> create_chunks stat_size junk t chunk_size s = Some (r, s')
    \<Longrightarrow> sched_reachable s'"
| reach_assign: "sched_reachable s \<Longrightarrow> sched_reachable (snd (assign_chunk now c e s))"
| reach_mark: "sched_reachable s \<Longrightarrow> sched_reachable (snd (mark_chunk_completed c s))"
| reach_policy: "sched_reachable s \<Longrightarrow> sched_reachable (snd (set_scheduling_policy p s))"

inductive_cases create_reachE: "sched_reachable s"

lemma create_chunks_inv:
  assumes inv: "sched_inv s" and r: "create_chunks stat_size junk t chunk_size s = Some (r, s')"
  shows "sched_inv s'"
proof (cases "s' = s")
  case True
  with inv show ?thesis by simp
next
  case False
  with r obtain tid k F where t: "t = Some tid" "get_task (Some tid) s = Some k"
    "stat_size (cstr (td_input_file (tasks s ! k))) = Some F" "chunk_size \<noteq> 0"
    by (auto simp: create_chunks_def split: option.splits if_splits)
  from create_chunks_effect [where stat_size = stat_size and junk = junk, OF inv t(2-4)] r t(1)
  show ?thesis by auto
qed

lemma reachable_inv: "sched_reachable s \<Longrightarrow> sched_inv s"
  by (induction rule: sched_reachable.induct) (auto intro: invar_intros create_chunks_inv)

section \<open>Dispatching and completing\<close>

lemma live_chunks_update:
  "i < chunk_count s \<Longrightarrow> live_chunks (s\<lparr>chunks := (chunks s)[i := c]\<rparr>) = (live_chunks s)[i := c]"
  by (simp add: live_chunks_def take_update_inside)

lemma live_chunks_nth: "i < chunk_count s \<Longrightarrow> live_chunks s ! i = chunks s ! i"
  by (simp add: live_chunks_def)

lemma strncpy_0: "0 < n \<Longrightarrow> cstr src \<noteq> [] \<Longrightarrow> strncpy dst src n ! 0 \<noteq> NUL"
proof -
  assume n: "0 < n" and "cstr src \<noteq> []"
  then obtain c cs where c: "cstr src = c # cs" by (cases "cstr src") auto
  then have "c \<noteq> NUL" using cstr_no_NUL [of src] by auto
  with c n show ?thesis by (cases n) (simp_all add: strncpy_def)
qed

definition available_count :: "sched \<Rightarrow> nat" where
  "available_count s = length (filter chunk_available (live_chunks s))"

lemma length_filter_update_False:
  "i < length xs \<Longrightarrow> P (xs ! i) \<Longrightarrow> \<not> P y \<Longrightarrow>
     Suc (length (filter P (xs[i := y]))) = length (filter P xs)"
  by (induction xs arbitrary: i) (auto simp: nth_Cons split: nat.splits)

lemma get_next_chunk_SomeD:
  assumes "sched_inv s" and "get_next_chunk True s = (0, Some c)"
  shows "\<exists>i < chunk_count s. find_index chunk_available (live_chunks s) = Some i \<and> c = live_chunks s ! i"
  using assms find_index_lt [of chunk_available "live_chunks s"]
  by (auto simp: get_next_chunk_def live_lengths live_chunks_nth split: option.splits)

lemma find_chunk_id:
  assumes "distinct (map (\<lambda>c. cstr (ck_chunk_id c)) (live_chunks s))" and "i < length (live_chunks s)"
  shows "find_index (\<lambda>c. str_eq (ck_chunk_id c) (ck_chunk_id (live_chunks s ! i))) (live_chunks s) = Some i"
  using find_index_distinct_key [OF assms] by (simp add: str_eq_def)

lemma mark_chunk_completed_at:
  assumes "sched_inv s" and "find_index (\<lambda>c. str_eq (ck_chunk_id c) cid) (live_chunks s) = Some i"
  shows "mark_chunk_completed (Some cid) s = (0, s\<lparr>chunks := (chunks s)[i := (chunks s ! i)\<lparr>ck_is_completed := True\<rparr>]\<rparr>)"
    and "live_chunks (snd (mark_chunk_completed (Some cid) s))
       = (live_chunks s)[i := (live_chunks s ! i)\<lparr>ck_is_completed := True\<rparr>]"
  using assms find_index_lt [OF assms(2)]
  by (simp_all add: mark_chunk_completed_def live_lengths live_chunks_update live_chunks_nth)

lemma completed_lt_total:
  "length (filter (\<lambda>k. P k \<and> Q k) cs) < length (filter P cs) \<longleftrightarrow> (\<exists>c \<in> set cs. P c \<and> \<not> Q c)"
proof (induction cs)
  case Nil
  then show ?case by simp
next
  case (Cons c cs)
  have "length (filter (\<lambda>k. P k \<and> Q k) cs) \<le> length (filter P cs)"
    by (induction cs) auto
  with Cons show ?case by auto
qed

section \<open>A concrete scheduler\<close>

definition demo_task :: "string \<Rightarrow> task_descriptor_t" where
  "demo_task tid = \<lparr>td_task_id = zbuf 64 tid, td_task_name = zbuf 128 ''demo'',
     td_input_file = zbuf 256 ''in'', td_output_file = zbuf 256 ''out'', td_chunk_size = 4,
     td_priority = 1, td_created_time = 0, td_deadline = 0, td_is_chunked = False\<rparr>"

definition demo_chunk :: "chunk_info_t" where
  "demo_chunk = \<lparr>ck_chunk_id = zbuf 64 [], ck_task_id = zbuf 64 [], ck_chunk_file = zbuf 256 [],
     ck_chunk_size = 0, ck_chunk_index = 0, ck_total_chunks = 0, ck_assigned_employee = zbuf 64 [],
     ck_assigned_time = 0, ck_is_completed = False\<rparr>"

definition demo_boot :: sched where
  "demo_boot = snd (init_scheduler \<lparr>tasks = replicate MAX_TASKS (demo_task []),
     chunks = replicate MAX_CHUNKS demo_chunk, task_count = 7, chunk_count = 7,
     current_policy = SCHEDULE_DEADLINE_AWARE\<rparr>)"

definition demo_sched :: "string \<Rightarrow> sched" where
  "demo_sched tid = snd (add_task (Some (demo_task tid)) demo_boot)"

lemma demo_boot_inv: "sched_inv demo_boot"
  unfolding demo_boot_def by (rule init_scheduler_inv) simp_all

lemma demo_sched_facts:
  "sched_inv (demo_sched tid)" "live_tasks (demo_sched tid) = [demo_task tid]"
  "live_chunks (demo_sched tid) = []" "chunk_count (demo_sched tid) = 0"
proof -
  show "sched_inv (demo_sched tid)"
    unfolding demo_sched_def by (rule add_task_inv [OF demo_boot_inv])
  have "0 < MAX_TASKS" by (simp add: MAX_TASKS_def)
  then show "live_tasks (demo_sched tid) = [demo_task tid]"
    "live_chunks (demo_sched tid) = []" "chunk_count (demo_sched tid) = 0"
    by (simp_all add: demo_sched_def demo_boot_def init_scheduler_def add_task_def live_tasks_def
        live_chunks_def take_Suc_update_end)
qed

lemma demo_sched_get:
  "NUL \<notin> set tid \<Longrightarrow> length tid < 64 \<Longrightarrow> get_task (Some tid) (demo_sched tid) = Some 0"
  by (simp add: get_task_def demo_sched_facts demo_task_def str_eq_def cstr_zbuf cstr_id)

lemma demo_sched_input: "cstr (td_input_file (tasks (demo_sched tid) ! 0)) = ''in''"
proof -
  have "tasks (demo_sched tid) ! 0 = live_tasks (demo_sched tid) ! 0"
    using demo_sched_facts(1,2) [of tid]
    by (metis length_Cons less_Suc_eq_0_disj list.size(3) live_lengths live_tasks_def nth_take)
  then show ?thesis by (simp add: demo_sched_facts demo_task_def cstr_zbuf)
qed

section \<open>Properties\<close>

text \<open>C9: whatever sequence of scheduler calls the program makes from start-up, with any files,
  clock and stack contents, both tables stay within their arrays and no two live tasks have the
  same id.\<close>
theorem scheduler_invariant:
  assumes "sched_reachable s"
  shows "length (tasks s) = MAX_TASKS \<and> task_count s \<le> MAX_TASKS \<and> length (chunks s) = MAX_CHUNKS \<and>
    chunk_count s \<le> MAX_CHUNKS \<and> distinct (map (\<lambda>t. cstr (td_task_id t)) (live_tasks s))"
  using reachable_inv [OF assms] by (simp add: sched_inv_def)

theorem scheduler_invariant_witness: "task_count (demo_sched ''a'') \<le> MAX_TASKS"
proof -
  have "sched_reachable demo_boot"
    unfolding demo_boot_def by (rule reach_init) simp_all
  then have "sched_reachable (demo_sched ''a'')"
    unfolding demo_sched_def by (rule reach_add)
  from scheduler_invariant [OF this] show ?thesis by simp
qed

text \<open>C8: \<open>remove_task\<close> on the id of a live task removes exactly that task and every chunk that
  belongs to it, keeps the order of the rest, and keeps the tables well formed; on any other id it
  returns -1 and changes nothing.\<close>
theorem remove_task_exact:
  assumes "sched_inv s"
  shows "(if \<exists>t \<in> set (live_tasks s). str_eq (td_task_id t) tid
    then \<exists>s'. remove_task (Some tid) s = (0, s') \<and> sched_inv s' \<and> task_count s' + 1 = task_count s \<and>
      live_tasks s' = filter (\<lambda>t. \<not> str_eq (td_task_id t) tid) (live_tasks s) \<and>
      live_chunks s' = filter (\<lambda>c. \<not> str_eq (ck_task_id c) tid) (live_chunks s)
    else remove_task (Some tid) s = (-1, s))"
proof (cases "find_index (\<lambda>t. str_eq (td_task_id t) tid) (live_tasks s)")
  case None
  then show ?thesis using remove_task_unknown [OF None] by (auto simp: find_index_None)
next
  case (Some i)
  obtain r s' where r: "remove_task (Some tid) s = (r, s')" by fastforce
  from remove_task_effect [OF assms Some r] find_index_SomeD [OF Some] r show ?thesis
    by (auto simp: live_lengths [OF assms])
qed

theorem remove_task_exact_witness:
  "\<exists>s'. remove_task (Some ''a'') (demo_sched ''a'') = (0, s') \<and> live_tasks s' = []"
proof -
  have "str_eq (td_task_id (demo_task ''a'')) ''a''"
    by (simp add: demo_task_def str_eq_def cstr_zbuf cstr_id)
  with remove_task_exact [OF demo_sched_facts(1) [of "''a''"], of "''a''"] show ?thesis
    by (auto simp: demo_sched_facts)
qed

text \<open>C1: \<open>create_chunks\<close> partitions the input file: when the chunk table has room and the sizes
  are within the machine's range, it returns the number of chunks it appends; they are numbered
  from 0, belong to the task, are unassigned and incomplete, each holds between 1 byte and the chunk
  size, and their sizes sum to the size of the file.\<close>
theorem create_chunks_partition:
  assumes "sched_inv s" and "get_task (Some tid) s = Some k"
    and "stat_size (cstr (td_input_file (tasks s ! k))) = Some F" and "sizes_in_range F C"
    and "chunk_count s + (unat F + unat C - 1) div unat C \<le> MAX_CHUNKS"
    and "length (cstr tid) < 63"
    and "\<forall>i. length (ck_task_id (junk i)) = 64 \<and> length (ck_assigned_employee (junk i)) = 64"
  shows "\<exists>s' cs. create_chunks stat_size junk (Some tid) C s = Some (int (length cs), s') \<and>
    live_chunks s' = live_chunks s @ cs \<and> cs \<noteq> [] \<and>
    map ck_chunk_index cs = map int [0..<length cs] \<and>
    (\<forall>c \<in> set cs. str_eq (ck_task_id c) tid \<and> chunk_available c \<and> ck_total_chunks c = int (length cs)) \<and>
    (\<forall>c \<in> set cs. 1 \<le> unat (ck_chunk_size c) \<and> unat (ck_chunk_size c) \<le> unat C) \<and>
    (\<Sum>c\<leftarrow>cs. unat (ck_chunk_size c)) = unat F"
proof -
  define q where "q = (unat F + unat C - 1) div unat C"
  have r: "0 < unat F" "0 < unat C" "C \<noteq> 0" using assms(4) by (auto simp: sizes_in_range_def)
  have tot: "total_chunks_of F C = int q"
    unfolding q_def by (rule total_chunks_of_unat [OF assms(4)])
  note b = ceil_div_bounds [OF r(1,2), folded q_def]
  let ?mk = "\<lambda>i::nat. make_chunk tid F C (int q) (int i) (junk (int i))"
  have m: "min (nat (int q)) (MAX_CHUNKS - chunk_count s) = q"
    using assms(5) by (simp add: q_def)
  have e: "\<exists>s'. create_chunks stat_size junk (Some tid) C s = Some (int q, s') \<and>
      live_chunks s' = live_chunks s @ map ?mk [0..<q]"
    using create_chunks_effect [where stat_size = stat_size and junk = junk, OF assms(1,2,3) r(3)]
    unfolding tot m by blast
  have sz: "unat (ck_chunk_size (?mk i)) = (if i = q - 1 then unat F - (q - 1) * unat C else unat C)"
    if "i < q" for i
    using make_chunk_size [OF assms(4), folded q_def, OF that] tot by simp
  have "unat F - (q - 1) * unat C \<le> unat C"
  proof -
    have "q * unat C = (q - 1) * unat C + unat C" using b(1) by (cases q) simp_all
    with b(3) show ?thesis by linarith
  qed
  with sz b(2) r(2) have bounds: "1 \<le> unat (ck_chunk_size (?mk i)) \<and> unat (ck_chunk_size (?mk i)) \<le> unat C"
    if "i < q" for i using that by (simp add: Suc_le_eq)
  have avail: "chunk_available (?mk i)" for i
    using assms(7) by (simp add: make_chunk_def chunk_available_def)
  have sum: "(\<Sum>c\<leftarrow>map ?mk [0..<q]. unat (ck_chunk_size c)) = unat F"
    using make_chunk_sizes_sum [OF assms(4), folded q_def, where junk = "\<lambda>i. junk (int i)"] tot
    by (simp add: interv_sum_list_conv_sum_set_nat atLeast0LessThan o_def)
  from e obtain s' where s': "create_chunks stat_size junk (Some tid) C s = Some (int q, s')"
    "live_chunks s' = live_chunks s @ map ?mk [0..<q]" by blast
  show ?thesis
  proof (intro exI [of _ s'] exI [of _ "map ?mk [0..<q]"] conjI)
    show "\<forall>c \<in> set (map ?mk [0..<q]). str_eq (ck_task_id c) tid \<and> chunk_available c \<and>
        ck_total_chunks c = int (length (map ?mk [0..<q]))"
      using avail make_chunk_task_id [OF assms(6)] assms(7) by (auto simp: make_chunk_def)
  qed (use s' b(1) bounds sum in \<open>auto simp: make_chunk_def\<close>)
qed

theorem create_chunks_partition_witness:
  "\<exists>s' cs. create_chunks (\<lambda>f. Some 10) (\<lambda>i. demo_chunk) (Some ''a'') 4 (demo_sched ''a'')
     = Some (int (length cs), s') \<and> live_chunks s' = live_chunks (demo_sched ''a'') @ cs \<and>
     (\<Sum>c\<leftarrow>cs. unat (ck_chunk_size c)) = unat (10::u64)"
proof -
  have g: "get_task (Some ''a'') (demo_sched ''a'') = Some 0" by (rule demo_sched_get) simp_all
  have r: "sizes_in_range 10 4" by (simp add: sizes_in_range_def)
  have room: "chunk_count (demo_sched ''a'') + (unat (10::u64) + unat (4::u64) - 1) div unat (4::u64)
      \<le> MAX_CHUNKS" by (simp add: demo_sched_facts MAX_CHUNKS_def)
  have j: "\<forall>i::int. length (ck_task_id demo_chunk) = 64 \<and> length (ck_assigned_employee demo_chunk) = 64"
    by (simp add: demo_chunk_def)
  have l: "length (cstr ''a'') < 63" by (simp add: cstr_id)
  show ?thesis
    using create_chunks_partition [where stat_size = "\<lambda>f. Some 10" and junk = "\<lambda>i. demo_chunk",
        OF demo_sched_facts(1) g refl r room l j] by blast
qed

text \<open>when the chunk table has less room than the file needs, \<open>create_chunks\<close> still returns the
  full number of chunks: fewer are stored, the task counts as chunked, and the bytes of the missing
  chunks belong to no chunk.\<close>
theorem create_chunks_full_table:
  assumes "sched_inv s" and "get_task (Some tid) s = Some k"
    and "stat_size (cstr (td_input_file (tasks s ! k))) = Some F" and "sizes_in_range F C"
    and "MAX_CHUNKS < chunk_count s + (unat F + unat C - 1) div unat C"
  shows "\<exists>s' cs tot. create_chunks stat_size junk (Some tid) C s = Some (tot, s') \<and>
    live_chunks s' = live_chunks s @ cs \<and> int (length cs) < tot \<and> chunk_count s' = MAX_CHUNKS \<and>
    (\<Sum>c\<leftarrow>cs. unat (ck_chunk_size c)) < unat F"
proof -
  define q where "q = (unat F + unat C - 1) div unat C"
  define m where "m = MAX_CHUNKS - chunk_count s"
  have r: "0 < unat F" "0 < unat C" "C \<noteq> 0" using assms(4) by (auto simp: sizes_in_range_def)
  have tot: "total_chunks_of F C = int q"
    unfolding q_def by (rule total_chunks_of_unat [OF assms(4)])
  have mq: "m < q" using assms(1,5) unfolding q_def m_def sched_inv_def by linarith
  let ?mk = "\<lambda>i::nat. make_chunk tid F C (int q) (int i) (junk (int i))"
  have min: "min (nat (int q)) (MAX_CHUNKS - chunk_count s) = m" using mq by (simp add: m_def)
  have "\<exists>s'. create_chunks stat_size junk (Some tid) C s = Some (int q, s') \<and>
      live_chunks s' = live_chunks s @ map ?mk [0..<m] \<and> chunk_count s' = chunk_count s + m"
    using create_chunks_effect [where stat_size = stat_size and junk = junk, OF assms(1,2,3) r(3)]
    unfolding tot min by blast
  moreover have "chunk_count s + m = MAX_CHUNKS" using assms(1) by (simp add: m_def sched_inv_def)
  moreover have "(\<Sum>c\<leftarrow>map ?mk [0..<m]. unat (ck_chunk_size c)) < unat F"
  proof -
    have "unat (ck_chunk_size (?mk i)) = unat C" if "i < m" for i
      using make_chunk_size [OF assms(4), folded q_def, of i] mq that tot by auto
    then have "map (unat \<circ> ck_chunk_size) (map ?mk [0..<m]) = map (\<lambda>i. unat C) [0..<m]" by simp
    then have "(\<Sum>c\<leftarrow>map ?mk [0..<m]. unat (ck_chunk_size c)) = (\<Sum>i\<leftarrow>[0..<m]. unat C)"
      by (simp add: o_def del: map_map)
    also have "\<dots> = m * unat C" by (simp add: sum_list_triv)
    also have "\<dots> \<le> (q - 1) * unat C" using mq by (intro mult_le_mono1) simp
    also have "\<dots> < unat F" using ceil_div_bounds(2) [OF r(1,2)] by (simp add: q_def)
    finally show ?thesis .
  qed
  ultimately show ?thesis using mq by fastforce
qed

theorem create_chunks_full_table_witness:
  "\<exists>s' cs tot. create_chunks (\<lambda>f. Some 1001) (\<lambda>i. demo_chunk) (Some ''a'') 1 (demo_sched ''a'')
     = Some (tot, s') \<and> live_chunks s' = cs \<and> int (length cs) < tot"
proof -
  have "sizes_in_range 1001 1" by (simp add: sizes_in_range_def)
  moreover have "MAX_CHUNKS < chunk_count (demo_sched ''a'') + (unat (1001::u64) + unat (1::u64) - 1) div unat (1::u64)"
    by (simp add: demo_sched_facts MAX_CHUNKS_def)
  moreover have "get_task (Some ''a'') (demo_sched ''a'') = Some 0" by (rule demo_sched_get) simp_all
  ultimately show ?thesis
    using create_chunks_full_table [OF demo_sched_facts(1) [of "''a''"], of "''a''" 0 "\<lambda>f. Some 1001" 1001 1
        "\<lambda>i. demo_chunk"] by (fastforce simp: demo_sched_facts)
qed



text \<open>C11: with room for all of them, \<open>get_pending_tasks\<close> returns the indices of exactly the tasks
  that are not chunked or for which \<open>get_chunk_status\<close> counts fewer completed chunks than chunks.\<close>
theorem pending_iff_incomplete:
  assumes "sched_inv s" and "int (task_count s) \<le> room"
  shows "\<exists>out. get_pending_tasks True room s = (int (length out), out) \<and> distinct out \<and>
    set out = {k. k < task_count s \<and>
      (\<not> td_is_chunked (live_tasks s ! k) \<or>
       (\<exists>done tot. get_chunk_status (Some (td_task_id (live_tasks s ! k))) True s = (0, Some (done, tot))
          \<and> done < tot))}"
proof -
  have st: "(\<exists>done tot. get_chunk_status (Some (td_task_id t)) True s = (0, Some (done, tot)) \<and> done < tot)
      \<longleftrightarrow> has_incomplete s t" for t
    using completed_lt_total [of "\<lambda>k. str_eq (ck_task_id k) (td_task_id t)" ck_is_completed "live_chunks s"]
    by (auto simp: get_chunk_status_def count_status_counts has_incomplete_def)
  have "pending_from s 0 room (live_tasks s)
      = filter (\<lambda>k. has_incomplete s (live_tasks s ! k) \<or> \<not> td_is_chunked (live_tasks s ! k)) [0..<task_count s]"
    using assms by (subst pending_from_filter) (simp_all add: live_lengths map_idI)
  then show ?thesis by (auto simp: get_pending_tasks_def Let_def st)
qed

theorem pending_iff_incomplete_witness:
  "\<exists>out. get_pending_tasks True 100 (demo_sched ''a'') = (int (length out), out) \<and> set out = {0}"
proof -
  have "int (task_count (demo_sched ''a'')) \<le> 100"
    using demo_sched_facts(1) [of "''a''"] by (simp add: sched_inv_def MAX_TASKS_def)
  from pending_iff_incomplete [OF demo_sched_facts(1) this]
  obtain out where o: "get_pending_tasks True 100 (demo_sched ''a'') = (int (length out), out)"
    "set out = {k. k < task_count (demo_sched ''a'') \<and>
      (\<not> td_is_chunked (live_tasks (demo_sched ''a'') ! k) \<or>
       (\<exists>done tot. get_chunk_status (Some (td_task_id (live_tasks (demo_sched ''a'') ! k))) True (demo_sched ''a'')
         = (0, Some (done, tot)) \<and> done < tot))}" by blast
  have "task_count (demo_sched ''a'') = 1"
    using live_lengths [OF demo_sched_facts(1) [of "''a''"]] by (simp add: demo_sched_facts)
  with o show ?thesis by (auto simp: demo_sched_facts demo_task_def)
qed

text \<open>C12: \<open>select_best_employee\<close> returns the index of an available employee whose score is above -1
  and is exceeded by no available employee's, and returns -1 exactly when no available employee
  scores above -1 (under the load-balanced policy an available but loaded employee can).\<close>
theorem select_best_is_best:
  assumes "d_order D" and "0 < count" and "int (length es) = count"
  shows "let score = (\<lambda>k. employee_score D difftime (now k) (current_policy s) t (es ! k));
             r = select_best_employee D difftime now (Some es) count (Some t) s
         in (r = -1 \<and> (\<forall>k < length es. ei_is_available (es ! k) \<longrightarrow> \<not> d_gt D (score k) (d_of_int D (-1)))) \<or>
            (\<exists>k < length es. r = int k \<and> ei_is_available (es ! k) \<and> d_gt D (score k) (d_of_int D (-1)) \<and>
              (\<forall>j < length es. ei_is_available (es ! j) \<longrightarrow> \<not> d_gt D (score j) (score k)))"
  using best_from_max [OF assms(1), of "\<lambda>i. employee_score D difftime (now i) (current_policy s) t"
      0 es "-1" "d_of_int D (-1)"] assms(2,3)
  by (simp add: select_best_employee_def Let_def)

definition demo_employee :: "int \<Rightarrow> int \<Rightarrow> int employee_info_t" where
  "demo_employee usage active = \<lparr>ei_employee_id = zbuf 64 ''e'', ei_ip_address = zbuf 64 ''1'',
     ei_cpu_usage = usage, ei_memory_usage = usage, ei_active_tasks = active, ei_last_seen = 0,
     ei_is_available = True\<rparr>"

theorem select_best_is_best_witness:
  "select_best_employee int_double (-) (\<lambda>k. 0) (Some [demo_employee 90 3]) 1 (Some (demo_task ''a''))
     (snd (set_scheduling_policy SCHEDULE_LOAD_BALANCED (demo_sched ''a''))) = -1"
  using select_best_is_best [OF int_double_order, of 1 "[demo_employee 90 3]" "(-)" "\<lambda>k. 0"
      "snd (set_scheduling_policy SCHEDULE_LOAD_BALANCED (demo_sched ''a''))" "demo_task ''a''"]
  by (simp add: Let_def employee_score_def set_scheduling_policy_def int_double_def demo_employee_def)

text \<open>a task id of 56 characters or more leaves no room for the chunk number in the 64-byte chunk
  id: all chunks of the task get the same id, and once two live chunks share an id no call of
  \<open>mark_chunk_completed\<close>, with whatever id, completes the later one.\<close>
theorem long_ids_shadow_chunks:
  assumes "sched_inv s" and "56 \<le> length (cstr tid)"
    and "i < j" and "j < chunk_count s"
    and "ck_chunk_id (live_chunks s ! i) = ck_chunk_id (make_chunk tid F C tot a junk)"
    and "ck_chunk_id (live_chunks s ! j) = ck_chunk_id (make_chunk tid F C tot b junk')"
  shows "live_chunks (snd (mark_chunk_completed c s)) ! j = live_chunks s ! j"
proof -
  have "take 63 (chunk_id_text tid x) = take 63 (cstr tid @ ''_chunk_'')" for x
    unfolding chunk_id_text_def append_assoc [symmetric]
    by (rule take_append_long) (use assms(2) in simp)
  then have "take 63 (chunk_id_text tid a) = take 63 (chunk_id_text tid b)" by simp
  then have same: "cstr (ck_chunk_id (live_chunks s ! i)) = cstr (ck_chunk_id (live_chunks s ! j))"
    unfolding assms(5,6) make_chunk_id by simp
  show ?thesis
  proof (cases c)
    case None
    then show ?thesis by (simp add: mark_chunk_completed_def)
  next
    case (Some cid)
    show ?thesis
    proof (cases "find_index (\<lambda>c. str_eq (ck_chunk_id c) cid) (live_chunks s)")
      case None
      with Some show ?thesis by (simp add: mark_chunk_completed_def)
    next
      case k: (Some k)
      from find_index_SomeD [OF k] assms(3) same have "k \<noteq> j"
        by (auto simp: str_eq_def)
      with Some mark_chunk_completed_at(2) [OF assms(1) k] show ?thesis by simp
    qed
  qed
qed

theorem long_ids_shadow_chunks_witness:
  "\<exists>s' cid. ck_is_completed (live_chunks s' ! 1) = False \<and> chunk_count s' = 2 \<and>
     cid = ck_chunk_id (live_chunks s' ! 1) \<and>
     live_chunks (snd (mark_chunk_completed (Some cid) s')) ! 1 = live_chunks s' ! 1"
proof -
  let ?tid = "replicate 60 CHR ''a''"
  let ?s = "demo_sched ?tid"
  have g: "get_task (Some ?tid) ?s = Some 0" by (rule demo_sched_get) simp_all
  have "sizes_in_range 8 4" by (simp add: sizes_in_range_def)
  then have tot: "total_chunks_of 8 4 = 2" by (simp add: total_chunks_of_unat)
  have min: "min (nat 2) (MAX_CHUNKS - chunk_count ?s) = 2"
    by (simp add: demo_sched_facts MAX_CHUNKS_def)
  let ?mk = "\<lambda>i::nat. make_chunk ?tid 8 4 2 (int i) demo_chunk"
  obtain s' where s': "live_chunks s' = map ?mk [0..<2]" "chunk_count s' = 2" "sched_inv s'"
    using create_chunks_effect [where stat_size = "\<lambda>f. Some 8" and junk = "\<lambda>i. demo_chunk"
        and chunk_size = 4, OF demo_sched_facts(1) g refl]
    unfolding tot min by (auto simp: demo_sched_facts)
  have "56 \<le> length (cstr ?tid)" by (simp add: cstr_id)
  from long_ids_shadow_chunks [OF s'(3) this, of 0 1 8 4 2 0 demo_chunk 1 demo_chunk
      "Some (ck_chunk_id (live_chunks s' ! 1))"] s'
  show ?thesis by (intro exI [of _ s'] exI [of _ "ck_chunk_id (live_chunks s' ! 1)"])
      (simp add: nth_map make_chunk_def)
qed

end
