(* ===== verification/Volcom_Io.thy ===== *)
theory Volcom_Io
  imports Volcom_CString
begin

text \<open>
  The operating system as the program sees it. A stream socket is the bytes the peer sends
  (\<open>rx\<close>, those not yet read), the bytes written to it (\<open>tx\<close>), and the kernel's choices
  (\<open>plan\<close>): each call takes the next one, a negative choice is an error return, another bounds
  how many bytes the call moves; with no choice left a call moves all it can. A read with nothing
  left to come is the end of the stream. Descriptors are numbers, and a descriptor table lists the
  open ones; every other system call answers as the list of its results says.
\<close>

section \<open>Stream sockets\<close>

type_synonym bytes = "char list"

record conn =
  rx :: bytes
  tx :: bytes
  plan :: "int list"

text \<open>How many of \<open>m\<close> possible bytes the next call moves; at least one when there is one.\<close>

fun served :: "int list \<Rightarrow> nat \<Rightarrow> nat option" where
  "served [] m = Some m"
| "served (k # ks) m = (if k < 0 then None else Some (min m (max 1 (nat k))))"

definition sk_read :: "nat \<Rightarrow> conn \<Rightarrow> int \<times> bytes \<times> conn" where
  "sk_read n c =
     (case served (plan c) (min n (length (rx c))) of
        None \<Rightarrow> (-1, [], c\<lparr>plan := tl (plan c)\<rparr>)
      | Some m \<Rightarrow> (int m, take m (rx c), c\<lparr>rx := drop m (rx c), plan := tl (plan c)\<rparr>))"

text \<open>\<open>recv\<close> with \<open>MSG_PEEK\<close>: the bytes stay in the stream.\<close>

definition sk_peek :: "nat \<Rightarrow> conn \<Rightarrow> int \<times> bytes \<times> conn" where
  "sk_peek n c =
     (case served (plan c) (min n (length (rx c))) of
        None \<Rightarrow> (-1, [], c\<lparr>plan := tl (plan c)\<rparr>)
      | Some m \<Rightarrow> (int m, take m (rx c), c\<lparr>plan := tl (plan c)\<rparr>))"

definition sk_write :: "bytes \<Rightarrow> conn \<Rightarrow> int \<times> conn" where
  "sk_write bs c =
     (case served (plan c) (length bs) of
        None \<Rightarrow> (-1, c\<lparr>plan := tl (plan c)\<rparr>)
      | Some m \<Rightarrow> (int m, c\<lparr>tx := tx c @ take m bs, plan := tl (plan c)\<rparr>))"

text \<open>A socket whose calls do not fail, and one whose calls are served whole up to \<open>n\<close> bytes.\<close>

definition willing :: "conn \<Rightarrow> bool" where
  "willing c \<longleftrightarrow> (\<forall>k \<in> set (plan c). 0 \<le> k)"

definition serves :: "nat \<Rightarrow> conn \<Rightarrow> bool" where
  "serves n c \<longleftrightarrow> (case plan c of [] \<Rightarrow> True | k # _ \<Rightarrow> int n \<le> k)"

lemma served_le: "served ks m = Some k \<Longrightarrow> k \<le> m"
  by (cases ks) (auto split: if_splits)

lemma served_pos: "served ks m = Some k \<Longrightarrow> 0 < m \<Longrightarrow> 0 < k"
  by (cases ks) (auto split: if_splits)

lemma served_zero: "served ks 0 = Some k \<Longrightarrow> k = 0"
  by (cases ks) (auto split: if_splits)

lemma willing_tl [simp]: "willing c \<Longrightarrow> willing (c\<lparr>plan := tl (plan c)\<rparr>)"
  and willing_rx [simp]: "willing (c\<lparr>rx := r\<rparr>) = willing c"
  and willing_tx [simp]: "willing (c\<lparr>tx := t\<rparr>) = willing c"
  by (cases "plan c"; simp add: willing_def)+

lemma willing_rx_tl: "willing c \<Longrightarrow> willing (c\<lparr>rx := r, plan := tl (plan c)\<rparr>)"
  by (cases "plan c") (simp_all add: willing_def)

lemma willing_served: "willing c \<Longrightarrow> \<exists>k. served (plan c) m = Some k"
  by (cases "plan c") (auto simp: willing_def)

lemma serves_served: "serves n c \<Longrightarrow> m \<le> n \<Longrightarrow> served (plan c) m = Some m"
  by (cases "plan c") (auto simp: serves_def)

lemma sk_read_length:
  "sk_read n c = (k, bs, c') \<Longrightarrow> 0 \<le> k \<Longrightarrow>
     int (length bs) = k \<and> length bs \<le> n \<and> rx c = bs @ rx c' \<and> tx c' = tx c \<and> plan c' = tl (plan c)"
  by (auto simp: sk_read_def dest: served_le split: option.splits)

lemma sk_read_willing:
  assumes "willing c" and "0 < n" and "rx c \<noteq> []"
  shows "\<exists>bs c'. sk_read n c = (int (length bs), bs, c') \<and> bs \<noteq> [] \<and> length bs \<le> n \<and>
     rx c = bs @ rx c' \<and> tx c' = tx c \<and> willing c'"
proof -
  obtain m where m: "served (plan c) (min n (length (rx c))) = Some m"
    using willing_served [OF assms(1)] by blast
  with assms served_pos [OF m] served_le [OF m] show ?thesis
    by (auto simp: sk_read_def willing_rx_tl)
qed

lemma sk_read_serves:
  "serves n c \<Longrightarrow> n \<le> length (rx c) \<Longrightarrow>
     sk_read n c = (int n, take n (rx c), c\<lparr>rx := drop n (rx c), plan := tl (plan c)\<rparr>)"
  by (simp add: sk_read_def serves_served)

lemma sk_peek_serves:
  "serves n c \<Longrightarrow> n \<le> length (rx c) \<Longrightarrow>
     sk_peek n c = (int n, take n (rx c), c\<lparr>plan := tl (plan c)\<rparr>)"
  by (simp add: sk_peek_def serves_served)

lemma sk_write_serves:
  "serves (length bs) c \<Longrightarrow> sk_write bs c = (int (length bs), c\<lparr>tx := tx c @ bs, plan := tl (plan c)\<rparr>)"
  by (simp add: sk_write_def serves_served)

lemma sk_write_tx:
  "sk_write bs c = (k, c') \<Longrightarrow> rx c' = rx c \<and> plan c' = tl (plan c) \<and>
     (k < 0 \<and> tx c' = tx c \<or> 0 \<le> k \<and> nat k \<le> length bs \<and> tx c' = tx c @ take (nat k) bs)"
  by (auto simp: sk_write_def dest: served_le split: option.splits)

section \<open>Network byte order\<close>

text \<open>\<open>htonl\<close> of a number followed by its four bytes in memory: most significant first.\<close>

definition be32 :: "nat \<Rightarrow> bytes" where
  "be32 n = [char_of (n div 2 ^ 24), char_of (n div 2 ^ 16), char_of (n div 2 ^ 8), char_of n]"

definition of_be32 :: "bytes \<Rightarrow> nat" where
  "of_be32 bs = foldl (\<lambda>v c. 256 * v + of_char c) 0 bs"

lemma length_be32 [simp]: "length (be32 n) = 4"
  by (simp add: be32_def)

lemma div_mod_256: "256 * (n div 256) + n mod 256 = (n::nat)"
  by (rule mult_div_mod_eq)

lemma of_be32_be32 [simp]: "n < 2 ^ 32 \<Longrightarrow> of_be32 (be32 n) = n"
proof -
  assume n: "n < 2 ^ 32"
  define a where "a = n div 256"
  define b where "b = a div 256"
  define d where "d = b div 256"
  have powers: "n div 2 ^ 8 = a" "n div 2 ^ 16 = b" "n div 2 ^ 24 = d"
    by (simp_all add: a_def b_def d_def div_mult2_eq [symmetric])
  have "d < 256" unfolding powers(3) [symmetric] using n by (intro less_mult_imp_div_less) simp
  then have "of_be32 (be32 n) = 256 * (256 * (256 * d + b mod 256) + a mod 256) + n mod 256"
    unfolding be32_def of_be32_def powers by (simp add: of_char_of)
  also have "\<dots> = n"
    using div_mod_256 [of n] div_mod_256 [of a] div_mod_256 [of b]
    unfolding a_def [symmetric] b_def [symmetric] d_def [symmetric] by simp
  finally show ?thesis .
qed

section \<open>Descriptors and system calls\<close>

text \<open>A socket address: what the code puts into a \<open>sockaddr_in\<close> (host text and port, or any
  address) or a \<open>sockaddr_un\<close> (the 108-byte path).\<close>

datatype addr = Addr_inet string int | Addr_any int | Addr_unix "char list"

datatype syscall =
    Sys_setsockopt int string
  | Sys_bind int addr
  | Sys_listen int int
  | Sys_connect int addr
  | Sys_sendto int bytes addr
  | Sys_unlink string

text \<open>\<open>os_open\<close>: the open descriptors; \<open>os_answers\<close>: the results of the coming calls, negative
  for failure, success when none is left; \<open>os_log\<close>: the calls made, oldest first; \<open>os_conn\<close>: the
  stream behind a descriptor.\<close>

record os =
  os_open :: "int list"
  os_answers :: "int list"
  os_log :: "syscall list"
  os_conn :: "int \<Rightarrow> conn"

definition sys_fails :: "os \<Rightarrow> bool" where
  "sys_fails w \<longleftrightarrow> (case os_answers w of [] \<Rightarrow> False | a # _ \<Rightarrow> a < 0)"

definition sys_done :: "os \<Rightarrow> os" where
  "sys_done w = w\<lparr>os_answers := tl (os_answers w)\<rparr>"

text \<open>POSIX returns the lowest descriptor that is not open.\<close>

definition lowest_fd :: "int list \<Rightarrow> int" where
  "lowest_fd fds = hd (filter (\<lambda>n. n \<notin> set fds) [0..int (length fds)])"

text \<open>\<open>socket\<close> and \<open>accept\<close>.\<close>

definition sys_open :: "os \<Rightarrow> int \<times> os" where
  "sys_open w =
     (if sys_fails w then (-1, sys_done w)
      else (let fd = lowest_fd (os_open w)
            in (fd, (sys_done w)\<lparr>os_open := fd # os_open w\<rparr>)))"

text \<open>A call that only succeeds or fails.\<close>

definition sys_call :: "syscall \<Rightarrow> os \<Rightarrow> int \<times> os" where
  "sys_call c w =
     (if sys_fails w then -1 else 0, (sys_done w)\<lparr>os_log := os_log w @ [c]\<rparr>)"

definition sys_pton :: "os \<Rightarrow> int \<times> os" where
  "sys_pton w = (if sys_fails w then 0 else 1, sys_done w)"

definition sys_close :: "int \<Rightarrow> os \<Rightarrow> os" where
  "sys_close fd w = w\<lparr>os_open := filter (\<lambda>f. f \<noteq> fd) (os_open w)\<rparr>"

text \<open>\<open>send\<close> and \<open>recv\<close> on a descriptor.\<close>

definition sys_send :: "int \<Rightarrow> bytes \<Rightarrow> os \<Rightarrow> int \<times> os" where
  "sys_send fd bs w =
     (if fd \<in> set (os_open w)
      then (case sk_write bs (os_conn w fd) of (k, c) \<Rightarrow> (k, w\<lparr>os_conn := (os_conn w)(fd := c)\<rparr>))
      else (-1, w))"

definition sys_recv :: "int \<Rightarrow> nat \<Rightarrow> os \<Rightarrow> int \<times> bytes \<times> os" where
  "sys_recv fd n w =
     (if fd \<in> set (os_open w)
      then (case sk_read n (os_conn w fd) of (k, bs, c) \<Rightarrow> (k, bs, w\<lparr>os_conn := (os_conn w)(fd := c)\<rparr>))
      else (-1, [], w))"

lemma lowest_fd_fresh [simp]: "lowest_fd fds \<notin> set fds" and lowest_fd_nonneg [simp]: "0 \<le> lowest_fd fds"
proof -
  let ?xs = "filter (\<lambda>n. n \<notin> set fds) [0..int (length fds)]"
  have "\<not> {0..int (length fds)} \<subseteq> set fds"
  proof
    assume "{0..int (length fds)} \<subseteq> set fds"
    then have "card {0..int (length fds)} \<le> card (set fds)" by (intro card_mono) simp_all
    also have "\<dots> \<le> length fds" by (rule card_length)
    finally show False by simp
  qed
  then have "?xs \<noteq> []" by (auto simp: filter_empty_conv)
  then have "hd ?xs \<in> set ?xs" by (rule hd_in_set)
  then show "lowest_fd fds \<notin> set fds" and "0 \<le> lowest_fd fds" by (simp_all add: lowest_fd_def)
qed

lemma sys_done_simps [simp]: "os_open (sys_done w) = os_open w" "os_log (sys_done w) = os_log w"
    "os_conn (sys_done w) = os_conn w"
  by (simp_all add: sys_done_def)

lemma sys_open_cases:
  "sys_open w = (fd, w') \<Longrightarrow>
     (fd < 0 \<and> os_open w' = os_open w \<or> 0 \<le> fd \<and> fd \<notin> set (os_open w) \<and> os_open w' = fd # os_open w) \<and>
     os_log w' = os_log w \<and> os_conn w' = os_conn w"
  by (auto simp: sys_open_def Let_def split: if_splits)

lemma sys_call_frame:
  "sys_call c w = (r, w') \<Longrightarrow> os_open w' = os_open w \<and> os_log w' = os_log w @ [c] \<and> os_conn w' = os_conn w"
  by (auto simp: sys_call_def)

lemma sys_call_snd [simp]: "os_open (snd (sys_call c w)) = os_open w"
    "os_log (snd (sys_call c w)) = os_log w @ [c]" "os_conn (snd (sys_call c w)) = os_conn w"
  by (simp_all add: sys_call_def)

lemma sys_pton_frame:
  "sys_pton w = (r, w') \<Longrightarrow> os_open w' = os_open w \<and> os_log w' = os_log w \<and> os_conn w' = os_conn w"
  by (auto simp: sys_pton_def)

lemma sys_close_open [simp]: "os_open (sys_close fd w) = filter (\<lambda>f. f \<noteq> fd) (os_open w)"
    "os_log (sys_close fd w) = os_log w" "os_conn (sys_close fd w) = os_conn w"
  by (simp_all add: sys_close_def)

lemma filter_fresh: "fd \<notin> set fds \<Longrightarrow> filter (\<lambda>f. f \<noteq> fd) fds = fds"
  by (induction fds) auto

lemma sys_send_open: "sys_send fd bs w = (k, w') \<Longrightarrow> os_open w' = os_open w \<and> os_log w' = os_log w"
  by (auto simp: sys_send_def split: if_splits prod.splits)

lemma sys_recv_open: "sys_recv fd n w = (k, bs, w') \<Longrightarrow> os_open w' = os_open w \<and> os_log w' = os_log w"
  by (auto simp: sys_recv_def split: if_splits prod.splits)

lemmas sys_frames = sys_call_frame sys_pton_frame sys_send_open sys_recv_open

end
