(* ===== verification/Protocol.thy ===== *)
theory Protocol
  imports Volcom_Io
begin

text \<open>
  \<open>volcom_net/protocol.c\<close>: JSON messages framed by a four-byte length, the metadata of tasks and
  results, TCP and UDP set-up, and the messages over Unix sockets. cJSON is a third-party library:
  its operations are a parameter, and what the code relies on is the hypothesis \<open>json_text\<close>.
\<close>

section \<open>Data\<close>

datatype protocol_status_t = PROTOCOL_OK | PROTOCOL_ERR | PROTOCOL_CONN_CLOSED

definition MAX_JSON_SIZE :: nat where "MAX_JSON_SIZE = 65536"

record connection_info_t =
  cn_sockfd :: int
  cn_peer_ip :: "char list"
  cn_peer_port :: int
  cn_connect_time :: int

text \<open>The cJSON calls of the program: \<open>cJSON_CreateObject\<close>, \<open>cJSON_AddStringToObject\<close>,
  \<open>cJSON_AddNumberToObject\<close>, \<open>cJSON_PrintUnformatted\<close> (\<open>None\<close> when it fails),
  \<open>cJSON_Parse\<close>, \<open>cJSON_HasObjectItem\<close>, and \<open>cJSON_GetObjectItem\<close> with \<open>cJSON_IsString\<close> or \<open>cJSON_IsNumber\<close> and the
  value read.\<close>

record 'j json_ops =
  j_create :: 'j
  j_add_string :: "'j \<Rightarrow> string \<Rightarrow> string \<Rightarrow> 'j"
  j_add_number :: "'j \<Rightarrow> string \<Rightarrow> int \<Rightarrow> 'j"
  j_print :: "'j \<Rightarrow> string option"
  j_parse :: "string \<Rightarrow> 'j option"
  j_string :: "'j \<Rightarrow> string \<Rightarrow> string option"
  j_number :: "'j \<Rightarrow> string \<Rightarrow> int option"
  j_has :: "'j \<Rightarrow> string \<Rightarrow> bool"

text \<open>What the library documents of printing and parsing: the text of \<open>j\<close> is \<open>s\<close>, a C string that
  is not empty, and parsing it gives \<open>j\<close> back.\<close>

definition json_text :: "'j json_ops \<Rightarrow> 'j \<Rightarrow> string \<Rightarrow> bool" where
  "json_text J j s \<longleftrightarrow> j_print J j = Some s \<and> j_parse J s = Some j \<and> NUL \<notin> set s \<and> s \<noteq> []"

text \<open>What it documents of objects: a new one has no item; an item added under a name the object does
  not have is found there; adding an item leaves the items of other names. Names are compared
  without regard to case, so the last law is for names without capital letters.\<close>

definition lower_key :: "string \<Rightarrow> bool" where
  "lower_key k \<longleftrightarrow> list_all (\<lambda>c. c \<notin> set ''ABCDEFGHIJKLMNOPQRSTUVWXYZ'') k"

definition json_object :: "'j json_ops \<Rightarrow> bool" where
  "json_object J \<longleftrightarrow>
     (\<forall>k. \<not> j_has J (j_create J) k) \<and>
     (\<forall>j k. \<not> j_has J j k \<longrightarrow> j_string J j k = None \<and> j_number J j k = None) \<and>
     (\<forall>j k v. \<not> j_has J j k \<longrightarrow> j_string J (j_add_string J j k v) k = Some v) \<and>
     (\<forall>j k v k'. lower_key k \<and> lower_key k' \<and> k \<noteq> k' \<longrightarrow>
        j_has J (j_add_string J j k v) k' = j_has J j k' \<and>
        j_string J (j_add_string J j k v) k' = j_string J j k' \<and>
        j_number J (j_add_string J j k v) k' = j_number J j k') \<and>
     (\<forall>j k v k'. lower_key k \<and> lower_key k' \<and> k \<noteq> k' \<longrightarrow>
        j_has J (j_add_number J j k v) k' = j_has J j k' \<and>
        j_string J (j_add_number J j k v) k' = j_string J j k')"

lemma json_object_create:
  assumes "json_object J"
  shows "\<not> j_has J (j_create J) k" "j_string J (j_create J) k = None" "j_number J (j_create J) k = None"
  using assms unfolding json_object_def by blast+

lemma json_object_same: "json_object J \<Longrightarrow> \<not> j_has J j k \<Longrightarrow> j_string J (j_add_string J j k v) k = Some v"
  unfolding json_object_def by blast

lemma json_object_other:
  assumes "json_object J" and "lower_key k" and "lower_key k'" and "k \<noteq> k'"
  shows "j_has J (j_add_string J j k v) k' = j_has J j k'"
    "j_string J (j_add_string J j k v) k' = j_string J j k'"
    "j_number J (j_add_string J j k v) k' = j_number J j k'"
    "j_has J (j_add_number J j k n) k' = j_has J j k'"
    "j_string J (j_add_number J j k n) k' = j_string J j k'"
  using assms unfolding json_object_def by blast+

text \<open>A list of named items as an instance; its one message prints as a chosen text.\<close>

datatype json_item = Item_string string | Item_number int

definition list_json :: "(string \<times> json_item) list \<Rightarrow> string \<Rightarrow> (string \<times> json_item) list json_ops" where
  "list_json m s = \<lparr>j_create = [], j_add_string = (\<lambda>j k v. j @ [(k, Item_string v)]),
     j_add_number = (\<lambda>j k v. j @ [(k, Item_number v)]), j_print = (\<lambda>j. Some s),
     j_parse = (\<lambda>t. if t = s then Some m else None),
     j_string = (\<lambda>j k. case map_of j k of Some (Item_string v) \<Rightarrow> Some v | _ \<Rightarrow> None),
     j_number = (\<lambda>j k. case map_of j k of Some (Item_number v) \<Rightarrow> Some v | _ \<Rightarrow> None),
     j_has = (\<lambda>j k. map_of j k \<noteq> None)\<rparr>"

lemma list_json_object: "json_object (list_json m s)"
  by (auto simp: json_object_def list_json_def map_add_def split: option.splits)

section \<open>Framed messages\<close>

text \<open>\<open>len\<close> is a \<open>uint32_t\<close>: the length of the text modulo \<open>2 ^ 32\<close>.\<close>

definition send_json :: "'j json_ops \<Rightarrow> 'j \<Rightarrow> conn \<Rightarrow> protocol_status_t \<times> conn" where
  "send_json J json c =
     (case j_print J json of
        None \<Rightarrow> (PROTOCOL_ERR, c)
      | Some json_str \<Rightarrow>
          (let len = length (cstr json_str) mod 2 ^ 32;
               (n, c) = sk_write (be32 len) c
           in if n \<noteq> 4 then (PROTOCOL_ERR, c)
              else (let (n, c) = sk_write (take len (cstr json_str)) c
                    in if n \<noteq> int len then (PROTOCOL_ERR, c) else (PROTOCOL_OK, c))))"

text \<open>The loop of \<open>recv_json\<close>: \<open>buf\<close> holds the bytes received so far. \<open>None\<close> is an error or the end
  of the stream.\<close>

lemma read_shrinks [simp]: "a \<noteq> [] \<Longrightarrow> n < m \<Longrightarrow> m - (n + length a) < m - (n::nat)"
  by (cases a) auto

function recv_loop :: "nat \<Rightarrow> bytes \<Rightarrow> conn \<Rightarrow> bytes option \<times> conn" where
  "recv_loop len buf c =
     (if length buf < len
      then (case sk_read (len - length buf) c of
              (n, bs, c') \<Rightarrow> if n \<le> 0 then (None, c') else recv_loop len (buf @ bs) c')
      else (Some buf, c))"
  by pat_completeness auto
termination
  by (relation "measure (\<lambda>(len, buf, c). len - length buf)") (auto dest!: sk_read_length [OF sym])

declare recv_loop.simps [simp del]

text \<open>\<open>mem\<close> says whether \<open>malloc\<close> succeeds.\<close>

definition recv_json :: "'j json_ops \<Rightarrow> bool \<Rightarrow> conn \<Rightarrow> protocol_status_t \<times> 'j option \<times> conn" where
  "recv_json J mem c =
     (case sk_read 4 c of
        (n, hdr, c) \<Rightarrow>
          if n \<noteq> 4 then (PROTOCOL_ERR, None, c)
          else (let len = of_be32 hdr
                in if len = 0 \<or> len > 65536 then (PROTOCOL_ERR, None, c)
                   else if \<not> mem then (PROTOCOL_ERR, None, c)
                   else (case recv_loop len [] c of
                           (None, c) \<Rightarrow> (PROTOCOL_ERR, None, c)
                         | (Some buf, c) \<Rightarrow>
                             (let json_out = j_parse J (cstr buf)
                              in (if json_out \<noteq> None then PROTOCOL_OK else PROTOCOL_ERR, json_out, c)))))"

text \<open>\<open>out\<close> says whether the output pointer is valid.\<close>

definition recv_json_peek ::
    "'j json_ops \<Rightarrow> bool \<Rightarrow> bool \<Rightarrow> conn \<Rightarrow> protocol_status_t \<times> 'j option \<times> conn" where
  "recv_json_peek J mem out c =
     (if \<not> out then (PROTOCOL_ERR, None, c)
      else (case sk_peek 4 c of
        (n, hdr, c) \<Rightarrow>
          if n \<noteq> 4 then (if n = 0 then PROTOCOL_CONN_CLOSED else PROTOCOL_ERR, None, c)
          else (let len = of_be32 hdr
                in if len > MAX_JSON_SIZE then (PROTOCOL_ERR, None, c)
                   else if \<not> mem then (PROTOCOL_ERR, None, c)
                   else (case sk_peek (4 + len) c of
                      (n, buffer, c) \<Rightarrow>
                        if n \<noteq> int (4 + len) then (PROTOCOL_ERR, None, c)
                        else (case j_parse J (cstr (drop 4 buffer)) of
                                None \<Rightarrow> (PROTOCOL_ERR, None, c)
                              | Some json \<Rightarrow> (PROTOCOL_OK, Some json, c))))))"

section \<open>Metadata\<close>

definition create_task_metadata ::
    "'j json_ops \<Rightarrow> string \<Rightarrow> string \<Rightarrow> string \<Rightarrow> string \<Rightarrow> string \<Rightarrow> 'j" where
  "create_task_metadata J task_id chunk_filename sender_id receiver_id status =
     (let meta = j_create J;
          meta = j_add_string J meta ''type'' ''task'';
          meta = j_add_string J meta ''version'' ''1'';
          meta = j_add_string J meta ''task_id'' task_id;
          meta = j_add_string J meta ''chunk_filename'' chunk_filename;
          meta = j_add_string J meta ''sender_id'' sender_id;
          meta = j_add_string J meta ''receiver_id'' receiver_id
      in j_add_string J meta ''status'' status)"

definition create_result_metadata ::
    "'j json_ops \<Rightarrow> string \<Rightarrow> string \<Rightarrow> string \<Rightarrow> string \<Rightarrow> string \<Rightarrow> 'j" where
  "create_result_metadata J task_id chunk_filename sender_id receiver_id status =
     (let meta = j_create J;
          meta = j_add_string J meta ''type'' ''result'';
          meta = j_add_string J meta ''version'' ''1'';
          meta = j_add_string J meta ''task_id'' task_id;
          meta = j_add_string J meta ''chunk_filename'' chunk_filename;
          meta = j_add_string J meta ''sender_id'' sender_id;
          meta = j_add_string J meta ''receiver_id'' receiver_id
      in j_add_string J meta ''status'' status)"

section \<open>TCP and UDP\<close>

definition create_tcp_connection :: "string \<Rightarrow> int \<Rightarrow> os \<Rightarrow> int \<times> os" where
  "create_tcp_connection host port w =
     (let (sockfd, w) = sys_open w
      in if sockfd < 0 then (-1, w)
         else (let (r, w) = sys_pton w
               in if r \<le> 0 then (-1, sys_close sockfd w)
                  else (let (r, w) = sys_call (Sys_connect sockfd (Addr_inet host (port mod 2 ^ 16))) w
                        in if r < 0 then (-1, sys_close sockfd w) else (sockfd, w))))"

definition close_tcp_connection :: "int \<Rightarrow> os \<Rightarrow> os" where
  "close_tcp_connection sockfd w = (if sockfd \<ge> 0 then sys_close sockfd w else w)"

definition setup_udp_listener :: "int \<Rightarrow> os \<Rightarrow> int \<times> os" where
  "setup_udp_listener port w =
     (let (sockfd, w) = sys_open w
      in if sockfd < 0 then (-1, w)
         else (let (r, w) = sys_call (Sys_setsockopt sockfd ''SO_REUSEADDR'') w
               in if r < 0 then (-1, sys_close sockfd w)
                  else (let (r, w) = sys_call (Sys_bind sockfd (Addr_any (port mod 2 ^ 16))) w
                        in if r < 0 then (-1, sys_close sockfd w) else (sockfd, w))))"

text \<open>A datagram: its bytes and the sender's address as text; \<open>None\<close> when \<open>recvfrom\<close> fails. A
  datagram longer than the buffer is cut. \<open>buffer_size - 1\<close> wraps around for a buffer of no
  bytes, and writing the terminator outside the buffer has no defined result.\<close>

definition receive_udp_broadcast ::
    "(bytes \<times> string) option \<Rightarrow> char list \<Rightarrow> nat \<Rightarrow> char list option
     \<Rightarrow> (int \<times> char list \<times> char list option) option" where
  "receive_udp_broadcast datagram buffer buffer_size sender_ip =
     (case datagram of
        None \<Rightarrow> Some (-1, buffer, sender_ip)
      | Some (bs, from) \<Rightarrow>
          (let n = (if buffer_size = 0 then length bs else min (length bs) (buffer_size - 1))
           in if length buffer \<le> n then None
              else Some (int n, take n bs @ NUL # drop (Suc n) buffer,
                         map_option (\<lambda>ip. snprintf ip 16 from) sender_ip)))"

definition handle_connection ::
    "int \<Rightarrow> connection_info_t option \<Rightarrow> int \<times> connection_info_t option" where
  "handle_connection now conn_info =
     (case conn_info of
        None \<Rightarrow> (-1, None)
      | Some ci \<Rightarrow> (0, Some (ci\<lparr>cn_connect_time := now\<rparr>)))"

definition cleanup_connection ::
    "connection_info_t option \<Rightarrow> os \<Rightarrow> connection_info_t option \<times> os" where
  "cleanup_connection conn_info w =
     (case conn_info of
        None \<Rightarrow> (None, w)
      | Some ci \<Rightarrow>
          (let w = (if cn_sockfd ci \<ge> 0 then sys_close (cn_sockfd ci) w else w)
           in (Some \<lparr>cn_sockfd = 0, cn_peer_ip = replicate (length (cn_peer_ip ci)) NUL,
                     cn_peer_port = 0, cn_connect_time = 0\<rparr>, w)))"

definition send_udp_broadcast :: "char list \<Rightarrow> os \<Rightarrow> os" where
  "send_udp_broadcast message w =
     (let (sockfd, w) = sys_open w
      in if sockfd < 0 then w
         else (let (r, w) = sys_call (Sys_setsockopt sockfd ''SO_BROADCAST'') w
               in if r < 0 then sys_close sockfd w
                  else (let (r, w) = sys_call (Sys_sendto sockfd (cstr message)
                                       (Addr_inet ''255.255.255.255'' 9876)) w
                        in sys_close sockfd w)))"

section \<open>What framing guarantees\<close>

definition frame :: "string \<Rightarrow> bytes" where
  "frame s = be32 (length s) @ s"

text \<open>A reader whose calls deliver at least four bytes, or all there is.\<close>

definition patient :: "conn \<Rightarrow> bool" where
  "patient c \<longleftrightarrow> (\<forall>k \<in> set (plan c). 4 \<le> k)"

lemma patient_willing: "patient c \<Longrightarrow> willing c"
  by (auto simp: patient_def willing_def)

lemma patient_tl: "patient c \<Longrightarrow> plan c' = tl (plan c) \<Longrightarrow> patient c'"
  by (cases "plan c") (auto simp: patient_def)

lemma patient_serves: "patient c \<Longrightarrow> serves 4 c"
  by (cases "plan c") (auto simp: patient_def serves_def)

lemma recv_loop_ok:
  "patient c \<Longrightarrow> length buf \<le> len \<Longrightarrow> len - length buf \<le> length (rx c) \<Longrightarrow>
     \<exists>c'. recv_loop len buf c = (Some (buf @ take (len - length buf) (rx c)), c') \<and>
       rx c' = drop (len - length buf) (rx c) \<and> tx c' = tx c \<and> patient c'"
proof (induction len buf c rule: recv_loop.induct)
  case (1 len buf c)
  show ?case
  proof (cases "length buf < len")
    case False
    with "1.prems" show ?thesis by (simp add: recv_loop.simps [of len buf c])
  next
    case True
    with "1.prems" have "rx c \<noteq> []" "0 < len - length buf" by auto
    from sk_read_willing [OF patient_willing [OF "1.prems"(1)] this(2,1)] obtain bs c1 where
      r: "sk_read (len - length buf) c = (int (length bs), bs, c1)" "bs \<noteq> []"
      "length bs \<le> len - length buf" "rx c = bs @ rx c1" "tx c1 = tx c" by blast
    have p: "patient c1"
      using sk_read_length [OF r(1)] patient_tl [OF "1.prems"(1)] by simp
    have "\<exists>c'. recv_loop len (buf @ bs) c1
        = (Some ((buf @ bs) @ take (len - length (buf @ bs)) (rx c1)), c') \<and>
       rx c' = drop (len - length (buf @ bs)) (rx c1) \<and> tx c' = tx c1 \<and> patient c'"
      using "1.prems"(2,3) r True p by (intro "1.IH" [OF True r(1) [symmetric] refl]) auto
    with r True show ?thesis
      by (auto simp: recv_loop.simps [of len buf c])
  qed
qed

lemma send_json_OK:
  assumes "send_json J j c = (PROTOCOL_OK, c')" and "json_text J j s" and "length s < 2 ^ 32"
  shows "tx c' = tx c @ frame s \<and> rx c' = rx c"
proof -
  have s: "j_print J j = Some s" "cstr s = s" using assms(2) by (auto simp: json_text_def cstr_id)
  obtain n c1 where w: "sk_write (be32 (length s)) c = (n, c1)" by fastforce
  obtain m c2 where v: "sk_write s c1 = (m, c2)" by fastforce
  from assms(1,3) s w v have "n = 4" "m = int (length s)" "c2 = c'"
    by (auto simp: send_json_def Let_def split: if_splits)
  with sk_write_tx [OF w] sk_write_tx [OF v] show ?thesis by (auto simp: frame_def)
qed

lemma recv_json_frame:
  assumes "json_text J j s" and "length s \<le> 65536" and "patient d" and "rx d = frame s @ rest"
  shows "\<exists>d'. recv_json J True d = (PROTOCOL_OK, Some j, d') \<and> rx d' = rest \<and> patient d'"
proof -
  have s: "cstr s = s" "j_parse J s = Some j" "0 < length s"
    using assms(1) by (auto simp: json_text_def cstr_id)
  let ?d1 = "d\<lparr>rx := s @ rest, plan := tl (plan d)\<rparr>"
  have h: "sk_read 4 d = (4, be32 (length s), ?d1)"
    using sk_read_serves [OF patient_serves [OF assms(3)]] assms(4) by (simp add: frame_def)
  have "patient ?d1" using patient_tl [OF assms(3)] by simp
  from recv_loop_ok [OF this, of "[]" "length s"] obtain d' where
    "recv_loop (length s) [] ?d1 = (Some s, d')" "rx d' = rest" "patient d'" by auto
  with h s assms(2) show ?thesis by (simp add: recv_json_def Let_def)
qed

text \<open>Any number of messages over one connection.\<close>

fun send_msgs :: "'j json_ops \<Rightarrow> 'j list \<Rightarrow> conn \<Rightarrow> conn option" where
  "send_msgs J [] c = Some c"
| "send_msgs J (j # js) c =
     (case send_json J j c of (st, c') \<Rightarrow> if st = PROTOCOL_OK then send_msgs J js c' else None)"

fun recv_msgs :: "'j json_ops \<Rightarrow> nat \<Rightarrow> conn \<Rightarrow> ('j list \<times> conn) option" where
  "recv_msgs J 0 d = Some ([], d)"
| "recv_msgs J (Suc n) d =
     (case recv_json J True d of
        (st, Some j, d') \<Rightarrow>
          (if st = PROTOCOL_OK then map_option (\<lambda>(js, e). (j # js, e)) (recv_msgs J n d') else None)
      | (st, None, d') \<Rightarrow> None)"

lemma send_msgs_frames:
  "send_msgs J js c = Some c' \<Longrightarrow> \<forall>j \<in> set js. \<exists>s. json_text J j s \<and> length s \<le> 65536 \<Longrightarrow>
     \<exists>ss. list_all2 (\<lambda>j s. json_text J j s \<and> length s \<le> 65536) js ss \<and>
       tx c' = tx c @ concat (map frame ss)"
proof (induction js arbitrary: c)
  case Nil
  then show ?case by (intro exI [of _ "[]"]) simp
next
  case (Cons j js)
  obtain st c1 where o: "send_json J j c = (st, c1)" by fastforce
  with Cons.prems(1) have st: "st = PROTOCOL_OK" "send_msgs J js c1 = Some c'" by (auto split: if_splits)
  from Cons.prems(2) obtain s where s: "json_text J j s" "length s \<le> 65536" by auto
  have "tx c1 = tx c @ frame s" using send_json_OK [OF o [unfolded st] s(1)] s(2) by simp
  moreover from Cons.IH [OF st(2)] Cons.prems(2) obtain ss where
    "list_all2 (\<lambda>j s. json_text J j s \<and> length s \<le> 65536) js ss" "tx c' = tx c1 @ concat (map frame ss)"
    by auto
  ultimately show ?case using s by (intro exI [of _ "s # ss"]) simp
qed

lemma recv_msgs_frames:
  "list_all2 (\<lambda>j s. json_text J j s \<and> length s \<le> 65536) js ss \<Longrightarrow> patient d \<Longrightarrow>
     rx d = concat (map frame ss) @ rest \<Longrightarrow>
     \<exists>d'. recv_msgs J (length js) d = Some (js, d') \<and> rx d' = rest"
proof (induction js ss arbitrary: d rule: list_all2_induct)
  case Nil
  then show ?case by simp
next
  case (Cons j js s ss)
  from recv_json_frame [of J j s d "concat (map frame ss) @ rest"] Cons.hyps(1) Cons.prems obtain d1 where
    "recv_json J True d = (PROTOCOL_OK, Some j, d1)" "rx d1 = concat (map frame ss) @ rest" "patient d1"
    by auto
  moreover from Cons.IH [OF this(3,2)] obtain d' where
    "recv_msgs J (length js) d1 = Some (js, d')" "rx d' = rest" by blast
  ultimately show ?case by simp
qed

section \<open>Properties of the messages\<close>

text \<open>C13: whatever the write and read boundaries, messages sent one after the other over a connection
  are received one for one and in order, and the receiver consumes exactly their bytes: provided
  every \<open>send_json\<close> returns PROTOCOL_OK, the texts are at most 65536 bytes, and no read delivers
  fewer than four bytes while more are available.\<close>
theorem messages_roundtrip:
  assumes "\<forall>j \<in> set js. \<exists>s. json_text J j s \<and> length s \<le> 65536"
    and "send_msgs J js c = Some c'" and "tx c' = tx c @ sent"
    and "rx d = sent @ rest" and "patient d"
  shows "\<exists>d'. recv_msgs J (length js) d = Some (js, d') \<and> rx d' = rest"
proof -
  from send_msgs_frames [OF assms(2,1)] assms(3) obtain ss where
    "list_all2 (\<lambda>j s. json_text J j s \<and> length s \<le> 65536) js ss" "sent = concat (map frame ss)" by auto
  with recv_msgs_frames assms(4,5) show ?thesis by blast
qed

text \<open>A concrete JSON: a list of fields, printed one character per field.\<close>

definition demo_json :: "nat json_ops" where
  "demo_json = \<lparr>j_create = 0, j_add_string = (\<lambda>j k v. j + 1), j_add_number = (\<lambda>j k v. j + 1),
     j_print = (\<lambda>j. Some (replicate (Suc j) CHR ''x'')),
     j_parse = (\<lambda>s. if s = [] then None else Some (length s - 1)),
     j_string = (\<lambda>j k. None), j_number = (\<lambda>j k. None), j_has = (\<lambda>j k. True)\<rparr>"

lemma demo_json_text: "json_text demo_json j (replicate (Suc j) CHR ''x'')"
  by (simp add: json_text_def demo_json_def)

definition demo_conn :: "bytes \<Rightarrow> int list \<Rightarrow> conn" where
  "demo_conn bs ks = \<lparr>rx = bs, tx = [], plan = ks\<rparr>"

theorem messages_roundtrip_witness:
  "\<exists>c' d'. send_msgs demo_json [4, 7] (demo_conn [] []) = Some c' \<and>
     recv_msgs demo_json 2 (demo_conn (tx c' @ ''zz'') [4, 4, 100, 5]) = Some ([4, 7], d') \<and> rx d' = ''zz''"
proof -
  have "\<forall>j \<in> set [4, 7]. \<exists>s. json_text demo_json j s \<and> length s \<le> 65536"
    using demo_json_text [of 4] demo_json_text [of 7] by fastforce
  moreover have "\<exists>c'. send_msgs demo_json [4, 7] (demo_conn [] []) = Some c'"
    by (simp add: send_json_def demo_json_def demo_conn_def sk_write_def Let_def cstr_def)
  then obtain c' where c': "send_msgs demo_json [4, 7] (demo_conn [] []) = Some c'" by blast
  moreover have "patient (demo_conn (tx c' @ ''zz'') [4, 4, 100, 5])"
    by (simp add: patient_def demo_conn_def)
  ultimately have "\<exists>d'. recv_msgs demo_json (length [4, 7 :: nat]) (demo_conn (tx c' @ ''zz'') [4, 4, 100, 5])
      = Some ([4, 7], d') \<and> rx d' = ''zz''"
    by (intro messages_roundtrip) (auto simp: demo_conn_def)
  with c' show ?thesis by (simp add: numeral_2_eq_2 del: recv_msgs.simps send_msgs.simps)
qed

text \<open>\<open>recv_json\<close> takes the length prefix with a single read: when the first read delivers only
  one to three of its bytes, which TCP allows, it returns an error although the whole message is
  in the stream, and the rest of the prefix and the message stay there, to be read as the next
  prefix.\<close>
theorem short_header_read_loses_frame:
  assumes "json_text J j s" and "rx d = frame s @ rest" and "plan d = k # ks" and "1 \<le> k" and "k \<le> 3"
  shows "\<exists>d'. recv_json J mem d = (PROTOCOL_ERR, None, d') \<and>
    rx d' = drop (nat k) (be32 (length s)) @ s @ rest"
proof -
  have "served (plan d) (min 4 (length (rx d))) = Some (nat k)"
    using assms(2-5) by (simp add: frame_def)
  then have "sk_read 4 d = (k, take (nat k) (rx d), d\<lparr>rx := drop (nat k) (rx d), plan := ks\<rparr>)"
    using assms(3,4) by (simp add: sk_read_def)
  then show ?thesis using assms(2,5) by (simp add: recv_json_def frame_def)
qed

theorem short_header_read_loses_frame_witness:
  "\<exists>d'. recv_json demo_json True (demo_conn (frame ''xxxxx'') [2]) = (PROTOCOL_ERR, None, d') \<and> rx d' \<noteq> []"
proof -
  have "json_text demo_json 4 ''xxxxx''" using demo_json_text [of 4] by (simp add: numeral_eq_Suc)
  from short_header_read_loses_frame [OF this, of "demo_conn (frame ''xxxxx'') [2]" "[]" 2 "[]" True]
  show ?thesis by (auto simp: demo_conn_def)
qed

text \<open>\<open>send_json\<close> accepts a message that \<open>recv_json\<close> refuses: a text of more than 65536 bytes goes
  out as PROTOCOL_OK, and the receiver returns an error with the whole text left in the stream.\<close>
theorem oversize_message_sent_not_received:
  assumes "json_text J j s" and "65536 < length s" and "length s < 2 ^ 32"
    and "plan c = []" and "patient d" and "rx d = frame s @ rest"
  shows "\<exists>c' d'. send_json J j c = (PROTOCOL_OK, c') \<and> tx c' = tx c @ frame s \<and>
    recv_json J mem d = (PROTOCOL_ERR, None, d') \<and> rx d' = s @ rest"
proof -
  have s: "cstr s = s" "j_print J j = Some s" using assms(1) by (auto simp: json_text_def cstr_id)
  have "\<exists>c'. send_json J j c = (PROTOCOL_OK, c')"
    using assms(3,4) s by (simp add: send_json_def Let_def sk_write_def)
  moreover have "sk_read 4 d = (4, be32 (length s), d\<lparr>rx := s @ rest, plan := tl (plan d)\<rparr>)"
    using sk_read_serves [OF patient_serves [OF assms(5)]] assms(6) by (simp add: frame_def)
  then have "\<exists>d'. recv_json J mem d = (PROTOCOL_ERR, None, d') \<and> rx d' = s @ rest"
    using assms(2,3) by (simp add: recv_json_def)
  ultimately show ?thesis using send_json_OK [OF _ assms(1,3)] by blast
qed

theorem oversize_message_sent_not_received_witness:
  "\<exists>c'. send_json demo_json 70000 (demo_conn [] []) = (PROTOCOL_OK, c')"
proof -
  have "65536 < length (replicate (Suc 70000) CHR ''x'')" "length (replicate (Suc 70000) CHR ''x'') < 2 ^ 32"
    by (simp_all only: length_replicate) simp_all
  from oversize_message_sent_not_received [OF demo_json_text this, of "demo_conn [] []"
      "demo_conn (frame (replicate (Suc 70000) CHR ''x'')) []" "[]"]
  show ?thesis unfolding demo_conn_def patient_def by fastforce
qed

lemma sk_peek_frame:
  "sk_peek n c = (k, bs, c') \<Longrightarrow> rx c' = rx c \<and> tx c' = tx c \<and> plan c' = tl (plan c) \<and>
     (0 \<le> k \<longrightarrow> bs = take (nat k) (rx c) \<and> nat k \<le> n \<and> nat k \<le> length (rx c))"
  by (auto simp: sk_peek_def dest: served_le split: option.splits)

lemma peek_takes_nothing:
  "recv_json_peek J mem out c = (st, r, c') \<Longrightarrow> rx c' = rx c \<and> tx c' = tx c"
  by (auto simp: recv_json_peek_def Let_def dest!: sk_peek_frame split: if_splits prod.splits option.splits)

text \<open>A peek that succeeds has seen a whole frame.\<close>

lemma peek_OK_frame:
  assumes "recv_json_peek J mem out c = (PROTOCOL_OK, r, c')"
  shows "\<exists>hdr body rest j. rx c = hdr @ body @ rest \<and> length hdr = 4 \<and> length body = of_be32 hdr \<and>
     of_be32 hdr \<le> 65536 \<and> j_parse J (cstr body) = Some j \<and> r = Some j \<and> plan c' = tl (tl (plan c))"
proof -
  obtain n hdr c1 where p1: "sk_peek 4 c = (n, hdr, c1)" by (rule prod_cases3)
  obtain m buf c2 where p2: "sk_peek (4 + of_be32 hdr) c1 = (m, buf, c2)" by (rule prod_cases3)
  let ?len = "of_be32 hdr"
  from assms p1 p2 obtain j where n: "n = 4" "?len \<le> MAX_JSON_SIZE" "m = int (4 + ?len)"
    "j_parse J (cstr (drop 4 buf)) = Some j" "r = Some j" "c2 = c'"
    by (auto simp: recv_json_peek_def Let_def split: if_splits option.splits)
  from sk_peek_frame [OF p1] n have h: "hdr = take 4 (rx c)" "length hdr = 4" "rx c1 = rx c"
    "plan c1 = tl (plan c)" by auto
  have m: "nat m = 4 + ?len" "0 \<le> m" using n(3) by simp_all
  from sk_peek_frame [OF p2] m n(6) h have b: "buf = take (4 + ?len) (rx c)" "4 + ?len \<le> length (rx c)"
    "plan c' = tl (tl (plan c))" by auto
  have "rx c = hdr @ drop 4 buf @ drop (4 + ?len) (rx c)"
    unfolding b(1) h(1) by (metis append_assoc append_take_drop_id take_add take_drop drop_take add_diff_cancel_left')
  moreover have "length (drop 4 buf) = ?len" using b by simp
  ultimately show ?thesis using n h b unfolding MAX_JSON_SIZE_def by blast
qed

text \<open>\<open>recv_json_peek\<close> never consumes a byte, whatever its result; and when it hands out a message,
  the \<open>recv_json\<close> that follows hands out the same message (given that no text is empty JSON and no
  later read is shorter than four bytes).\<close>
theorem peek_then_receive:
  assumes "recv_json_peek J mem out c = (st, r, c')" and "j_parse J [] = None" and "patient c"
  shows "rx c' = rx c \<and> tx c' = tx c \<and>
    (st = PROTOCOL_OK \<longrightarrow> (\<exists>c''. recv_json J True c' = (PROTOCOL_OK, r, c'')))"
proof -
  have "\<exists>c''. recv_json J True c' = (PROTOCOL_OK, r, c'')" if "st = PROTOCOL_OK"
  proof -
    from peek_OK_frame [OF assms(1) [unfolded that]] obtain hdr body rest j where
      f: "rx c = hdr @ body @ rest" "length hdr = 4" "length body = of_be32 hdr" "of_be32 hdr \<le> 65536"
      "j_parse J (cstr body) = Some j" "r = Some j" "plan c' = tl (tl (plan c))" by blast
    have ne: "of_be32 hdr \<noteq> 0"
    proof
      assume "of_be32 hdr = 0"
      with f(3) have "cstr body = []" by (simp add: cstr_def)
      with f(5) assms(2) show False by simp
    qed
    have p: "patient c'" using assms(3) f(7) unfolding patient_def
      by (auto dest!: in_set_dropD [of _ 2, unfolded numeral_2_eq_2 drop_Suc drop_0])
    have x: "rx c' = hdr @ body @ rest" using peek_takes_nothing [OF assms(1)] f(1) by simp
    let ?d = "c'\<lparr>rx := body @ rest, plan := tl (plan c')\<rparr>"
    have h: "sk_read 4 c' = (4, hdr, ?d)"
      using sk_read_serves [OF patient_serves [OF p]] x f(2) by simp
    have "patient ?d" using patient_tl [OF p] by simp
    from recv_loop_ok [OF this, of "[]" "of_be32 hdr"] f(3) obtain e where
      "recv_loop (of_be32 hdr) [] ?d = (Some body, e)" by auto
    with h ne f(4-6) show ?thesis by (simp add: recv_json_def Let_def)
  qed
  with peek_takes_nothing [OF assms(1)] show ?thesis by simp
qed

theorem peek_then_receive_witness:
  "\<exists>c'. recv_json_peek demo_json True True (demo_conn (frame ''xxx'') []) = (PROTOCOL_OK, Some 2, c') \<and>
     (\<exists>c''. recv_json demo_json True c' = (PROTOCOL_OK, Some 2, c''))"
proof -
  obtain c' where c': "recv_json_peek demo_json True True (demo_conn (frame ''xxx'') []) = (PROTOCOL_OK, Some 2, c')"
    by (simp add: recv_json_peek_def demo_conn_def frame_def sk_peek_def Let_def MAX_JSON_SIZE_def
        demo_json_def cstr_def)
  have "patient (demo_conn (frame ''xxx'') [])" by (simp add: patient_def demo_conn_def)
  from peek_then_receive [OF c' _ this] c' show ?thesis by (simp add: demo_json_def)
qed

text \<open>setting up a connection or a listener leaks no descriptor: \<open>create_tcp_connection\<close> and
  \<open>setup_udp_listener\<close> return a fresh open descriptor or leave the table of open descriptors as it
  was, and \<open>send_udp_broadcast\<close> always leaves it as it was.\<close>
theorem setup_leaks_no_descriptor:
  shows "(case create_tcp_connection host port w of (fd, w') \<Rightarrow>
      (fd = -1 \<and> os_open w' = os_open w) \<or> (0 \<le> fd \<and> fd \<notin> set (os_open w) \<and> os_open w' = fd # os_open w)) \<and>
    (case setup_udp_listener port w of (fd, w') \<Rightarrow>
      (fd = -1 \<and> os_open w' = os_open w) \<or> (0 \<le> fd \<and> fd \<notin> set (os_open w) \<and> os_open w' = fd # os_open w)) \<and>
    os_open (send_udp_broadcast msg w) = os_open w"
  by (auto simp: create_tcp_connection_def setup_udp_listener_def send_udp_broadcast_def Let_def filter_fresh
      dest!: sys_open_cases sys_call_frame sys_pton_frame split: prod.splits if_splits)

text \<open>\<open>cleanup_connection\<close> closes the connection's descriptor but then sets the field to 0 with the
  rest of the record, not to -1: called again, it closes descriptor 0.\<close>
theorem cleanup_twice_closes_stdin:
  assumes "0 < cn_sockfd ci" and "0 \<in> set (os_open w)"
  shows "(case cleanup_connection (Some ci) w of (c1, w1) \<Rightarrow>
      cn_sockfd ci \<notin> set (os_open w1) \<and> 0 \<in> set (os_open w1) \<and>
      (case cleanup_connection c1 w1 of (c2, w2) \<Rightarrow> 0 \<notin> set (os_open w2)))"
  using assms by (simp add: cleanup_connection_def)

definition demo_os :: os where
  "demo_os = \<lparr>os_open = [0, 1, 2, 3], os_answers = [], os_log = [], os_conn = (\<lambda>_. demo_conn [] [])\<rparr>"

theorem cleanup_twice_closes_stdin_witness:
  "0 \<notin> set (os_open (snd (case cleanup_connection (Some \<lparr>cn_sockfd = 3, cn_peer_ip = zbuf 64 ''h'',
     cn_peer_port = 1, cn_connect_time = 0\<rparr>) demo_os of (c1, w1) \<Rightarrow> cleanup_connection c1 w1)))"
  using cleanup_twice_closes_stdin [of "\<lparr>cn_sockfd = 3, cn_peer_ip = zbuf 64 ''h'', cn_peer_port = 1,
      cn_connect_time = 0\<rparr>" demo_os]
  by (simp add: demo_os_def split: prod.splits)

end
