(* ===== verification/Descriptor_Owner.thy ===== *)
theory Descriptor_Owner
  imports Volcom_Io
begin

text \<open>
  The interface of the modules that keep one descriptor in a static variable: the Unix and TCP
  servers and clients and the UDP broadcaster. \<open>descriptor_owner\<close> states what their initialisation
  and clean-up promise about the table of open descriptors; the lemmas inside follow for every
  sequence of sessions. The shared part of their message calls is here too.
\<close>

section \<open>The contract\<close>

locale descriptor_owner =
  fixes own_fd :: "'s \<Rightarrow> int"
    and open_fds :: "'s \<Rightarrow> int list"
    and init :: "'c \<Rightarrow> 's \<Rightarrow> bool \<times> 's"
    and cleanup :: "'s \<Rightarrow> 's"
  assumes init_ok: "own_fd s < 0 \<Longrightarrow> init c s = (True, s') \<Longrightarrow>
      0 \<le> own_fd s' \<and> own_fd s' \<notin> set (open_fds s) \<and> open_fds s' = own_fd s' # open_fds s"
    and init_failed: "own_fd s < 0 \<Longrightarrow> init c s = (False, s') \<Longrightarrow>
      own_fd s' < 0 \<and> open_fds s' = open_fds s"
    and cleanup_closes: "0 \<le> own_fd s \<Longrightarrow>
      own_fd (cleanup s) < 0 \<and> open_fds (cleanup s) = filter (\<lambda>f. f \<noteq> own_fd s) (open_fds s)"
    and cleanup_idle: "own_fd s < 0 \<Longrightarrow>
      own_fd (cleanup s) < 0 \<and> open_fds (cleanup s) = open_fds s"

text \<open>One session with each of the configurations \<open>cs\<close>, whether or not its initialisation
  succeeds.\<close>

definition run_session :: "('c \<Rightarrow> 's \<Rightarrow> bool \<times> 's) \<Rightarrow> ('s \<Rightarrow> 's) \<Rightarrow> 'c \<Rightarrow> 's \<Rightarrow> 's" where
  "run_session init cleanup c s = cleanup (snd (init c s))"

context descriptor_owner
begin

lemma init_cases:
  assumes "own_fd s < 0"
  obtains s' where "init c s = (True, s')" "0 \<le> own_fd s'" "own_fd s' \<notin> set (open_fds s)"
      "open_fds s' = own_fd s' # open_fds s"
    | s' where "init c s = (False, s')" "own_fd s' < 0" "open_fds s' = open_fds s"
  using init_ok [OF assms, of c] init_failed [OF assms, of c] by (metis (full_types) surj_pair)

lemma session_restores:
  assumes "own_fd s < 0"
  shows "own_fd (run_session init cleanup c s) < 0 \<and>
    open_fds (run_session init cleanup c s) = open_fds s"
  using assms
proof (rule init_cases [where c = c])
  fix s' assume "init c s = (True, s')" "0 \<le> own_fd s'" "own_fd s' \<notin> set (open_fds s)"
    "open_fds s' = own_fd s' # open_fds s"
  with cleanup_closes [of s'] show ?thesis by (simp add: run_session_def filter_fresh)
next
  fix s' assume "init c s = (False, s')" "own_fd s' < 0" "open_fds s' = open_fds s"
  with cleanup_idle [of s'] show ?thesis by (simp add: run_session_def)
qed

lemma sessions_restore:
  "own_fd s < 0 \<Longrightarrow> own_fd (fold (run_session init cleanup) cs s) < 0 \<and>
     open_fds (fold (run_session init cleanup) cs s) = open_fds s"
  by (induction cs arbitrary: s) (simp_all add: session_restores)

end

section \<open>Messages\<close>

text \<open>The common body of the send functions: the text of \<open>message\<close> in one \<open>send\<close>, and success only
  when all of it was taken.\<close>

definition send_text :: "int \<Rightarrow> char list option \<Rightarrow> os \<Rightarrow> bool \<times> os" where
  "send_text fd message w =
     (case message of
        None \<Rightarrow> (False, w)
      | Some m \<Rightarrow>
          if fd < 0 then (False, w)
          else (case sys_send fd (cstr m) w of
                  (sent_bytes, w) \<Rightarrow>
                    if sent_bytes < 0 then (False, w)
                    else if sent_bytes \<noteq> int (length (cstr m)) then (False, w)
                    else (True, w)))"

text \<open>The common body of the receive functions. The buffer must hold \<open>buffer_size\<close> bytes.\<close>

definition receive_text ::
    "int \<Rightarrow> char list option \<Rightarrow> nat \<Rightarrow> os \<Rightarrow> (int \<times> char list option \<times> os) option" where
  "receive_text fd buffer buffer_size w =
     (case buffer of
        None \<Rightarrow> Some (-1, None, w)
      | Some b \<Rightarrow>
          if fd < 0 \<or> buffer_size = 0 then Some (-1, Some b, w)
          else if length b < buffer_size then None
          else (case sys_recv fd (buffer_size - 1) w of
                  (received, bs, w) \<Rightarrow>
                    if received < 0 then Some (-1, Some b, w)
                    else if received = 0 then Some (0, Some b, w)
                    else Some (received, Some (bs @ NUL # drop (Suc (length bs)) b), w)))"

lemma send_text_true:
  assumes "send_text fd (Some m) w = (True, w')"
  shows "0 \<le> fd \<and> fd \<in> set (os_open w) \<and> tx (os_conn w' fd) = tx (os_conn w fd) @ cstr m \<and>
    rx (os_conn w' fd) = rx (os_conn w fd) \<and> (\<forall>g. g \<noteq> fd \<longrightarrow> os_conn w' g = os_conn w g)"
proof -
  obtain k c where k: "sk_write (cstr m) (os_conn w fd) = (k, c)" by fastforce
  with assms have "0 \<le> fd" "fd \<in> set (os_open w)" "k = int (length (cstr m))"
    "w' = w\<lparr>os_conn := (os_conn w)(fd := c)\<rparr>"
    by (auto simp: send_text_def sys_send_def split: if_splits)
  with sk_write_tx [OF k] show ?thesis by simp
qed

lemma send_text_open: "send_text fd m w = (r, w') \<Longrightarrow> os_open w' = os_open w \<and> os_log w' = os_log w"
  by (auto simp: send_text_def dest: sys_send_open split: option.splits if_splits prod.splits)

text \<open>A positive result is the number of bytes taken from the stream; they stand in the buffer with a
  terminator after them.\<close>

lemma receive_text_positive:
  assumes "receive_text fd (Some b) n w = Some (k, b', w')" and "0 < k"
  shows "\<exists>bs. int (length bs) = k \<and> length bs < n \<and> rx (os_conn w fd) = bs @ rx (os_conn w' fd) \<and>
    b' = Some (bs @ NUL # drop (Suc (length bs)) b) \<and> cstr (the b') = cstr bs \<and>
    length (the b') = length b"
proof -
  obtain r bs c where r: "sk_read (n - 1) (os_conn w fd) = (r, bs, c)" by (rule prod_cases3)
  with assms have e: "fd \<in> set (os_open w)" "r = k" "b' = Some (bs @ NUL # drop (Suc (length bs)) b)"
    "w' = w\<lparr>os_conn := (os_conn w)(fd := c)\<rparr>" "n \<noteq> 0" "n \<le> length b"
    by (auto simp: receive_text_def sys_recv_def split: if_splits)
  from sk_read_length [OF r] e assms(2)
  have l: "int (length bs) = k" "length bs \<le> n - 1" "rx (os_conn w fd) = bs @ rx c" by auto
  have "cstr (bs @ NUL # t) = cstr bs" for t
    by (induction bs) (simp_all add: cstr_def)
  with e l show ?thesis by (intro exI [of _ bs]) auto
qed

end
