(* ===== verification/Unix_Socket.thy ===== *)
theory Unix_Socket
  imports Descriptor_Owner
begin

text \<open>
  The Unix socket server and client of \<open>volcom_net/protocol.c\<close>: two static descriptors and
  addresses, and the calls on them. The address of a Unix socket is its path, in 108 bytes.
\<close>

section \<open>State\<close>

record unix_socket_config_s =
  uc_socket_path :: "char list"
  uc_buffer_size :: int
  uc_timeout_sec :: int

record unix_sockets =
  unix_server_sockfd :: int
  unix_server_path :: "char list"
  unix_client_sockfd :: int
  unix_client_path :: "char list"
  unix_os :: os

definition sun_path_of :: "unix_socket_config_s \<Rightarrow> char list" where
  "sun_path_of config = strncpy (replicate 108 NUL) (uc_socket_path config) 107"

section \<open>Server\<close>

definition unix_socket_server_init ::
    "unix_socket_config_s option \<Rightarrow> 'm unix_sockets_scheme \<Rightarrow> bool \<times> 'm unix_sockets_scheme" where
  "unix_socket_server_init config s =
     (case config of
        None \<Rightarrow> (False, s)
      | Some cfg \<Rightarrow>
          (let (fd, w) = sys_open (unix_os s);
               s = s\<lparr>unix_server_sockfd := fd, unix_os := w\<rparr>
           in if fd < 0 then (False, s)
              else
                (let s = s\<lparr>unix_server_path := sun_path_of cfg\<rparr>;
                     w = snd (sys_call (Sys_unlink (cstr (uc_socket_path cfg))) w);
                     (r, w) = sys_call (Sys_bind fd (Addr_unix (unix_server_path s))) w
                 in if r < 0 then (False, s\<lparr>unix_server_sockfd := -1, unix_os := sys_close fd w\<rparr>)
                    else
                      (let (r, w) = sys_call (Sys_listen fd 5) w
                       in if r < 0 then (False, s\<lparr>unix_server_sockfd := -1, unix_os := sys_close fd w\<rparr>)
                          else (True, s\<lparr>unix_os := w\<rparr>)))))"

definition unix_socket_server_accept :: "'m unix_sockets_scheme \<Rightarrow> int \<times> 'm unix_sockets_scheme" where
  "unix_socket_server_accept s =
     (if unix_server_sockfd s < 0 then (-1, s)
      else (case sys_open (unix_os s) of
              (client_fd, w) \<Rightarrow> (if client_fd < 0 then -1 else client_fd, s\<lparr>unix_os := w\<rparr>)))"

definition unix_socket_server_send_message ::
    "int \<Rightarrow> char list option \<Rightarrow> 'm unix_sockets_scheme \<Rightarrow> bool \<times> 'm unix_sockets_scheme" where
  "unix_socket_server_send_message client_fd message s =
     (case send_text client_fd message (unix_os s) of (r, w) \<Rightarrow> (r, s\<lparr>unix_os := w\<rparr>))"

definition unix_socket_server_receive_message ::
    "int \<Rightarrow> char list option \<Rightarrow> nat \<Rightarrow> 'm unix_sockets_scheme \<Rightarrow> (int \<times> char list option \<times> 'm unix_sockets_scheme) option" where
  "unix_socket_server_receive_message client_fd buffer buffer_size s =
     map_option (\<lambda>(k, b, w). (k, b, s\<lparr>unix_os := w\<rparr>))
       (receive_text client_fd buffer buffer_size (unix_os s))"

definition unix_socket_server_cleanup :: "'m unix_sockets_scheme \<Rightarrow> 'm unix_sockets_scheme" where
  "unix_socket_server_cleanup s =
     (let s = (if unix_server_sockfd s \<ge> 0
               then s\<lparr>unix_os := sys_close (unix_server_sockfd s) (unix_os s), unix_server_sockfd := -1\<rparr>
               else s)
      in s\<lparr>unix_os := snd (sys_call (Sys_unlink (cstr (unix_server_path s))) (unix_os s))\<rparr>)"

section \<open>Client\<close>

definition unix_socket_client_init ::
    "unix_socket_config_s option \<Rightarrow> 'm unix_sockets_scheme \<Rightarrow> bool \<times> 'm unix_sockets_scheme" where
  "unix_socket_client_init config s =
     (case config of
        None \<Rightarrow> (False, s)
      | Some cfg \<Rightarrow>
          (let (fd, w) = sys_open (unix_os s);
               s = s\<lparr>unix_client_sockfd := fd, unix_os := w\<rparr>
           in if fd < 0 then (False, s) else (True, s\<lparr>unix_client_path := sun_path_of cfg\<rparr>)))"

definition unix_socket_client_connect :: "'m unix_sockets_scheme \<Rightarrow> bool \<times> 'm unix_sockets_scheme" where
  "unix_socket_client_connect s =
     (if unix_client_sockfd s < 0 then (False, s)
      else (case sys_call (Sys_connect (unix_client_sockfd s) (Addr_unix (unix_client_path s))) (unix_os s) of
              (r, w) \<Rightarrow> (\<not> r < 0, s\<lparr>unix_os := w\<rparr>)))"

definition unix_socket_client_send_message ::
    "char list option \<Rightarrow> 'm unix_sockets_scheme \<Rightarrow> bool \<times> 'm unix_sockets_scheme" where
  "unix_socket_client_send_message message s =
     (case send_text (unix_client_sockfd s) message (unix_os s) of (r, w) \<Rightarrow> (r, s\<lparr>unix_os := w\<rparr>))"

definition unix_socket_client_receive_message ::
    "char list option \<Rightarrow> nat \<Rightarrow> 'm unix_sockets_scheme \<Rightarrow> (int \<times> char list option \<times> 'm unix_sockets_scheme) option" where
  "unix_socket_client_receive_message buffer buffer_size s =
     map_option (\<lambda>(k, b, w). (k, b, s\<lparr>unix_os := w\<rparr>))
       (receive_text (unix_client_sockfd s) buffer buffer_size (unix_os s))"

definition unix_socket_client_cleanup :: "'m unix_sockets_scheme \<Rightarrow> 'm unix_sockets_scheme" where
  "unix_socket_client_cleanup s =
     (if unix_client_sockfd s \<ge> 0
      then s\<lparr>unix_os := sys_close (unix_client_sockfd s) (unix_os s), unix_client_sockfd := -1\<rparr>
      else s)"

section \<open>Both own their descriptor\<close>

lemma unix_server_init_open:
  assumes "unix_socket_server_init c s = (r, s')" and "c \<noteq> None"
  shows "if r then 0 \<le> unix_server_sockfd s' \<and> unix_server_sockfd s' \<notin> set (os_open (unix_os s)) \<and>
      os_open (unix_os s') = unix_server_sockfd s' # os_open (unix_os s)
    else unix_server_sockfd s' < 0 \<and> os_open (unix_os s') = os_open (unix_os s)"
  using assms by (auto simp: unix_socket_server_init_def Let_def filter_fresh
      dest!: sys_open_cases sys_call_frame split: prod.splits if_splits option.splits)

interpretation unix_server: descriptor_owner unix_server_sockfd "\<lambda>s. os_open (unix_os s)"
  unix_socket_server_init unix_socket_server_cleanup
proof (unfold_locales, goal_cases)
  case (1 s c s')
  then show ?case using unix_server_init_open [of c s True s'] by (cases c) (auto simp: unix_socket_server_init_def)
next
  case (2 s c s')
  then show ?case using unix_server_init_open [of c s False s'] by (cases c) (auto simp: unix_socket_server_init_def)
qed (simp_all add: unix_socket_server_cleanup_def Let_def sys_call_def)

lemma unix_client_init_open:
  assumes "unix_socket_client_init c s = (r, s')" and "c \<noteq> None"
  shows "if r then 0 \<le> unix_client_sockfd s' \<and> unix_client_sockfd s' \<notin> set (os_open (unix_os s)) \<and>
      os_open (unix_os s') = unix_client_sockfd s' # os_open (unix_os s)
    else unix_client_sockfd s' < 0 \<and> os_open (unix_os s') = os_open (unix_os s)"
  using assms by (auto simp: unix_socket_client_init_def Let_def
      dest!: sys_open_cases split: prod.splits if_splits option.splits)

interpretation unix_client: descriptor_owner unix_client_sockfd "\<lambda>s. os_open (unix_os s)"
  unix_socket_client_init unix_socket_client_cleanup
proof (unfold_locales, goal_cases)
  case (1 s c s')
  then show ?case using unix_client_init_open [of c s True s'] by (cases c) (auto simp: unix_socket_client_init_def)
next
  case (2 s c s')
  then show ?case using unix_client_init_open [of c s False s'] by (cases c) (auto simp: unix_socket_client_init_def)
qed (simp_all add: unix_socket_client_cleanup_def)

lemma unix_client_receive_positive:
  assumes "unix_socket_client_receive_message (Some b) n u = Some (k, b', u')" and "0 < k"
  shows "\<exists>bs. int (length bs) = k \<and> length bs < n \<and>
    rx (os_conn (unix_os u) (unix_client_sockfd u)) = bs @ rx (os_conn (unix_os u') (unix_client_sockfd u)) \<and>
    b' = Some (bs @ NUL # drop (Suc (length bs)) b) \<and> length (the b') = length b"
proof -
  from assms(1) obtain w where
    "receive_text (unix_client_sockfd u) (Some b) n (unix_os u) = Some (k, b', w)" "u' = u\<lparr>unix_os := w\<rparr>"
    by (auto simp: unix_socket_client_receive_message_def)
  with receive_text_positive [OF this(1) assms(2)] show ?thesis by auto
qed

section \<open>Properties\<close>

text \<open>any number of Unix server and client sessions, whether or not the system calls in them fail,
  ends with the table of open descriptors as it was and with no descriptor kept.\<close>
theorem unix_sessions_leak_nothing:
  assumes "unix_server_sockfd s < 0" and "unix_client_sockfd t < 0"
  shows "os_open (unix_os (fold (run_session unix_socket_server_init unix_socket_server_cleanup) cs s))
      = os_open (unix_os s) \<and>
    unix_server_sockfd (fold (run_session unix_socket_server_init unix_socket_server_cleanup) cs s) < 0 \<and>
    os_open (unix_os (fold (run_session unix_socket_client_init unix_socket_client_cleanup) cs t))
      = os_open (unix_os t) \<and>
    unix_client_sockfd (fold (run_session unix_socket_client_init unix_socket_client_cleanup) cs t) < 0"
  using unix_server.sessions_restore [OF assms(1), of cs] unix_client.sessions_restore [OF assms(2), of cs]
  by simp

text \<open>initialising the server a second time without a clean-up leaks the first descriptor: it stays
  open and the program no longer has its number.\<close>
theorem unix_server_reinit_leaks:
  assumes "0 \<le> unix_server_sockfd s" and "unix_server_sockfd s \<in> set (os_open (unix_os s))"
    and "unix_socket_server_init (Some cfg) s = (r, s')"
  shows "unix_server_sockfd s' \<noteq> unix_server_sockfd s \<and>
    unix_server_sockfd s \<in> set (os_open (unix_os s')) \<and>
    unix_server_sockfd s \<in> set (os_open (unix_os (unix_socket_server_cleanup s')))"
proof -
  from unix_server_init_open [OF assms(3)] assms(1,2)
  have "unix_server_sockfd s' \<noteq> unix_server_sockfd s" "unix_server_sockfd s \<in> set (os_open (unix_os s'))"
    by (auto split: if_splits)
  then show ?thesis by (auto simp: unix_socket_server_cleanup_def Let_def sys_call_def)
qed

definition demo_unix :: "int \<Rightarrow> int list \<Rightarrow> unix_sockets" where
  "demo_unix fd fds = \<lparr>unix_server_sockfd = fd, unix_server_path = replicate 108 NUL,
     unix_client_sockfd = -1, unix_client_path = replicate 108 NUL,
     unix_os = \<lparr>os_open = fds, os_answers = [0, 0, -1], os_log = [],
       os_conn = (\<lambda>_. \<lparr>rx = ''hi'', tx = [], plan = []\<rparr>)\<rparr>\<rparr>"

definition demo_config :: unix_socket_config_s where
  "demo_config = \<lparr>uc_socket_path = ''/tmp/v'', uc_buffer_size = 64, uc_timeout_sec = 1\<rparr>"

theorem unix_sessions_leak_nothing_witness:
  "os_open (unix_os (fold (run_session unix_socket_server_init unix_socket_server_cleanup)
     [Some demo_config, None, Some demo_config] (demo_unix (-1) [0, 1, 2]))) = [0, 1, 2]"
  using unix_sessions_leak_nothing [of "demo_unix (-1) [0, 1, 2]" "demo_unix (-1) [0, 1, 2]"
      "[Some demo_config, None, Some demo_config]"]
  by (simp add: demo_unix_def)

theorem unix_server_reinit_leaks_witness:
  "3 \<in> set (os_open (unix_os (unix_socket_server_cleanup
     (snd (unix_socket_server_init (Some demo_config) (demo_unix 3 [3, 0, 1, 2]))))))"
proof -
  obtain r s' where i: "unix_socket_server_init (Some demo_config) (demo_unix 3 [3, 0, 1, 2]) = (r, s')"
    by fastforce
  have "unix_server_sockfd (demo_unix 3 [3, 0, 1, 2]) = 3"
    "os_open (unix_os (demo_unix 3 [3, 0, 1, 2])) = [3, 0, 1, 2]" by (simp_all add: demo_unix_def)
  with unix_server_reinit_leaks [OF _ _ i] i show ?thesis by simp
qed

text \<open>when the server's send of a message and the client's receive of the stream succeed, the
  receiver's buffer holds, terminated and within its size, a prefix of what was sent: sending
  appends exactly the text to the stream, receiving takes exactly the bytes it reports.\<close>
theorem unix_message_transfer:
  assumes "unix_socket_server_send_message fd (Some m) s = (True, s')"
    and "rx (os_conn (unix_os t) (unix_client_sockfd t)) = cstr m @ rest"
    and "unix_socket_client_receive_message (Some b) n t = Some (k, Some b', t')" and "0 < k"
    and "k \<le> int (length (cstr m))"
  shows "tx (os_conn (unix_os s') fd) = tx (os_conn (unix_os s) fd) @ cstr m \<and>
    cstr b' = take (nat k) (cstr m) \<and> k < int n \<and> length b' = length b \<and>
    rx (os_conn (unix_os t') (unix_client_sockfd t)) = drop (nat k) (cstr m) @ rest"
proof -
  from assms(1) obtain w where "send_text fd (Some m) (unix_os s) = (True, w)" "s' = s\<lparr>unix_os := w\<rparr>"
    by (auto simp: unix_socket_server_send_message_def split: prod.splits)
  with send_text_true have tx: "tx (os_conn (unix_os s') fd) = tx (os_conn (unix_os s) fd) @ cstr m" by simp
  from assms(3) obtain w where
    r: "receive_text (unix_client_sockfd t) (Some b) n (unix_os t) = Some (k, Some b', w)" "t' = t\<lparr>unix_os := w\<rparr>"
    by (auto simp: unix_socket_client_receive_message_def)
  from receive_text_positive [OF r(1) assms(4)] r(2) obtain bs where
    bs: "int (length bs) = k" "length bs < n" "cstr b' = cstr bs" "length b' = length b"
    "cstr m @ rest = bs @ rx (os_conn (unix_os t') (unix_client_sockfd t))"
    using assms(2) by auto
  then have "bs = take (nat k) (cstr m @ rest)"
    "rx (os_conn (unix_os t') (unix_client_sockfd t)) = drop (nat k) (cstr m @ rest)" by auto
  with assms(5) have e: "bs = take (nat k) (cstr m)"
    "rx (os_conn (unix_os t') (unix_client_sockfd t)) = drop (nat k) (cstr m) @ rest" by auto
  then have "cstr bs = bs" by (metis cstr_id cstr_no_NUL in_set_takeD)
  with tx bs e show ?thesis by auto
qed

theorem unix_message_transfer_witness:
  "\<exists>s' b' t'. unix_socket_server_send_message 3 (Some ''hi'') (demo_unix 4 [3]) = (True, s') \<and>
     unix_socket_client_receive_message (Some ''zz'') 2 ((demo_unix 4 [3])\<lparr>unix_client_sockfd := 3\<rparr>)
       = Some (1, Some b', t') \<and> cstr b' = ''h''"
proof -
  let ?t = "(demo_unix 4 [3])\<lparr>unix_client_sockfd := 3\<rparr>"
  obtain s' where s: "unix_socket_server_send_message 3 (Some ''hi'') (demo_unix 4 [3]) = (True, s')"
    by (simp add: unix_socket_server_send_message_def send_text_def sys_send_def sk_write_def demo_unix_def
        cstr_def)
  obtain b' t' where t: "unix_socket_client_receive_message (Some ''zz'') 2 ?t = Some (1, Some b', t')"
    by (simp add: unix_socket_client_receive_message_def receive_text_def sys_recv_def sk_read_def demo_unix_def)
  have "cstr b' = take (nat 1) (cstr ''hi'')"
    using unix_message_transfer [OF s _ t, of "[]"] by (simp add: demo_unix_def cstr_def)
  with s t show ?thesis by (simp add: cstr_def)
qed

end
