(* ===== verification/Volcom_Net.thy ===== *)
theory Volcom_Net
  imports Unix_Socket
begin

text \<open>
  \<open>volcom_net/volcom_net.c\<close>: the UDP broadcaster, the TCP server and client, the choice of the
  local address, and a second copy, text for text, of the Unix sockets of \<open>protocol.c\<close>, here over
  the statics of this file: the record extends theirs. The configuration structs are those the
  header has commented out.
\<close>

section \<open>State\<close>

record udp_config_s =
  up_port :: int
  up_ip :: "char list"
  up_interval_sec :: int

record tcp_config_s =
  tp_port :: int
  tp_ip :: "char list"
  tp_max_connections :: int
  tp_timeout_sec :: int

record net = unix_sockets +
  sockfd :: int
  broadcast_addr :: addr
  tcp_server_sockfd :: int
  tcp_server_addr :: addr
  tcp_client_sockfd :: int
  tcp_client_addr :: addr

section \<open>UDP broadcaster\<close>

definition udp_broadcaster_init :: "udp_config_s option \<Rightarrow> net \<Rightarrow> bool \<times> net" where
  "udp_broadcaster_init config s =
     (case config of
        None \<Rightarrow> (False, s)
      | Some cfg \<Rightarrow>
          (let (fd, w) = sys_open (unix_os s);
               s = s\<lparr>sockfd := fd, unix_os := w\<rparr>
           in if fd < 0 then (False, s)
              else
                (let (r, w) = sys_call (Sys_setsockopt fd ''SO_BROADCAST'') w
                 in if r \<noteq> 0 then (False, s\<lparr>sockfd := -1, unix_os := sys_close fd w\<rparr>)
                    else
                      (let s = s\<lparr>broadcast_addr := Addr_inet (cstr (up_ip cfg)) (up_port cfg mod 2 ^ 16)\<rparr>;
                           (r, w) = sys_pton w
                       in if r \<le> 0 then (False, s\<lparr>sockfd := -1, unix_os := sys_close fd w\<rparr>)
                          else (True, s\<lparr>unix_os := w\<rparr>)))))"

definition send_udp_broadcast1 :: "char list \<Rightarrow> net \<Rightarrow> bool \<times> net" where
  "send_udp_broadcast1 message s =
     (if sockfd s < 0 then (False, s)
      else (case sys_call (Sys_sendto (sockfd s) (cstr message) (broadcast_addr s)) (unix_os s) of
              (r, w) \<Rightarrow> (\<not> r < 0, s\<lparr>unix_os := w\<rparr>)))"

definition udp_broadcaster_cleanup :: "net \<Rightarrow> net" where
  "udp_broadcaster_cleanup s =
     (if sockfd s \<ge> 0 then s\<lparr>unix_os := sys_close (sockfd s) (unix_os s), sockfd := -1\<rparr> else s)"

section \<open>The local address\<close>

text \<open>The interfaces as \<open>getifaddrs\<close> lists them (\<open>None\<close> when it fails): \<open>None\<close> for one without an
  address, else whether the family is \<open>AF_INET\<close> and the address as text.\<close>

fun first_external :: "(bool \<times> string) option list \<Rightarrow> string option" where
  "first_external [] = None"
| "first_external (None # ifs) = first_external ifs"
| "first_external (Some (inet, ip_str) # ifs) =
     (if inet \<and> take 4 ip_str \<noteq> ''127.'' then Some ip_str else first_external ifs)"

definition get_local_ip_n ::
    "(bool \<times> string) option list option \<Rightarrow> char list \<Rightarrow> nat \<Rightarrow> char list option" where
  "get_local_ip_n ifaddr buffer bsize =
     (let ip = (case ifaddr of
                  None \<Rightarrow> ''127.0.0.1''
                | Some ifs \<Rightarrow> (case first_external ifs of None \<Rightarrow> ''127.0.0.1'' | Some ip_str \<Rightarrow> ip_str))
      in if bsize = 0 \<or> length buffer < bsize then None
         else Some ((strncpy buffer ip (bsize - 1))[bsize - 1 := NUL]))"

section \<open>TCP server\<close>

definition tcp_server_init :: "tcp_config_s option \<Rightarrow> net \<Rightarrow> bool \<times> net" where
  "tcp_server_init config s =
     (case config of
        None \<Rightarrow> (False, s)
      | Some cfg \<Rightarrow>
          (let (fd, w) = sys_open (unix_os s);
               s = s\<lparr>tcp_server_sockfd := fd, unix_os := w\<rparr>
           in if fd < 0 then (False, s)
              else
                (let (r, w) = sys_call (Sys_setsockopt fd ''SO_REUSEADDR'') w
                 in if r \<noteq> 0 then (False, s\<lparr>tcp_server_sockfd := -1, unix_os := sys_close fd w\<rparr>)
                    else
                      (let s = s\<lparr>tcp_server_addr := Addr_inet (cstr (tp_ip cfg)) (tp_port cfg mod 2 ^ 16)\<rparr>;
                           (r, w) = sys_pton w
                       in if r \<le> 0 then (False, s\<lparr>tcp_server_sockfd := -1, unix_os := sys_close fd w\<rparr>)
                          else
                            (let (r, w) = sys_call (Sys_bind fd (tcp_server_addr s)) w
                             in if r < 0 then (False, s\<lparr>tcp_server_sockfd := -1, unix_os := sys_close fd w\<rparr>)
                                else
                                  (let (r, w) = sys_call (Sys_listen fd (tp_max_connections cfg)) w
                                   in if r < 0
                                      then (False, s\<lparr>tcp_server_sockfd := -1, unix_os := sys_close fd w\<rparr>)
                                      else (True, s\<lparr>unix_os := w\<rparr>)))))))"

definition tcp_server_accept_connection :: "net \<Rightarrow> int \<times> net" where
  "tcp_server_accept_connection s =
     (if tcp_server_sockfd s < 0 then (-1, s)
      else (case sys_open (unix_os s) of
              (client_fd, w) \<Rightarrow> (if client_fd < 0 then -1 else client_fd, s\<lparr>unix_os := w\<rparr>)))"

definition tcp_server_send_message :: "int \<Rightarrow> char list option \<Rightarrow> net \<Rightarrow> bool \<times> net" where
  "tcp_server_send_message client_fd message s =
     (case send_text client_fd message (unix_os s) of (r, w) \<Rightarrow> (r, s\<lparr>unix_os := w\<rparr>))"

definition tcp_server_receive_message ::
    "int \<Rightarrow> char list option \<Rightarrow> nat \<Rightarrow> net \<Rightarrow> (int \<times> char list option \<times> net) option" where
  "tcp_server_receive_message client_fd buffer buffer_size s =
     map_option (\<lambda>(k, b, w). (k, b, s\<lparr>unix_os := w\<rparr>))
       (receive_text client_fd buffer buffer_size (unix_os s))"

definition tcp_server_cleanup :: "net \<Rightarrow> net" where
  "tcp_server_cleanup s =
     (if tcp_server_sockfd s \<ge> 0
      then s\<lparr>unix_os := sys_close (tcp_server_sockfd s) (unix_os s), tcp_server_sockfd := -1\<rparr> else s)"

section \<open>TCP client\<close>

definition tcp_client_init :: "tcp_config_s option \<Rightarrow> net \<Rightarrow> bool \<times> net" where
  "tcp_client_init config s =
     (case config of
        None \<Rightarrow> (False, s)
      | Some cfg \<Rightarrow>
          (let (fd, w) = sys_open (unix_os s);
               s = s\<lparr>tcp_client_sockfd := fd, unix_os := w\<rparr>
           in if fd < 0 then (False, s)
              else
                (let s = s\<lparr>tcp_client_addr := Addr_inet (cstr (tp_ip cfg)) (tp_port cfg mod 2 ^ 16)\<rparr>;
                     (r, w) = sys_pton w
                 in if r \<le> 0 then (False, s\<lparr>tcp_client_sockfd := -1, unix_os := sys_close fd w\<rparr>)
                    else (True, s\<lparr>unix_os := w\<rparr>))))"

definition tcp_client_connect :: "net \<Rightarrow> bool \<times> net" where
  "tcp_client_connect s =
     (if tcp_client_sockfd s < 0 then (False, s)
      else (case sys_call (Sys_connect (tcp_client_sockfd s) (tcp_client_addr s)) (unix_os s) of
              (r, w) \<Rightarrow> (\<not> r < 0, s\<lparr>unix_os := w\<rparr>)))"

definition tcp_client_send_message :: "char list option \<Rightarrow> net \<Rightarrow> bool \<times> net" where
  "tcp_client_send_message message s =
     (case send_text (tcp_client_sockfd s) message (unix_os s) of (r, w) \<Rightarrow> (r, s\<lparr>unix_os := w\<rparr>))"

definition tcp_client_receive_message ::
    "char list option \<Rightarrow> nat \<Rightarrow> net \<Rightarrow> (int \<times> char list option \<times> net) option" where
  "tcp_client_receive_message buffer buffer_size s =
     map_option (\<lambda>(k, b, w). (k, b, s\<lparr>unix_os := w\<rparr>))
       (receive_text (tcp_client_sockfd s) buffer buffer_size (unix_os s))"

definition tcp_client_cleanup :: "net \<Rightarrow> net" where
  "tcp_client_cleanup s =
     (if tcp_client_sockfd s \<ge> 0
      then s\<lparr>unix_os := sys_close (tcp_client_sockfd s) (unix_os s), tcp_client_sockfd := -1\<rparr> else s)"

section \<open>Unix sockets\<close>

definition net_unix_server_init :: "unix_socket_config_s option \<Rightarrow> net \<Rightarrow> bool \<times> net" where
  "net_unix_server_init = unix_socket_server_init"

definition net_unix_server_accept :: "net \<Rightarrow> int \<times> net" where
  "net_unix_server_accept = unix_socket_server_accept"

definition net_unix_server_send_message :: "int \<Rightarrow> char list option \<Rightarrow> net \<Rightarrow> bool \<times> net" where
  "net_unix_server_send_message = unix_socket_server_send_message"

definition net_unix_server_receive_message ::
    "int \<Rightarrow> char list option \<Rightarrow> nat \<Rightarrow> net \<Rightarrow> (int \<times> char list option \<times> net) option" where
  "net_unix_server_receive_message = unix_socket_server_receive_message"

definition net_unix_server_cleanup :: "net \<Rightarrow> net" where
  "net_unix_server_cleanup = unix_socket_server_cleanup"

definition net_unix_client_init :: "unix_socket_config_s option \<Rightarrow> net \<Rightarrow> bool \<times> net" where
  "net_unix_client_init = unix_socket_client_init"

definition net_unix_client_connect :: "net \<Rightarrow> bool \<times> net" where
  "net_unix_client_connect = unix_socket_client_connect"

definition net_unix_client_send_message :: "char list option \<Rightarrow> net \<Rightarrow> bool \<times> net" where
  "net_unix_client_send_message = unix_socket_client_send_message"

definition net_unix_client_receive_message ::
    "char list option \<Rightarrow> nat \<Rightarrow> net \<Rightarrow> (int \<times> char list option \<times> net) option" where
  "net_unix_client_receive_message = unix_socket_client_receive_message"

definition net_unix_client_cleanup :: "net \<Rightarrow> net" where
  "net_unix_client_cleanup = unix_socket_client_cleanup"

section \<open>Each owns its descriptor\<close>

lemma udp_init_open:
  assumes "udp_broadcaster_init (Some c) s = (r, s')"
  shows "if r then 0 \<le> sockfd s' \<and> sockfd s' \<notin> set (os_open (unix_os s)) \<and>
      os_open (unix_os s') = sockfd s' # os_open (unix_os s)
    else sockfd s' < 0 \<and> os_open (unix_os s') = os_open (unix_os s)"
  using assms by (auto simp: udp_broadcaster_init_def Let_def filter_fresh
      dest!: sys_open_cases sys_call_frame sys_pton_frame split: prod.splits if_splits)

lemma tcp_server_init_open:
  assumes "tcp_server_init (Some c) s = (r, s')"
  shows "if r then 0 \<le> tcp_server_sockfd s' \<and> tcp_server_sockfd s' \<notin> set (os_open (unix_os s)) \<and>
      os_open (unix_os s') = tcp_server_sockfd s' # os_open (unix_os s)
    else tcp_server_sockfd s' < 0 \<and> os_open (unix_os s') = os_open (unix_os s)"
  using assms by (auto simp: tcp_server_init_def Let_def filter_fresh
      dest!: sys_open_cases sys_call_frame sys_pton_frame split: prod.splits if_splits)

lemma tcp_client_init_open:
  assumes "tcp_client_init (Some c) s = (r, s')"
  shows "if r then 0 \<le> tcp_client_sockfd s' \<and> tcp_client_sockfd s' \<notin> set (os_open (unix_os s)) \<and>
      os_open (unix_os s') = tcp_client_sockfd s' # os_open (unix_os s)
    else tcp_client_sockfd s' < 0 \<and> os_open (unix_os s') = os_open (unix_os s)"
  using assms by (auto simp: tcp_client_init_def Let_def filter_fresh
      dest!: sys_open_cases sys_call_frame sys_pton_frame split: prod.splits if_splits)

interpretation udp: descriptor_owner sockfd "\<lambda>s. os_open (unix_os s)"
  udp_broadcaster_init udp_broadcaster_cleanup
proof (unfold_locales, goal_cases)
  case (1 s c s')
  then show ?case using udp_init_open [of _ s True s'] by (cases c) (auto simp: udp_broadcaster_init_def)
next
  case (2 s c s')
  then show ?case using udp_init_open [of _ s False s'] by (cases c) (auto simp: udp_broadcaster_init_def)
qed (simp_all add: udp_broadcaster_cleanup_def)

interpretation tcp_server: descriptor_owner tcp_server_sockfd "\<lambda>s. os_open (unix_os s)"
  tcp_server_init tcp_server_cleanup
proof (unfold_locales, goal_cases)
  case (1 s c s')
  then show ?case using tcp_server_init_open [of _ s True s'] by (cases c) (auto simp: tcp_server_init_def)
next
  case (2 s c s')
  then show ?case using tcp_server_init_open [of _ s False s'] by (cases c) (auto simp: tcp_server_init_def)
qed (simp_all add: tcp_server_cleanup_def)

interpretation tcp_client: descriptor_owner tcp_client_sockfd "\<lambda>s. os_open (unix_os s)"
  tcp_client_init tcp_client_cleanup
proof (unfold_locales, goal_cases)
  case (1 s c s')
  then show ?case using tcp_client_init_open [of _ s True s'] by (cases c) (auto simp: tcp_client_init_def)
next
  case (2 s c s')
  then show ?case using tcp_client_init_open [of _ s False s'] by (cases c) (auto simp: tcp_client_init_def)
qed (simp_all add: tcp_client_cleanup_def)

section \<open>Properties\<close>

text \<open>C21: any number of sessions of the UDP broadcaster, of the TCP server and of the TCP client, with
  any configurations and any failures of the system calls, ends with the table of open descriptors
  as it was.\<close>
theorem net_sessions_leak_nothing:
  assumes "sockfd s < 0" and "tcp_server_sockfd s < 0" and "tcp_client_sockfd s < 0"
  shows "os_open (unix_os (fold (run_session udp_broadcaster_init udp_broadcaster_cleanup) us s)) = os_open (unix_os s) \<and>
    os_open (unix_os (fold (run_session tcp_server_init tcp_server_cleanup) ts s)) = os_open (unix_os s) \<and>
    os_open (unix_os (fold (run_session tcp_client_init tcp_client_cleanup) cs s)) = os_open (unix_os s)"
  using udp.sessions_restore [OF assms(1), of us] tcp_server.sessions_restore [OF assms(2), of ts]
    tcp_client.sessions_restore [OF assms(3), of cs] by simp

text \<open>\<open>tcp_server_init\<close> succeeds only after setting the address up for reuse, binding the
  configured host and port (modulo 65536) and listening with the configured backlog, in that order,
  on a fresh descriptor that it leaves open.\<close>
theorem tcp_server_init_effect:
  assumes "tcp_server_init (Some cfg) s = (True, s')"
  shows "os_log (unix_os s') = os_log (unix_os s) @
      [Sys_setsockopt (tcp_server_sockfd s') ''SO_REUSEADDR'',
       Sys_bind (tcp_server_sockfd s') (Addr_inet (cstr (tp_ip cfg)) (tp_port cfg mod 65536)),
       Sys_listen (tcp_server_sockfd s') (tp_max_connections cfg)] \<and>
    tcp_server_sockfd s' \<notin> set (os_open (unix_os s)) \<and>
    os_open (unix_os s') = tcp_server_sockfd s' # os_open (unix_os s)"
  using assms tcp_server_init_open [OF assms]
  by (auto simp: tcp_server_init_def Let_def
      dest!: sys_open_cases sys_call_frame sys_pton_frame split: prod.splits if_splits)

text \<open>\<open>get_local_ip_n\<close> never picks an address that starts with 127. while an IPv4 interface with
  another address exists; it answers 127.0.0.1 when there is none or the list cannot be read; and
  what it writes is terminated and cut to the buffer's size.\<close>
theorem local_ip_choice:
  assumes "0 < bsize" and "bsize \<le> length buffer"
    and "case ifaddr of None \<Rightarrow> True | Some ifs \<Rightarrow> \<forall>ip. Some (True, ip) \<in> set ifs \<longrightarrow> NUL \<notin> set ip"
  shows "\<exists>out ip. get_local_ip_n ifaddr buffer bsize = Some out \<and> length out = length buffer \<and>
    cstr out = take (bsize - 1) ip \<and>
    (case ifaddr of
       None \<Rightarrow> ip = ''127.0.0.1''
     | Some ifs \<Rightarrow>
         if \<exists>e. Some (True, e) \<in> set ifs \<and> take 4 e \<noteq> ''127.''
         then Some (True, ip) \<in> set ifs \<and> take 4 ip \<noteq> ''127.'' else ip = ''127.0.0.1'')"
proof -
  define ip where "ip = (case ifaddr of None \<Rightarrow> ''127.0.0.1''
    | Some ifs \<Rightarrow> (case first_external ifs of None \<Rightarrow> ''127.0.0.1'' | Some ip_str \<Rightarrow> ip_str))"
  have f: "case first_external ifs of
      None \<Rightarrow> \<not> (\<exists>e. Some (True, e) \<in> set ifs \<and> take 4 e \<noteq> ''127.'')
    | Some ip \<Rightarrow> Some (True, ip) \<in> set ifs \<and> take 4 ip \<noteq> ''127.''" for ifs
    by (induction ifs rule: first_external.induct) (auto split: option.splits)
  have ch: "case ifaddr of None \<Rightarrow> ip = ''127.0.0.1''
     | Some ifs \<Rightarrow> if \<exists>e. Some (True, e) \<in> set ifs \<and> take 4 e \<noteq> ''127.''
         then Some (True, ip) \<in> set ifs \<and> take 4 ip \<noteq> ''127.'' else ip = ''127.0.0.1''"
    using f [of "the ifaddr"] by (auto simp: ip_def split: option.splits)
  with assms(3) have n: "NUL \<notin> set ip" by (cases ifaddr) (auto split: if_splits)
  let ?out = "(strncpy buffer ip (bsize - 1))[bsize - 1 := NUL]"
  have "cstr ?out = take (bsize - 1) (cstr ip)"
    using assms(1,2) by (intro strncpy_set_last) simp
  then have "cstr ?out = take (bsize - 1) ip" using n by (simp add: cstr_id)
  moreover have "get_local_ip_n ifaddr buffer bsize = Some ?out"
    using assms(1,2) by (simp add: get_local_ip_n_def ip_def Let_def)
  moreover have "length ?out = length buffer" using assms(2) by simp
  ultimately show ?thesis using ch by blast
qed

definition demo_net :: "int list \<Rightarrow> net" where
  "demo_net answers = \<lparr>unix_server_sockfd = -1, unix_server_path = replicate 108 NUL,
     unix_client_sockfd = -1, unix_client_path = replicate 108 NUL,
     unix_os = \<lparr>os_open = [2, 1, 0], os_answers = answers, os_log = [],
       os_conn = (\<lambda>_. \<lparr>rx = [], tx = [], plan = []\<rparr>)\<rparr>,
     sockfd = -1, broadcast_addr = Addr_any 0, tcp_server_sockfd = -1, tcp_server_addr = Addr_any 0,
     tcp_client_sockfd = -1, tcp_client_addr = Addr_any 0\<rparr>"

definition demo_tcp :: tcp_config_s where
  "demo_tcp = \<lparr>tp_port = 12345, tp_ip = zbuf 16 ''10.0.0.1'', tp_max_connections = 5, tp_timeout_sec = 1\<rparr>"

theorem net_sessions_leak_nothing_witness:
  "os_open (unix_os (fold (run_session tcp_server_init tcp_server_cleanup) [Some demo_tcp, None, Some demo_tcp]
     (demo_net [0, 0, -1, 0, -1]))) = [2, 1, 0]"
  using net_sessions_leak_nothing [of "demo_net [0, 0, -1, 0, -1]" "[]" "[Some demo_tcp, None, Some demo_tcp]" "[]"]
  by (simp add: demo_net_def)

theorem tcp_server_init_effect_witness:
  "\<exists>s'. tcp_server_init (Some demo_tcp) (demo_net []) = (True, s') \<and> length (os_log (unix_os s')) = 3"
proof -
  have "lowest_fd [2, 1, 0] = 3" by code_simp
  then obtain s' where s': "tcp_server_init (Some demo_tcp) (demo_net []) = (True, s')"
    by (simp add: tcp_server_init_def demo_net_def Let_def sys_open_def sys_fails_def sys_call_def sys_pton_def
        sys_done_def)
  with tcp_server_init_effect [OF s'] show ?thesis by (simp add: demo_net_def)
qed

theorem local_ip_choice_witness:
  "\<exists>out. get_local_ip_n (Some [None, Some (True, ''127.0.0.1''), Some (False, ''::''), Some (True, ''10.0.0.7'')])
     (replicate 16 CHR ''?'') 16 = Some out \<and> cstr out = ''10.0.0.7''"
proof -
  let ?ifs = "Some [None, Some (True, ''127.0.0.1''), Some (False, ''::''), Some (True, ''10.0.0.7'')]"
  have "case ?ifs of None \<Rightarrow> True | Some ifs \<Rightarrow> \<forall>ip. Some (True, ip) \<in> set ifs \<longrightarrow> NUL \<notin> set ip" by auto
  from local_ip_choice [of 16 "replicate 16 CHR ''?''", OF _ _ this] obtain out ip where
    o: "get_local_ip_n ?ifs (replicate 16 CHR ''?'') 16 = Some out" "cstr out = take 15 ip"
    and c: "case ?ifs of None \<Rightarrow> ip = ''127.0.0.1''
     | Some ifs \<Rightarrow> if \<exists>e. Some (True, e) \<in> set ifs \<and> take 4 e \<noteq> ''127.''
         then Some (True, ip) \<in> set ifs \<and> take 4 ip \<noteq> ''127.'' else ip = ''127.0.0.1''" by auto
  from c have "ip = ''10.0.0.7''" by (auto split: if_splits)
  with o show ?thesis by simp
qed

end
