(* ===== verification/File_Transfer.thy ===== *)
theory File_Transfer
  imports Protocol
begin

text \<open>
  The loops that move a file over a connection. The employer's \<open>send_initial_config\<close> and
  \<open>send_file_to_employee\<close> and the employee's \<open>send_result_to_employer\<close> send it with the same
  statements, a four-byte size and then blocks of at most 4096 bytes; the receiving functions of
  both agents read the size with \<open>MSG_WAITALL\<close> and the content block by block. A file is its bytes.
\<close>

section \<open>Sending\<close>

text \<open>\<open>tot\<close> is \<open>total_sent\<close>, \<open>rest\<close> what \<open>fread\<close> has not returned yet. The loop counts the bytes that
  \<open>send\<close> took but always goes on reading the file after the whole block.\<close>

function send_content :: "nat \<Rightarrow> nat \<Rightarrow> bytes \<Rightarrow> conn \<Rightarrow> bool \<times> nat \<times> conn" where
  "send_content file_size tot rest c =
     (if tot < file_size then
        (let to_read = (if tot + 4096 > file_size then file_size - tot else 4096);
             block = take to_read rest
         in if block = [] then (True, tot, c)
            else (case sk_write block c of
                    (n, c') \<Rightarrow> if n \<le> 0 then (False, tot, c')
                              else send_content file_size (tot + nat n) (drop to_read rest) c'))
      else (True, tot, c))"
  by pat_completeness auto
termination
  by (relation "measure (\<lambda>(file_size, tot, rest, c). length rest)") (auto split: if_splits)

declare send_content.simps [simp del]

text \<open>The size and the content of a file: whether the function gets to its end.\<close>

definition send_sized :: "bytes \<Rightarrow> conn \<Rightarrow> bool \<times> conn" where
  "send_sized content c =
     (let (n, c) = sk_write (be32 (length content mod 2 ^ 32)) c
      in if n \<noteq> 4 then (False, c)
         else (let (ok, tot, c) = send_content (length content) 0 content c in (ok, c)))"

section \<open>Receiving\<close>

text \<open>\<open>recv\<close> with \<open>MSG_WAITALL\<close>: all \<open>n\<close> bytes unless the stream ends or the call fails.\<close>

definition sk_waitall :: "nat \<Rightarrow> conn \<Rightarrow> int \<times> bytes \<times> conn" where
  "sk_waitall n c =
     (case served (plan c) 0 of
        None \<Rightarrow> (-1, [], c\<lparr>plan := tl (plan c)\<rparr>)
      | Some _ \<Rightarrow> (int (min n (length (rx c))), take n (rx c),
                   c\<lparr>rx := drop n (rx c), plan := tl (plan c)\<rparr>))"

text \<open>Blocks of at most \<open>blk\<close> bytes until \<open>size\<close> bytes are there: what was received and whether that
  is all of it.\<close>

function recv_content :: "nat \<Rightarrow> nat \<Rightarrow> bytes \<Rightarrow> conn \<Rightarrow> bytes \<times> bool \<times> conn" where
  "recv_content blk file_size got c =
     (if length got < file_size then
        (let to_receive = (if length got + blk > file_size then file_size - length got else blk)
         in case sk_read to_receive c of
              (n, bs, c') \<Rightarrow> if n \<le> 0 then (got, False, c') else recv_content blk file_size (got @ bs) c')
      else (got, True, c))"
  by pat_completeness auto
termination
  by (relation "measure (\<lambda>(blk, file_size, got, c). file_size - length got)")
    (auto dest!: sk_read_length [OF sym])

declare recv_content.simps [simp del]

section \<open>What arrives\<close>

text \<open>A sender whose calls take whole blocks.\<close>

definition full_sends :: "conn \<Rightarrow> bool" where
  "full_sends c \<longleftrightarrow> (\<forall>k \<in> set (plan c). 4096 \<le> k)"

lemma full_sends_write:
  "full_sends c \<Longrightarrow> length bs \<le> 4096 \<Longrightarrow>
     sk_write bs c = (int (length bs), c\<lparr>tx := tx c @ bs, plan := tl (plan c)\<rparr>) \<and>
     full_sends (c\<lparr>tx := tx c @ bs, plan := tl (plan c)\<rparr>)"
  by (cases "plan c") (auto simp: sk_write_def full_sends_def)

lemma send_content_all:
  "full_sends c \<Longrightarrow> tot + length rest = file_size \<Longrightarrow>
     \<exists>c'. send_content file_size tot rest c = (True, file_size, c') \<and> tx c' = tx c @ rest \<and>
       rx c' = rx c \<and> full_sends c'"
proof (induction file_size tot rest c rule: send_content.induct)
  case (1 file_size tot rest c)
  show ?case
  proof (cases "rest = []")
    case True
    with "1.prems" have "tot = file_size" by simp
    with True "1.prems" show ?thesis by (simp add: send_content.simps [of file_size file_size "[]" c])
  next
    case False
    let ?n = "if tot + 4096 > file_size then file_size - tot else 4096"
    let ?b = "take ?n rest"
    let ?c = "c\<lparr>tx := tx c @ ?b, plan := tl (plan c)\<rparr>"
    from False "1.prems"(2) have lt: "tot < file_size" and n: "?n \<le> length rest" "0 < ?n" "?n \<le> 4096"
      by (auto split: if_splits)
    then have b: "?b \<noteq> []" "length ?b = ?n" by auto
    from full_sends_write [OF "1.prems"(1), of ?b] b n
    have w: "sk_write ?b c = (int ?n, ?c)" "full_sends ?c" by auto
    have "\<exists>c'. send_content file_size (tot + nat (int ?n)) (drop ?n rest) ?c = (True, file_size, c') \<and>
        tx c' = tx ?c @ drop ?n rest \<and> rx c' = rx ?c \<and> full_sends c'"
      using w n "1.prems"(2) by (intro "1.IH" [OF lt refl refl b(1) w(1) [symmetric]]) auto
    with lt b w n show ?thesis
      by (simp add: send_content.simps [of file_size tot rest c] Let_def del: take_eq_Nil)
  qed
qed

lemma recv_content_all:
  "0 < blk \<Longrightarrow> willing c \<Longrightarrow> length got \<le> file_size \<Longrightarrow> file_size - length got \<le> length (rx c) \<Longrightarrow>
     \<exists>c'. recv_content blk file_size got c = (got @ take (file_size - length got) (rx c), True, c') \<and>
       rx c' = drop (file_size - length got) (rx c) \<and> tx c' = tx c \<and> willing c'"
proof (induction blk file_size got c rule: recv_content.induct)
  case (1 b file_size got c)
  show ?case
  proof (cases "length got < file_size")
    case False
    with "1.prems" show ?thesis by (simp add: recv_content.simps [of b file_size got c])
  next
    case True
    let ?n = "if length got + b > file_size then file_size - length got else b"
    have "0 < ?n" "rx c \<noteq> []" using True "1.prems" by auto
    from sk_read_willing [OF "1.prems"(2) this] obtain bs c1 where
      r: "sk_read ?n c = (int (length bs), bs, c1)" "bs \<noteq> []" "length bs \<le> ?n" "rx c = bs @ rx c1"
      "tx c1 = tx c" "willing c1" by blast
    have le: "length bs \<le> file_size - length got" using r(3) True by (auto split: if_splits)
    have "\<exists>c'. recv_content b file_size (got @ bs) c1
        = ((got @ bs) @ take (file_size - length (got @ bs)) (rx c1), True, c') \<and>
       rx c' = drop (file_size - length (got @ bs)) (rx c1) \<and> tx c' = tx c1 \<and> willing c'"
      using "1.prems" r True le by (intro "1.IH" [OF True refl r(1) [symmetric] refl]) auto
    with r True le show ?thesis
      by (auto simp: recv_content.simps [of b file_size got c] Let_def)
  qed
qed

text \<open>A stream that ends early is noticed.\<close>

lemma recv_content_ended:
  "recv_content blk file_size got c = (got', ok, c') \<Longrightarrow> length got + length (rx c) < file_size \<Longrightarrow> \<not> ok"
proof (induction blk file_size got c rule: recv_content.induct)
  case (1 b file_size got c)
  let ?n = "if length got + b > file_size then file_size - length got else b"
  obtain n bs c1 where r: "sk_read ?n c = (n, bs, c1)" by (rule prod_cases3)
  have lt: "length got < file_size" using "1.prems"(2) by simp
  show ?case
  proof (cases "n \<le> 0")
    case True
    with r lt "1.prems"(1) show ?thesis by (simp add: recv_content.simps [of b file_size got c] Let_def)
  next
    case False
    have "recv_content b file_size (got @ bs) c1 = (got', ok, c')"
      using r lt False "1.prems"(1) by (simp add: recv_content.simps [of b file_size got c] Let_def)
    with "1.IH" [OF lt refl r [symmetric] refl False] sk_read_length [OF r] False "1.prems"(2) show ?thesis by auto
  qed
qed

lemma sk_waitall_willing:
  assumes "willing c" and "n \<le> length (rx c)"
  shows "\<exists>c'. sk_waitall n c = (int n, take n (rx c), c') \<and> rx c' = drop n (rx c) \<and> willing c'"
  using willing_served [OF assms(1), of 0] assms by (auto simp: sk_waitall_def willing_rx_tl)

lemma send_sized_all:
  assumes "full_sends c" and "length content < 2 ^ 32"
  shows "\<exists>c'. send_sized content c = (True, c') \<and> tx c' = tx c @ be32 (length content) @ content \<and> rx c' = rx c"
proof -
  from full_sends_write [OF assms(1), of "be32 (length content)"]
  have w: "sk_write (be32 (length content)) c
      = (4, c\<lparr>tx := tx c @ be32 (length content), plan := tl (plan c)\<rparr>)"
    "full_sends (c\<lparr>tx := tx c @ be32 (length content), plan := tl (plan c)\<rparr>)" by auto
  from send_content_all [OF w(2), of 0 content "length content"] w(1) assms(2) show ?thesis
    by (auto simp: send_sized_def)
qed

text \<open>Reading a sized file from the front of the stream.\<close>

definition recv_sized :: "nat \<Rightarrow> conn \<Rightarrow> bytes option \<times> conn" where
  "recv_sized blk c =
     (case sk_waitall 4 c of
        (n, hdr, c) \<Rightarrow> if n \<noteq> 4 then (None, c)
          else (case recv_content blk (of_be32 hdr) [] c of
                  (got, ok, c) \<Rightarrow> (if ok then Some got else None, c)))"

lemma recv_sized_all:
  assumes "0 < blk" and "willing d" and "rx d = be32 (length content) @ content @ rest" and "length content < 2 ^ 32"
  shows "\<exists>d'. recv_sized blk d = (Some content, d') \<and> rx d' = rest \<and> willing d'"
proof -
  from sk_waitall_willing [OF assms(2), of 4] assms(3) obtain d1 where
    h: "sk_waitall 4 d = (4, be32 (length content), d1)" "rx d1 = content @ rest" "willing d1" by auto
  from recv_content_all [OF assms(1) h(3), of "[]" "length content"] h(1,2) assms(4) show ?thesis
    by (auto simp: recv_sized_def)
qed

text \<open>The statements after a short \<open>send\<close>: the bytes it did not take are never sent, and the loop ends
  without an error when the file is at its end.\<close>

lemma send_sized_short:
  assumes "plan c = [4, k]" and "0 < k" and "k < int (length content)" and "length content \<le> 4096"
  shows "\<exists>c'. send_sized content c = (True, c') \<and> tx c' = tx c @ be32 (length content) @ take (nat k) content"
proof -
  have ne: "content \<noteq> []" using assms(2,3) by auto
  have s: "send_sized content c = (let (ok, tot, d) = send_content (length content) 0 content
      (c\<lparr>tx := tx c @ be32 (length content), plan := [k]\<rparr>) in (ok, d))"
    using assms(1,4) by (simp add: send_sized_def sk_write_def)
  have e: "send_content (length content) (nat k) [] d = (True, nat k, d)" for d
    using assms(2,3) by (simp add: send_content.simps [of "length content" "nat k" "[]"] Let_def)
  have w: "sk_write content (c\<lparr>tx := tx c @ be32 (length content), plan := [k]\<rparr>)
      = (k, c\<lparr>tx := tx c @ be32 (length content) @ take (nat k) content, plan := []\<rparr>)"
    using assms(2,3) by (simp add: sk_write_def)
  have "send_content (length content) 0 content (c\<lparr>tx := tx c @ be32 (length content), plan := [k]\<rparr>)
      = (True, nat k, c\<lparr>tx := tx c @ be32 (length content) @ take (nat k) content, plan := []\<rparr>)"
    using assms ne w e by (simp add: send_content.simps [of "length content" 0 content] Let_def)
  with s show ?thesis by simp
qed

end
