(* ===== verification/Employer.thy ===== *)
theory Employer
  imports File_Transfer "HOL-Library.Multiset"
begin

text \<open>
  \<open>volcom_agents/employer/volcom_employer.c\<close>: the employer's table of employees and its list of
  task assignments, the calls that keep them, and one round of its main loop. Both static arrays are
  the lists of their live entries (an entry beyond the counter is written before it is read); the
  table of employees is an array of pointers to blocks that only the table points to, so that a
  block is its entry. All of this runs in one thread, which takes the two mutexes in nested but
  never repeated order; they are left out. \<open>now\<close> is what \<open>time(NULL)\<close> returns.
\<close>

section \<open>Data\<close>

datatype agent_mode_t = AGENT_MODE_EMPLOYER | AGENT_MODE_EMPLOYEE | AGENT_MODE_HYBRID

record agent_status_t =
  ag_agent_id :: "char list"
  ag_mode :: agent_mode_t
  ag_ip_address :: "char list"
  ag_port :: int
  ag_start_time :: int
  ag_is_active :: bool
  ag_tasks_completed :: int
  ag_tasks_failed :: int

datatype employee_state_t = EMPLOYEE_STATE_NEW | EMPLOYEE_STATE_CONFIGURED

record employee_node_t =
  en_employee_id :: "char list"
  en_ip_address :: "char list"
  en_last_seen :: int
  en_active_tasks :: int
  en_reliability_score :: int
  en_tasks_completed :: int
  en_tasks_failed :: int
  en_is_available :: bool
  en_sockfd :: int
  en_state :: employee_state_t

record task_assignment_t =
  ta_task_id :: "char list"
  ta_chunk_file :: "char list"
  ta_employee_id :: "char list"
  ta_employee_ip :: "char list"
  ta_assigned_time :: int
  ta_completed_time :: int
  ta_is_sent :: bool
  ta_is_completed :: bool
  ta_retry_count :: int

text \<open>\<open>ep_files\<close> is the content of the files that can be opened.\<close>

record employer =
  ep_assignments :: "task_assignment_t list"
  ep_employees :: "employee_node_t list"
  ep_last_used :: nat
  ep_status :: agent_status_t
  ep_files :: "string \<Rightarrow> bytes option"
  ep_os :: os

definition MAX_EMPLOYEES :: nat where "MAX_EMPLOYEES = 100"
definition MAX_TASK_ASSIGNMENTS :: nat where "MAX_TASK_ASSIGNMENTS = 1000"
definition STALE_THRESHOLD :: int where "STALE_THRESHOLD = 15"
definition TASK_TIMEOUT_SECONDS :: int where "TASK_TIMEOUT_SECONDS = 300"
definition EMPLOYEE_PORT :: int where "EMPLOYEE_PORT = 12345"
definition CHUNKED_SET_PATH :: string where "CHUNKED_SET_PATH = ''./scripts/''"
definition RESULTS_PATH :: string where "RESULTS_PATH = ''./results''"

text \<open>A function of one connection, run on the connection of an open descriptor.\<close>

definition on_conn :: "int \<Rightarrow> (conn \<Rightarrow> 'r \<times> conn) \<Rightarrow> os \<Rightarrow> 'r \<times> os" where
  "on_conn fd f w = (case f (os_conn w fd) of (r, c) \<Rightarrow> (r, w\<lparr>os_conn := (os_conn w)(fd := c)\<rparr>))"

definition same_ip :: "char list \<Rightarrow> employee_node_t \<Rightarrow> bool" where
  "same_ip ip e \<longleftrightarrow> str_eq (en_ip_address e) ip"

section \<open>The table of employees\<close>

text \<open>The loop of \<open>remove_stale_employees\<close>: the last entry takes the place of a removed one, and the
  same position is looked at again.\<close>

function stale_loop :: "int \<Rightarrow> nat \<Rightarrow> employee_node_t list \<Rightarrow> os \<Rightarrow> employee_node_t list \<times> os" where
  "stale_loop now i es w =
     (if i < length es then
        if now - en_last_seen (es ! i) > STALE_THRESHOLD then
          stale_loop now i
            (take (length es - 1) (if i < length es - 1 then es[i := es ! (length es - 1)] else es))
            (if en_sockfd (es ! i) \<ge> 0 then sys_close (en_sockfd (es ! i)) w else w)
        else stale_loop now (Suc i) es w
      else (es, w))"
  by pat_completeness auto
termination
  by (relation "measure (\<lambda>(now, i, es, w). length es - i)") auto

declare stale_loop.simps [simp del]

definition remove_stale_employees :: "int \<Rightarrow> employer \<Rightarrow> employer" where
  "remove_stale_employees now s =
     (case stale_loop now 0 (ep_employees s) (ep_os s) of
        (es, w) \<Rightarrow> s\<lparr>ep_employees := es, ep_os := w\<rparr>)"

text \<open>\<open>mem\<close> is the block \<open>malloc\<close> returns, with whatever it holds. The result is the entry's index.\<close>

definition add_or_update_employee ::
    "'j json_ops \<Rightarrow> int \<Rightarrow> employee_node_t option \<Rightarrow> char list \<Rightarrow> 'j \<Rightarrow> employer \<Rightarrow> nat option \<times> employer" where
  "add_or_update_employee J now mem ip broadcast_data s =
     (case find_index (same_ip ip) (ep_employees s) of
        Some i \<Rightarrow>
          (let e = (ep_employees s ! i)\<lparr>en_last_seen := now\<rparr>;
               (e, w) =
                 (if en_sockfd e < 0 then
                    (let (fd, w) = create_tcp_connection (cstr ip) EMPLOYEE_PORT (ep_os s)
                     in (if fd \<ge> 0 then e\<lparr>en_sockfd := fd, en_state := EMPLOYEE_STATE_NEW\<rparr>
                         else e\<lparr>en_sockfd := fd\<rparr>, w))
                  else (e, ep_os s))
           in (Some i, s\<lparr>ep_employees := (ep_employees s)[i := e], ep_os := w\<rparr>))
      | None \<Rightarrow>
          if length (ep_employees s) < MAX_EMPLOYEES then
            (case mem of
               None \<Rightarrow> (None, s)
             | Some junk \<Rightarrow>
                 (let (fd, w) = create_tcp_connection (cstr ip) EMPLOYEE_PORT (ep_os s);
                      e = junk\<lparr>en_ip_address := strncpy (en_ip_address junk) ip 15,
                               en_employee_id :=
                                 (case j_string J broadcast_data ''employee_id'' of
                                    Some v \<Rightarrow> strncpy (en_employee_id junk) v 63
                                  | None \<Rightarrow> snprintf (en_employee_id junk) 64
                                      (''emp_'' @ dec_int (int (length (ep_employees s))))),
                               en_last_seen := now, en_active_tasks := 0, en_reliability_score := 100,
                               en_tasks_completed := 0, en_tasks_failed := 0,
                               en_state := EMPLOYEE_STATE_NEW, en_sockfd := fd\<rparr>
                  in (Some (length (ep_employees s)),
                      s\<lparr>ep_employees := ep_employees s @ [e], ep_os := w\<rparr>)))
          else (None, s))"

section \<open>Assignments\<close>

definition add_task_assignment :: "task_assignment_t option \<Rightarrow> employer \<Rightarrow> int \<times> employer" where
  "add_task_assignment assignment s =
     (case assignment of
        None \<Rightarrow> (-1, s)
      | Some a \<Rightarrow>
          if length (ep_assignments s) \<ge> MAX_TASK_ASSIGNMENTS then (-1, s)
          else (0, s\<lparr>ep_assignments := ep_assignments s @ [a]\<rparr>))"

definition send_file_to_employee ::
    "'j json_ops \<Rightarrow> (string \<Rightarrow> bytes option) \<Rightarrow> int \<Rightarrow> char list option \<Rightarrow> char list option \<Rightarrow> char list
     \<Rightarrow> os \<Rightarrow> int \<times> os" where
  "send_file_to_employee J files sockfd filepath task_id employee_ip w =
     (case (filepath, task_id) of
        (Some path, Some tid) \<Rightarrow>
          if sockfd < 0 then (-1, w)
          else
            (let metadata = j_add_string J
                   (create_task_metadata J (cstr tid) (cstr path) ''employer'' (cstr employee_ip) ''pending'')
                   ''message_type'' ''data_chunk'';
                 (st, w) = on_conn sockfd (send_json J metadata) w
             in if st \<noteq> PROTOCOL_OK then (-1, w)
                else (case files (cstr path) of
                        None \<Rightarrow> (-1, w)
                      | Some content \<Rightarrow>
                          (let (ok, w) = on_conn sockfd (send_sized content) w in (if ok then 0 else -1, w))))
      | _ \<Rightarrow> (-1, w))"

text \<open>One assignment in the loop of \<open>send_pending_tasks\<close>: the assignment, the number of files sent
  (0 or 1), the employees and the system after it.\<close>

definition send_pending_one ::
    "'j json_ops \<Rightarrow> (string \<Rightarrow> bytes option) \<Rightarrow> task_assignment_t \<Rightarrow> employee_node_t list \<Rightarrow> os
     \<Rightarrow> task_assignment_t \<times> int \<times> employee_node_t list \<times> os" where
  "send_pending_one J files a es w =
     (if \<not> ta_is_sent a \<and> \<not> ta_is_completed a then
        (case find_index (same_ip (ta_employee_ip a)) es of
           None \<Rightarrow> (a, 0, es, w)
         | Some j \<Rightarrow>
             (let e = es ! j in
              if en_sockfd e \<ge> 0 \<and> en_state e = EMPLOYEE_STATE_CONFIGURED then
                (let (result, w) = send_file_to_employee J files (en_sockfd e) (Some (ta_chunk_file a))
                                     (Some (ta_task_id a)) (en_ip_address e) w
                 in if result = 0 then (a\<lparr>ta_is_sent := True\<rparr>, 1, es, w)
                    else (a\<lparr>ta_retry_count := ta_retry_count a + 1\<rparr>, 0,
                          es[j := e\<lparr>en_sockfd := -1, en_is_available := False\<rparr>],
                          sys_close (en_sockfd e) w))
              else (a, 0, es, w)))
      else (a, 0, es, w))"

fun send_pending_loop ::
    "'j json_ops \<Rightarrow> (string \<Rightarrow> bytes option) \<Rightarrow> task_assignment_t list \<Rightarrow> employee_node_t list \<Rightarrow> os
     \<Rightarrow> task_assignment_t list \<times> int \<times> employee_node_t list \<times> os" where
  "send_pending_loop J files [] es w = ([], 0, es, w)"
| "send_pending_loop J files (a # as) es w =
     (let (a', k, es, w) = send_pending_one J files a es w;
          (as', n, es, w) = send_pending_loop J files as es w
      in (a' # as', k + n, es, w))"

definition send_pending_tasks :: "'j json_ops \<Rightarrow> employer \<Rightarrow> int \<times> employer" where
  "send_pending_tasks J s =
     (let (as, sent_count, es, w) =
        send_pending_loop J (ep_files s) (ep_assignments s) (ep_employees s) (ep_os s)
      in (sent_count, s\<lparr>ep_assignments := as, ep_employees := es, ep_os := w\<rparr>))"

definition count_completed_tasks :: "employer \<Rightarrow> int" where
  "count_completed_tasks s =
     foldl (\<lambda>completed a. if ta_is_completed a then completed + 1 else completed) 0 (ep_assignments s)"

definition timeout_one ::
    "int \<Rightarrow> task_assignment_t \<Rightarrow> employee_node_t list \<Rightarrow> task_assignment_t \<times> int \<times> employee_node_t list" where
  "timeout_one now a es =
     (if ta_is_sent a \<and> \<not> ta_is_completed a \<and> now - ta_assigned_time a > TASK_TIMEOUT_SECONDS then
        (a\<lparr>ta_is_sent := False, ta_retry_count := ta_retry_count a + 1\<rparr>, 1,
         (case find_index (same_ip (ta_employee_ip a)) es of
            None \<Rightarrow> es
          | Some j \<Rightarrow>
              es[j := (es ! j)\<lparr>en_reliability_score := en_reliability_score (es ! j) - 10,
                               en_active_tasks := (if en_active_tasks (es ! j) > 0
                                  then en_active_tasks (es ! j) - 1 else en_active_tasks (es ! j))\<rparr>]))
      else (a, 0, es))"

fun timeout_loop ::
    "int \<Rightarrow> task_assignment_t list \<Rightarrow> employee_node_t list
     \<Rightarrow> task_assignment_t list \<times> int \<times> employee_node_t list" where
  "timeout_loop now [] es = ([], 0, es)"
| "timeout_loop now (a # as) es =
     (let (a', k, es) = timeout_one now a es;
          (as', n, es) = timeout_loop now as es
      in (a' # as', k + n, es))"

definition handle_task_timeouts :: "int \<Rightarrow> employer \<Rightarrow> int \<times> employer" where
  "handle_task_timeouts now s =
     (let (as, timeout_count, es) = timeout_loop now (ep_assignments s) (ep_employees s)
      in (timeout_count, s\<lparr>ep_assignments := as, ep_employees := es\<rparr>))"

section \<open>Configuration and results\<close>

text \<open>The result and the state of the employee after it.\<close>

definition send_initial_config ::
    "'j json_ops \<Rightarrow> (string \<Rightarrow> bytes option) \<Rightarrow> employee_node_t \<Rightarrow> os \<Rightarrow> int \<times> employee_node_t \<times> os" where
  "send_initial_config J files e w =
     (let config_filepath = take 511 (CHUNKED_SET_PATH @ ''/object-detection.js'');
          metadata = j_create J;
          metadata = j_add_string J metadata ''message_type'' ''initial_config'';
          metadata = j_add_string J metadata ''task_id'' ''init_script'';
          metadata = j_add_string J metadata ''chunk_filename'' ''script.js'';
          metadata = j_add_string J metadata ''sender_id'' ''employer'';
          (st, w) = on_conn (en_sockfd e) (send_json J metadata) w
      in if st \<noteq> PROTOCOL_OK then (-1, e, w)
         else (case files config_filepath of
                 None \<Rightarrow> (-1, e, w)
               | Some content \<Rightarrow>
                   (let (ok, w) = on_conn (en_sockfd e) (send_sized content) w
                    in if ok then (0, e\<lparr>en_state := EMPLOYEE_STATE_CONFIGURED\<rparr>, w) else (-1, e, w))))"

text \<open>The last loop of \<open>receive_result_from_employee\<close>: the first open assignment with that id is
  completed, and the employee has one task less.\<close>

definition complete_assignment ::
    "int \<Rightarrow> char list \<Rightarrow> task_assignment_t list \<Rightarrow> employee_node_t
     \<Rightarrow> task_assignment_t list \<times> employee_node_t" where
  "complete_assignment now task_id as e =
     (case find_index (\<lambda>a. \<not> ta_is_completed a \<and> str_eq (ta_task_id a) task_id) as of
        None \<Rightarrow> (as, e)
      | Some i \<Rightarrow>
          (as[i := (as ! i)\<lparr>ta_is_completed := True, ta_completed_time := now\<rparr>],
           if en_active_tasks e > 0 then e\<lparr>en_active_tasks := en_active_tasks e - 1\<rparr> else e))"

text \<open>\<open>mem\<close>: whether \<open>malloc\<close> in \<open>recv_json\<close> succeeds; \<open>junk\<close>: the bytes in the local array
  \<open>task_id\<close>; \<open>can_write\<close>: whether a result file can be opened for writing. \<open>i\<close> is the index of the
  employee.\<close>

definition receive_result_from_employee ::
    "'j json_ops \<Rightarrow> bool \<Rightarrow> char list \<Rightarrow> (string \<Rightarrow> bool) \<Rightarrow> int \<Rightarrow> nat \<Rightarrow> employer \<Rightarrow> int \<times> employer" where
  "receive_result_from_employee J mem junk can_write now i s =
     (let e = ep_employees s ! i;
          fd = en_sockfd e;
          ((st, json), w) = on_conn fd (\<lambda>c. case recv_json J mem c of (st, j, c') \<Rightarrow> ((st, j), c')) (ep_os s);
          s = s\<lparr>ep_os := w\<rparr>
      in case (st, json) of
           (PROTOCOL_OK, Some metadata) \<Rightarrow>
             (case (j_string J metadata ''type'', j_string J metadata ''task_id'') of
                (Some ty, Some tid) \<Rightarrow>
                  if ty \<noteq> ''task_result'' then (0, s)
                  else
                    (let task_id = strncpy junk tid 255;
                         ((n, hdr), w) = on_conn fd (\<lambda>c. case sk_waitall 4 c of (n, bs, c') \<Rightarrow> ((n, bs), c')) (ep_os s);
                         s = s\<lparr>ep_os := w\<rparr>
                     in if n \<noteq> 4 then (-1, s)
                        else
                          (let file_size = of_be32 hdr;
                               path = take 511 (RESULTS_PATH @ ''/result_'' @ cstr task_id)
                           in if \<not> can_write path then
                                (let (_, w) = on_conn fd (\<lambda>c. case recv_content 1024 file_size [] c of
                                                (got, ok, c') \<Rightarrow> (ok, c')) (ep_os s)
                                 in (0, s\<lparr>ep_os := w\<rparr>))
                              else
                                (let ((got, ok), w) = on_conn fd (\<lambda>c. case recv_content 4096 file_size [] c of
                                                (got, ok, c') \<Rightarrow> ((got, ok), c')) (ep_os s);
                                     s = s\<lparr>ep_os := w, ep_files := (ep_files s)(path := Some got)\<rparr>
                                 in if \<not> ok then (-1, s)
                                    else (let (as, e') = complete_assignment now task_id (ep_assignments s) e
                                          in (0, s\<lparr>ep_assignments := as,
                                                   ep_employees := (ep_employees s)[i := e']\<rparr>)))))
              | _ \<Rightarrow> (0, s))
         | _ \<Rightarrow> (-1, s))"

section \<open>Giving out tasks\<close>

definition can_take :: "employee_node_t \<Rightarrow> bool" where
  "can_take e \<longleftrightarrow> en_sockfd e \<ge> 0 \<and> en_state e = EMPLOYEE_STATE_CONFIGURED \<and> en_active_tasks e < 3"

text \<open>The round-robin loop of \<open>distribute_new_tasks\<close> with \<open>attempts\<close> left. \<open>junk\<close> is the local
  assignment before its fields are set. An index that points past the table, as \<open>last_used\<close> can
  after employees were removed, reads a pointer that is no longer one: \<open>None\<close>.\<close>

fun distribute_loop :: "int \<Rightarrow> task_assignment_t \<Rightarrow> char list \<Rightarrow> nat \<Rightarrow> employer \<Rightarrow> employer option" where
  "distribute_loop now junk task_file_path 0 s = Some s"
| "distribute_loop now junk task_file_path (Suc attempts) s =
     (if length (ep_employees s) \<le> ep_last_used s then None
      else
        (let e = ep_employees s ! ep_last_used s;
             next_used = (ep_last_used s + 1) mod length (ep_employees s)
         in if can_take e then
              (let task_id = snprintf (replicate 256 NUL) 256 (''task_'' @ dec_int now);
                   assignment = junk\<lparr>ta_task_id := strncpy (ta_task_id junk) task_id 63,
                                     ta_chunk_file := strncpy (ta_chunk_file junk) task_file_path 255,
                                     ta_employee_id := strncpy (ta_employee_id junk) (en_employee_id e) 63,
                                     ta_employee_ip := strncpy (ta_employee_ip junk) (en_ip_address e) 63,
                                     ta_assigned_time := now, ta_is_completed := False,
                                     ta_is_sent := False, ta_retry_count := 0\<rparr>;
                   (r, s) = add_task_assignment (Some assignment) s;
                   s = (if r = 0 then s\<lparr>ep_employees := (ep_employees s)[ep_last_used s :=
                                          e\<lparr>en_active_tasks := en_active_tasks e + 1\<rparr>]\<rparr>
                        else s)
               in Some (s\<lparr>ep_last_used := next_used\<rparr>))
            else distribute_loop now junk task_file_path attempts (s\<lparr>ep_last_used := next_used\<rparr>)))"

definition distribute_new_tasks :: "int \<Rightarrow> task_assignment_t \<Rightarrow> char list \<Rightarrow> employer \<Rightarrow> employer option" where
  "distribute_new_tasks now junk task_file_path s =
     (if ep_employees s = [] then Some s
      else distribute_loop now junk task_file_path (length (ep_employees s)) s)"

text \<open>\<open>strstr(s, sub) != NULL\<close>.\<close>

definition strstr :: "string \<Rightarrow> string \<Rightarrow> bool" where
  "strstr s sub \<longleftrightarrow> list_ex (\<lambda>i. take (length sub) (drop i s) = sub) [0..<Suc (length s)]"

definition zero_assignment :: task_assignment_t where
  "zero_assignment = \<lparr>ta_task_id = replicate 64 NUL, ta_chunk_file = replicate 256 NUL,
     ta_employee_id = replicate 64 NUL, ta_employee_ip = replicate 64 NUL, ta_assigned_time = 0,
     ta_completed_time = 0, ta_is_sent = False, ta_is_completed = False, ta_retry_count = 0\<rparr>"

definition chunk_task :: "string \<Rightarrow> task_assignment_t" where
  "chunk_task d_name =
     zero_assignment\<lparr>ta_task_id := strncpy (ta_task_id zero_assignment) d_name 63,
                     ta_chunk_file := strncpy (ta_chunk_file zero_assignment)
                       (take 511 (CHUNKED_SET_PATH @ ''/'' @ d_name)) 255,
                     ta_is_completed := False, ta_is_sent := False, ta_retry_count := 0\<rparr>"

text \<open>\<open>entries\<close>: the names in the directory, or \<open>None\<close> when it cannot be opened.\<close>

definition populate_chunked_tasks :: "string list option \<Rightarrow> employer \<Rightarrow> employer" where
  "populate_chunked_tasks entries s =
     (case entries of
        None \<Rightarrow> s
      | Some names \<Rightarrow>
          fold (\<lambda>d_name s. if strstr d_name ''.json'' then snd (add_task_assignment (Some (chunk_task d_name)) s)
                           else s) names s)"

text \<open>One assignment in step 4 of the main loop: the first employee that can take a task gets it.\<close>

definition assign_one ::
    "int \<Rightarrow> task_assignment_t \<Rightarrow> employee_node_t list \<Rightarrow> task_assignment_t \<times> employee_node_t list" where
  "assign_one now a es =
     (if \<not> ta_is_sent a \<and> \<not> ta_is_completed a then
        (case find_index can_take es of
           None \<Rightarrow> (a, es)
         | Some j \<Rightarrow>
             (a\<lparr>ta_employee_id := strncpy (ta_employee_id a) (en_employee_id (es ! j)) 63,
                ta_employee_ip := strncpy (ta_employee_ip a) (en_ip_address (es ! j)) 63,
                ta_assigned_time := now\<rparr>,
              es[j := (es ! j)\<lparr>en_active_tasks := en_active_tasks (es ! j) + 1\<rparr>]))
      else (a, es))"

fun assign_loop ::
    "int \<Rightarrow> task_assignment_t list \<Rightarrow> employee_node_t list \<Rightarrow> task_assignment_t list \<times> employee_node_t list" where
  "assign_loop now [] es = ([], es)"
| "assign_loop now (a # as) es =
     (let (a', es) = assign_one now a es;
          (as', es) = assign_loop now as es
      in (a' # as', es))"

definition assign_tasks :: "int \<Rightarrow> employer \<Rightarrow> employer" where
  "assign_tasks now s =
     (let (as, es) = assign_loop now (ep_assignments s) (ep_employees s)
      in s\<lparr>ep_assignments := as, ep_employees := es\<rparr>)"

section \<open>The main loop\<close>

text \<open>What one round meets: whether \<open>select\<close> fails for good, the descriptors it reports, the datagram
  on the discovery socket with the sender's address, the time, and the results of \<open>malloc\<close> and
  \<open>fopen\<close>.\<close>

record round_input =
  in_select_failed :: bool
  in_ready :: "int list"
  in_datagram :: "(bytes \<times> string) option"
  in_now :: int
  in_mem :: "employee_node_t option"
  in_json_mem :: bool
  in_junk :: "char list"
  in_can_write :: "string \<Rightarrow> bool"

definition drop_connection :: "nat \<Rightarrow> employer \<Rightarrow> employer" where
  "drop_connection i s =
     s\<lparr>ep_os := sys_close (en_sockfd (ep_employees s ! i)) (ep_os s),
       ep_employees := (ep_employees s)[i := (ep_employees s ! i)\<lparr>en_sockfd := -1\<rparr>]\<rparr>"

text \<open>Step 1.\<close>

definition discover_step :: "'j json_ops \<Rightarrow> int \<Rightarrow> round_input \<Rightarrow> employer \<Rightarrow> employer" where
  "discover_step J discovery_sockfd inp s =
     (if discovery_sockfd \<in> set (in_ready inp) then
        (case in_datagram inp of
           None \<Rightarrow> s
         | Some (bs, client_ip) \<Rightarrow>
             if bs = [] then s
             else (case j_parse J (cstr (take 2047 bs)) of
                     None \<Rightarrow> s
                   | Some json \<Rightarrow> snd (add_or_update_employee J (in_now inp) (in_mem inp) client_ip json s)))
      else s)"

text \<open>Step 2 from employee \<open>i\<close> on, for \<open>n\<close> employees.\<close>

fun results_step :: "'j json_ops \<Rightarrow> round_input \<Rightarrow> nat \<Rightarrow> nat \<Rightarrow> employer \<Rightarrow> employer" where
  "results_step J inp i 0 s = s"
| "results_step J inp i (Suc n) s =
     (let fd = en_sockfd (ep_employees s ! i);
          s = (if fd \<ge> 0 \<and> fd \<in> set (in_ready inp) then
                 (let (r, s) = receive_result_from_employee J (in_json_mem inp) (in_junk inp)
                                 (in_can_write inp) (in_now inp) i s
                  in if r \<noteq> 0 then drop_connection i s else s)
               else s)
      in results_step J inp (Suc i) n s)"

text \<open>Step 3.\<close>

fun configs_step :: "'j json_ops \<Rightarrow> nat \<Rightarrow> nat \<Rightarrow> employer \<Rightarrow> employer" where
  "configs_step J i 0 s = s"
| "configs_step J i (Suc n) s =
     (let e = ep_employees s ! i;
          s = (if en_sockfd e \<ge> 0 \<and> en_state e = EMPLOYEE_STATE_NEW then
                 (let (r, e', w) = send_initial_config J (ep_files s) e (ep_os s);
                      s = s\<lparr>ep_employees := (ep_employees s)[i := e'], ep_os := w\<rparr>
                  in if r \<noteq> 0 then drop_connection i s else s)
               else s)
      in configs_step J (Suc i) n s)"

text \<open>Steps 1 to 8. The status report of step 7 only prints.\<close>

definition employer_round :: "'j json_ops \<Rightarrow> int \<Rightarrow> round_input \<Rightarrow> employer \<Rightarrow> employer" where
  "employer_round J discovery_sockfd inp s =
     (let s = discover_step J discovery_sockfd inp s;
          s = results_step J inp 0 (length (ep_employees s)) s;
          s = configs_step J 0 (length (ep_employees s)) s;
          s = assign_tasks (in_now inp) s;
          s = snd (send_pending_tasks J s);
          s = snd (handle_task_timeouts (in_now inp) s);
          s = remove_stale_employees (in_now inp) s;
          completed_tasks_count = count_completed_tasks s;
          total_task_count = int (length (ep_assignments s))
      in if total_task_count > 0 \<and> completed_tasks_count \<ge> total_task_count
         then s\<lparr>ep_status := (ep_status s)\<lparr>ag_is_active := False\<rparr>\<rparr> else s)"

fun employer_rounds :: "'j json_ops \<Rightarrow> int \<Rightarrow> round_input list \<Rightarrow> employer \<Rightarrow> employer" where
  "employer_rounds J fd [] s = s"
| "employer_rounds J fd (inp # inps) s =
     (if \<not> ag_is_active (ep_status s) then s
      else if in_select_failed inp then s
      else employer_rounds J fd inps (employer_round J fd inp s))"

text \<open>The end of \<open>employer_main_loop\<close>: every connection is closed and the table emptied.\<close>

definition close_all :: "employee_node_t list \<Rightarrow> os \<Rightarrow> os" where
  "close_all es w = fold (\<lambda>e w. if en_sockfd e \<ge> 0 then sys_close (en_sockfd e) w else w) es w"

definition employer_shutdown :: "int \<Rightarrow> employer \<Rightarrow> employer" where
  "employer_shutdown discovery_sockfd s =
     s\<lparr>ep_os := sys_close discovery_sockfd (close_all (ep_employees s) (ep_os s)), ep_employees := []\<rparr>"

text \<open>The whole of \<open>employer_main_loop\<close> for the rounds \<open>inps\<close>: the set-up with its early returns,
  the rounds, the shutdown. \<open>port\<close> 9876 is the discovery port.\<close>

definition employer_main_loop ::
    "'j json_ops \<Rightarrow> int \<Rightarrow> string list option \<Rightarrow> round_input list \<Rightarrow> employer \<Rightarrow> employer" where
  "employer_main_loop J start entries inps s =
     (let s = populate_chunked_tasks entries s;
          (fd, w) = sys_open (ep_os s)
      in if fd < 0 then s\<lparr>ep_os := w\<rparr>
         else (let (r, w) = sys_call (Sys_setsockopt fd ''SO_BROADCAST'') w
               in if r < 0 then s\<lparr>ep_os := sys_close fd w\<rparr>
                  else (let (r, w) = sys_call (Sys_setsockopt fd ''SO_REUSEADDR'') w
                        in if r < 0 then s\<lparr>ep_os := sys_close fd w\<rparr>
                           else (let (r, w) = sys_call (Sys_bind fd (Addr_any 9876)) w
                                 in if r < 0 then s\<lparr>ep_os := sys_close fd w\<rparr>
                                    else employer_shutdown fd (employer_rounds J fd inps
                                           (s\<lparr>ep_os := w, ep_status := (ep_status s)
                                              \<lparr>ag_mode := AGENT_MODE_EMPLOYER, ag_start_time := start,
                                               ag_is_active := True\<rparr>\<rparr>))))))"

section \<open>Life cycle\<close>

definition init_agent :: "agent_mode_t \<Rightarrow> employer \<Rightarrow> int \<times> employer" where
  "init_agent mode s =
     (0, s\<lparr>ep_status := \<lparr>ag_agent_id = replicate 64 NUL, ag_mode = mode, ag_ip_address = replicate 64 NUL,
           ag_port = 0, ag_start_time = 0, ag_is_active = False, ag_tasks_completed = 0, ag_tasks_failed = 0\<rparr>\<rparr>)"

definition cleanup_agent :: "employer \<Rightarrow> employer" where
  "cleanup_agent s = s\<lparr>ep_status := (ep_status s)\<lparr>ag_is_active := False\<rparr>\<rparr>"

definition get_agent_status :: "employer \<Rightarrow> agent_status_t" where
  "get_agent_status s = ep_status s"

text \<open>\<open>created\<close>: whether \<open>pthread_create\<close> succeeds.\<close>

definition run_employer_mode ::
    "'j json_ops \<Rightarrow> bool \<Rightarrow> int \<Rightarrow> string list option \<Rightarrow> round_input list \<Rightarrow> employer \<Rightarrow> int \<times> employer" where
  "run_employer_mode J created start entries inps s =
     (let s = s\<lparr>ep_status := (ep_status s)\<lparr>ag_is_active := True\<rparr>\<rparr>
      in if \<not> created then (-1, s) else (0, employer_main_loop J start entries inps s))"

end
