(* ===== verification/Employer_Proofs.thy ===== *)
theory Employer_Proofs
  imports Employer
begin

text \<open>
  The proofs about the employer: its invariant (table sizes, task counters, ownership of the open
  descriptors), the effect of each operation, and the properties of whole runs.
\<close>

section \<open>Descriptors as a multiset\<close>

definition node_fd :: "employee_node_t \<Rightarrow> int multiset" where
  "node_fd e = (if en_sockfd e \<ge> 0 then {#en_sockfd e#} else {#})"

definition fds :: "employee_node_t list \<Rightarrow> int multiset" where
  "fds es = (\<Sum>e\<in>#mset es. node_fd e)"

text \<open>The open descriptors are \<open>B\<close> and, each once, those of the connected employees.\<close>

definition owns :: "int multiset \<Rightarrow> employee_node_t list \<Rightarrow> os \<Rightarrow> bool" where
  "owns B es w \<longleftrightarrow> distinct (os_open w) \<and> mset (os_open w) = B + fds es"

lemma fds_simps [simp]: "fds [] = {#}" "fds (e # es) = node_fd e + fds es" "fds (xs @ ys) = fds xs + fds ys"
  by (simp_all add: fds_def)

lemma fds_mset: "mset xs = mset ys \<Longrightarrow> fds xs = fds ys"
  by (simp add: fds_def)

lemma fds_nth: "i < length es \<Longrightarrow> fds es = node_fd (es ! i) + fds (take i es @ drop (Suc i) es)"
  by (subst id_take_nth_drop [of i es]) simp_all

lemma fds_update: "i < length es \<Longrightarrow> fds (es[i := e]) = node_fd e + fds (take i es @ drop (Suc i) es)"
  by (simp add: upd_conv_take_nth_drop)

lemma mset_close:
  assumes "distinct xs" and "mset xs = add_mset a M"
  shows "mset (filter (\<lambda>f. f \<noteq> a) xs) = M"
proof -
  have "mset (filter (\<lambda>f. f \<noteq> a) xs) = mset xs - {#a#}"
    using assms(1) by (induction xs) (auto simp: filter_fresh add_mset_commute)
  with assms(2) show ?thesis by simp
qed

lemma owns_keep: "owns B es w \<Longrightarrow> i < length es \<Longrightarrow> node_fd e = node_fd (es ! i) \<Longrightarrow> owns B (es[i := e]) w"
  by (simp add: owns_def fds_update fds_nth [of i es])

lemma owns_close:
  assumes "owns B es w" and "i < length es" and "0 \<le> en_sockfd (es ! i)" and "node_fd e = {#}"
  shows "owns B (es[i := e]) (sys_close (en_sockfd (es ! i)) w)"
proof -
  have d: "distinct (os_open w)"
    and m: "mset (os_open w) = add_mset (en_sockfd (es ! i)) (B + fds (take i es @ drop (Suc i) es))"
    using assms(1,3) fds_nth [OF assms(2)] by (simp_all add: owns_def node_fd_def)
  from mset_close [OF d m] d assms(2,4) show ?thesis
    by (simp add: owns_def fds_update del: mset_filter)
qed

lemma owns_connect:
  assumes "owns B es w" and "i < length es" and "node_fd (es ! i) = {#}"
    and "fd \<notin> set (os_open w)" and "os_open w' = fd # os_open w" and "node_fd e = {#fd#}"
  shows "owns B (es[i := e]) w'"
  using assms by (simp add: owns_def fds_update fds_nth [of i es])

lemma owns_append:
  assumes "owns B es w" and "fd \<notin> set (os_open w)" and "os_open w' = fd # os_open w" and "node_fd e = {#fd#}"
  shows "owns B (es @ [e]) w'"
  using assms by (simp add: owns_def)

lemma owns_append_none: "owns B es w \<Longrightarrow> os_open w' = os_open w \<Longrightarrow> node_fd e = {#} \<Longrightarrow> owns B (es @ [e]) w'"
  by (simp add: owns_def)

lemma owns_os: "owns B es w \<Longrightarrow> os_open w' = os_open w \<Longrightarrow> owns B es w'"
  by (simp add: owns_def)

lemma on_conn_open [simp]: "os_open (snd (on_conn fd f w)) = os_open w"
  by (simp add: on_conn_def split: prod.splits)

lemma on_conn_openD: "on_conn fd f w = (r, w') \<Longrightarrow> os_open w' = os_open w"
  by (auto simp: on_conn_def split: prod.splits)

lemma create_tcp_connection_cases:
  assumes "create_tcp_connection host port w = (fd, w')"
  obtains "fd < 0" "os_open w' = os_open w"
    | "0 \<le> fd" "fd \<notin> set (os_open w)" "os_open w' = fd # os_open w"
  using assms by (auto simp: create_tcp_connection_def Let_def filter_fresh
      dest!: sys_open_cases sys_call_frame sys_pton_frame split: prod.splits if_splits)

section \<open>Removing stale employees\<close>

definition fresh :: "int \<Rightarrow> employee_node_t \<Rightarrow> bool" where
  "fresh now e \<longleftrightarrow> now - en_last_seen e \<le> STALE_THRESHOLD"

lemma move_last:
  "take (length (ys @ x # zs) - 1)
     (if length ys < length (ys @ x # zs) - 1
      then (ys @ x # zs)[length ys := (ys @ x # zs) ! (length (ys @ x # zs) - 1)] else ys @ x # zs)
   = ys @ (if zs = [] then [] else last zs # butlast zs)"
proof (cases zs rule: rev_cases)
  case Nil
  then show ?thesis by simp
next
  case (snoc ms l)
  then show ?thesis by (simp add: nth_append)
qed

lemma stale_loop_spec:
  assumes "stale_loop now i es w = (es', w')" and "i \<le> length es" and "owns B es w"
  shows "mset es' = mset (take i es) + filter_mset (fresh now) (mset (drop i es)) \<and> owns B es' w'"
  using assms
proof (induction now i es w arbitrary: es' w' rule: stale_loop.induct)
  case (1 now i es w)
  show ?case
  proof (cases "i < length es")
    case False
    with "1.prems" show ?thesis by (simp add: stale_loop.simps [of now i es w])
  next
    case i: True
    define ys where "ys = take i es"
    define x where "x = es ! i"
    define zs where "zs = drop (Suc i) es"
    have es: "es = ys @ x # zs" "length ys = i" "es ! i = x"
      using i by (simp_all add: ys_def x_def zs_def id_take_nth_drop)
    show ?thesis
    proof (cases "fresh now x")
      case True
      then have nf: "\<not> STALE_THRESHOLD < now - en_last_seen (es ! i)" using es(3) by (simp add: fresh_def)
      then have "stale_loop now (Suc i) es w = (es', w')"
        using "1.prems"(1) i by (simp add: stale_loop.simps [of now i es w])
      from "1.IH"(2) [OF i nf this] i "1.prems"(3)
      have "mset es' = mset (take (Suc i) es) + filter_mset (fresh now) (mset (drop (Suc i) es)) \<and> owns B es' w'"
        by simp
      with True i show ?thesis unfolding es(1) by (simp add: es(2) [symmetric])
    next
      case False
      let ?es1 = "take (length es - 1) (if i < length es - 1 then es[i := es ! (length es - 1)] else es)"
      let ?w1 = "if en_sockfd x \<ge> 0 then sys_close (en_sockfd x) w else w"
      have m: "?es1 = ys @ (if zs = [] then [] else last zs # butlast zs)"
        unfolding es(1) es(2) [symmetric] by (rule move_last)
      then have ms: "mset ?es1 = mset ys + mset zs"
        by (cases zs rule: rev_cases) simp_all
      have "fds es = node_fd x + fds ?es1"
        using fds_mset [of ?es1 "ys @ zs"] ms unfolding es(1) by simp
      then have o1: "owns B ?es1 ?w1"
        using "1.prems"(3) mset_close [of "os_open w" "en_sockfd x" "B + fds ?es1"]
        by (auto simp: owns_def node_fd_def simp del: mset_filter)
      have st: "STALE_THRESHOLD < now - en_last_seen x" using False by (simp add: fresh_def)
      have s: "stale_loop now i ?es1 ?w1 = (es', w')"
        using "1.prems"(1) unfolding stale_loop.simps [of now i es w] if_P [OF i] es(3) if_P [OF st] .
      have "i \<le> length ?es1" using i by simp
      note "1.IH"(1) [OF i, unfolded es(3), OF st s this o1]
      then have IH: "mset es' = mset (take i ?es1) + filter_mset (fresh now) (mset (drop i ?es1))" "owns B es' w'"
        by blast+
      have "take i ?es1 = ys" "mset (drop i ?es1) = mset zs"
        unfolding m using es(2) by (cases zs rule: rev_cases; simp)+
      with IH False es show ?thesis by simp
    qed
  qed
qed

section \<open>The invariant\<close>

definition load_ok :: "employee_node_t \<Rightarrow> bool" where
  "load_ok e \<longleftrightarrow> 0 \<le> en_active_tasks e \<and> en_active_tasks e \<le> 3"

definition employer_ok :: "int multiset \<Rightarrow> employer \<Rightarrow> bool" where
  "employer_ok B s \<longleftrightarrow> owns B (ep_employees s) (ep_os s) \<and>
     length (ep_employees s) \<le> MAX_EMPLOYEES \<and> length (ep_assignments s) \<le> MAX_TASK_ASSIGNMENTS \<and>
     (\<forall>e \<in> set (ep_employees s). load_ok e)"

text \<open>What every step does to the assignments: none is lost, none changes its task or file, and a
  completed one stays as it is.\<close>

definition kept :: "task_assignment_t \<Rightarrow> task_assignment_t \<Rightarrow> bool" where
  "kept a a' \<longleftrightarrow> ta_task_id a' = ta_task_id a \<and> ta_chunk_file a' = ta_chunk_file a \<and>
     (ta_is_completed a \<longrightarrow> a' = a)"

definition all_kept :: "task_assignment_t list \<Rightarrow> task_assignment_t list \<Rightarrow> bool" where
  "all_kept = list_all2 kept"

lemma kept_refl [simp]: "kept a a"
  by (simp add: kept_def)

lemma kept_trans: "kept a b \<Longrightarrow> kept b c \<Longrightarrow> kept a c"
  by (auto simp: kept_def)

lemma all_kept_refl [simp]: "all_kept as as"
  by (simp add: all_kept_def list_all2_refl)

lemma all_kept_trans: "all_kept as bs \<Longrightarrow> all_kept bs cs \<Longrightarrow> all_kept as cs"
  unfolding all_kept_def by (rule list_all2_trans [where ?P2.0 = kept]) (blast intro: kept_trans)

lemma all_kept_length: "all_kept as bs \<Longrightarrow> length bs = length as"
  by (auto simp: all_kept_def dest: list_all2_lengthD)

lemma all_kept_simps [simp]: "all_kept [] []" "all_kept (a # as) (b # bs) \<longleftrightarrow> kept a b \<and> all_kept as bs"
  by (simp_all add: all_kept_def)

lemma all_kept_update: "i < length as \<Longrightarrow> kept (as ! i) a \<Longrightarrow> all_kept as (as[i := a])"
  by (auto simp: all_kept_def list_all2_conv_all_nth nth_list_update)

lemma remove_stale_ok:
  assumes "employer_ok B s"
  shows "employer_ok B (remove_stale_employees now s)"
proof -
  obtain es w where l: "stale_loop now 0 (ep_employees s) (ep_os s) = (es, w)" by fastforce
  with assms stale_loop_spec [OF l] have m: "mset es = filter_mset (fresh now) (mset (ep_employees s))" and o: "owns B es w"
    by (auto simp: employer_ok_def)
  from m have "size (mset es) \<le> size (mset (ep_employees s))"
    by (simp only: size_filter_mset_lesseq)
  then have len: "length es \<le> length (ep_employees s)" unfolding size_mset .
  have "set_mset (mset es) \<subseteq> set_mset (mset (ep_employees s))" unfolding m by auto
  then have "set es \<subseteq> set (ep_employees s)" unfolding set_mset_mset .
  note this len o
  with assms l show ?thesis by (fastforce simp: employer_ok_def remove_stale_employees_def)
qed

lemma remove_stale_assignments [simp]: "ep_assignments (remove_stale_employees now s) = ep_assignments s"
    "ep_status (remove_stale_employees now s) = ep_status s"
  by (simp_all add: remove_stale_employees_def split: prod.splits)

lemma add_or_update_ok:
  assumes "employer_ok B s"
  shows "employer_ok B (snd (add_or_update_employee J now mem ip json s))"
proof (cases "find_index (same_ip ip) (ep_employees s)")
  case (Some i)
  then have i: "i < length (ep_employees s)" by (rule find_index_lt)
  let ?e = "ep_employees s ! i"
  obtain fd w where c: "create_tcp_connection (cstr ip) EMPLOYEE_PORT (ep_os s) = (fd, w)" by fastforce
  have l: "load_ok ?e" and o: "owns B (ep_employees s) (ep_os s)"
    using assms i by (auto simp: employer_ok_def)
  show ?thesis
  proof (cases "en_sockfd ?e < 0")
    case False
    with Some assms i l owns_keep [OF o i, of "?e\<lparr>en_last_seen := now\<rparr>"] show ?thesis
      by (auto simp: add_or_update_employee_def employer_ok_def node_fd_def load_ok_def
          dest!: set_update_subset_insert [THEN subsetD])
  next
    case True
    from c show ?thesis
    proof (cases rule: create_tcp_connection_cases)
      case 1
      with True Some c assms i l owns_os [OF owns_keep [OF o i, of "?e\<lparr>en_last_seen := now, en_sockfd := fd\<rparr>"], of w]
      show ?thesis
        by (auto simp: add_or_update_employee_def employer_ok_def node_fd_def load_ok_def
            dest!: set_update_subset_insert [THEN subsetD])
    next
      case 2
      with True Some c assms i l owns_connect [OF o i _ 2(2,3),
          of "?e\<lparr>en_last_seen := now, en_sockfd := fd, en_state := EMPLOYEE_STATE_NEW\<rparr>"]
      show ?thesis
        by (auto simp: add_or_update_employee_def employer_ok_def node_fd_def load_ok_def
            dest!: set_update_subset_insert [THEN subsetD])
    qed
  qed
next
  case None
  obtain fd w where c: "create_tcp_connection (cstr ip) EMPLOYEE_PORT (ep_os s) = (fd, w)" by fastforce
  have o: "owns B (ep_employees s) (ep_os s)" using assms by (simp add: employer_ok_def)
  from c show ?thesis
  proof (cases rule: create_tcp_connection_cases)
    case 1
    with None c assms show ?thesis
      by (auto simp: add_or_update_employee_def employer_ok_def node_fd_def load_ok_def
          intro!: owns_append_none split: option.splits)
  next
    case 2
    with None c assms show ?thesis
      by (auto simp: add_or_update_employee_def employer_ok_def node_fd_def load_ok_def
          intro!: owns_append split: option.splits)
  qed
qed

lemma add_or_update_assignments [simp]:
  "ep_assignments (snd (add_or_update_employee J now mem ip json s)) = ep_assignments s"
  "ep_status (snd (add_or_update_employee J now mem ip json s)) = ep_status s"
  by (simp_all add: add_or_update_employee_def Let_def split: option.splits prod.splits)

section \<open>Each step keeps the invariant and the assignments\<close>

text \<open>For a list of employees alone: same length, every load in bounds.\<close>

definition loads_ok :: "employee_node_t list \<Rightarrow> bool" where
  "loads_ok es \<longleftrightarrow> (\<forall>e \<in> set es. load_ok e)"

lemma loads_ok_update: "loads_ok es \<Longrightarrow> load_ok e \<Longrightarrow> loads_ok (es[i := e])"
  by (auto simp: loads_ok_def dest!: set_update_subset_insert [THEN subsetD])

lemma loads_ok_nth: "loads_ok es \<Longrightarrow> i < length es \<Longrightarrow> load_ok (es ! i)"
  by (simp add: loads_ok_def)

lemma employer_ok_loads: "employer_ok B s \<longleftrightarrow> owns B (ep_employees s) (ep_os s) \<and>
     length (ep_employees s) \<le> MAX_EMPLOYEES \<and> length (ep_assignments s) \<le> MAX_TASK_ASSIGNMENTS \<and>
     loads_ok (ep_employees s)"
  by (simp add: employer_ok_def loads_ok_def)

lemma send_file_open:
  "send_file_to_employee J files fd path tid ip w = (r, w') \<Longrightarrow> os_open w' = os_open w"
  by (auto simp: send_file_to_employee_def Let_def split: option.splits if_splits prod.splits
      dest!: on_conn_openD)

lemma send_pending_one_ok:
  assumes "send_pending_one J files a es w = (a', k, es', w')" and "owns B es w" and "loads_ok es"
  shows "owns B es' w' \<and> loads_ok es' \<and> length es' = length es \<and> kept a a' \<and> 0 \<le> k"
proof (cases "find_index (same_ip (ta_employee_ip a)) es")
  case None
  with assms show ?thesis by (auto simp: send_pending_one_def split: if_splits)
next
  case (Some j)
  then have j: "j < length es" by (rule find_index_lt)
  obtain r w1 where f: "send_file_to_employee J files (en_sockfd (es ! j)) (Some (ta_chunk_file a))
      (Some (ta_task_id a)) (en_ip_address (es ! j)) w = (r, w1)" by fastforce
  have o: "owns B es w1" using owns_os [OF assms(2)] send_file_open [OF f] by simp
  have l: "load_ok (es ! j)" using assms(3) j by (rule loads_ok_nth)
  have d: "owns B (es[j := (es ! j)\<lparr>en_sockfd := -1, en_is_available := False\<rparr>]) (sys_close (en_sockfd (es ! j)) w1)"
    if "0 \<le> en_sockfd (es ! j)" using owns_close [OF o j that] by (simp add: node_fd_def)
  have ld: "loads_ok (es[j := (es ! j)\<lparr>en_sockfd := -1, en_is_available := False\<rparr>])"
    using l by (intro loads_ok_update assms(3)) (simp add: load_ok_def)
  from assms Some f o d ld show ?thesis
    by (auto simp: send_pending_one_def kept_def Let_def split: if_splits)
qed

lemma send_pending_loop_ok:
  "send_pending_loop J files as es w = (as', n, es', w') \<Longrightarrow> owns B es w \<Longrightarrow> loads_ok es \<Longrightarrow>
     owns B es' w' \<and> loads_ok es' \<and> length es' = length es \<and> all_kept as as' \<and> 0 \<le> n"
proof (induction as arbitrary: es w as' n es' w')
  case Nil
  then show ?case by simp
next
  case (Cons a as)
  obtain a1 k es1 w1 where one: "send_pending_one J files a es w = (a1, k, es1, w1)" by (rule prod_cases4)
  obtain as2 m es2 w2 where rest: "send_pending_loop J files as es1 w1 = (as2, m, es2, w2)" by (rule prod_cases4)
  from send_pending_one_ok [OF one Cons.prems(2,3)] Cons.IH [OF rest] one rest Cons.prems(1)
  show ?case by auto
qed

lemma send_pending_ok:
  assumes "employer_ok B s"
  shows "employer_ok B (snd (send_pending_tasks J s)) \<and>
    all_kept (ep_assignments s) (ep_assignments (snd (send_pending_tasks J s))) \<and>
    ep_status (snd (send_pending_tasks J s)) = ep_status s"
proof -
  obtain as n es w where l: "send_pending_loop J (ep_files s) (ep_assignments s) (ep_employees s) (ep_os s)
      = (as, n, es, w)" by (rule prod_cases4)
  with send_pending_loop_ok [OF l, of B] assms show ?thesis
    by (auto simp: employer_ok_loads send_pending_tasks_def dest: all_kept_length)
qed

lemma timeout_one_ok:
  assumes "timeout_one now a es = (a', k, es')" and "owns B es w" and "loads_ok es"
  shows "owns B es' w \<and> loads_ok es' \<and> length es' = length es \<and> kept a a' \<and> 0 \<le> k"
proof (cases "find_index (same_ip (ta_employee_ip a)) es")
  case None
  with assms show ?thesis by (auto simp: timeout_one_def kept_def split: if_splits)
next
  case (Some j)
  then have j: "j < length es" by (rule find_index_lt)
  let ?e = "(es ! j)\<lparr>en_reliability_score := en_reliability_score (es ! j) - 10,
      en_active_tasks := (if en_active_tasks (es ! j) > 0 then en_active_tasks (es ! j) - 1
        else en_active_tasks (es ! j))\<rparr>"
  have "owns B (es[j := ?e]) w" by (rule owns_keep [OF assms(2) j]) (simp add: node_fd_def)
  moreover have "load_ok ?e" using loads_ok_nth [OF assms(3) j] by (auto simp: load_ok_def)
  ultimately show ?thesis using assms Some loads_ok_update [OF assms(3)]
    by (auto simp: timeout_one_def kept_def split: if_splits)
qed

lemma timeout_loop_ok:
  "timeout_loop now as es = (as', n, es') \<Longrightarrow> owns B es w \<Longrightarrow> loads_ok es \<Longrightarrow>
     owns B es' w \<and> loads_ok es' \<and> length es' = length es \<and> all_kept as as' \<and> 0 \<le> n"
proof (induction as arbitrary: es as' n es')
  case Nil
  then show ?case by simp
next
  case (Cons a as)
  obtain a1 k es1 where one: "timeout_one now a es = (a1, k, es1)" by (rule prod_cases3)
  obtain as2 m es2 where rest: "timeout_loop now as es1 = (as2, m, es2)" by (rule prod_cases3)
  from timeout_one_ok [OF one Cons.prems(2,3)] Cons.IH [OF rest] one rest Cons.prems(1)
  show ?case by auto
qed

lemma timeouts_ok:
  assumes "employer_ok B s"
  shows "employer_ok B (snd (handle_task_timeouts now s)) \<and>
    all_kept (ep_assignments s) (ep_assignments (snd (handle_task_timeouts now s))) \<and>
    ep_status (snd (handle_task_timeouts now s)) = ep_status s"
proof -
  obtain as n es where l: "timeout_loop now (ep_assignments s) (ep_employees s) = (as, n, es)"
    by (rule prod_cases3)
  with timeout_loop_ok [OF l, of B "ep_os s"] assms show ?thesis
    by (auto simp: employer_ok_loads handle_task_timeouts_def dest: all_kept_length)
qed

lemma assign_one_ok:
  assumes "assign_one now a es = (a', es')" and "owns B es w" and "loads_ok es"
  shows "owns B es' w \<and> loads_ok es' \<and> length es' = length es \<and> kept a a'"
proof (cases "find_index can_take es")
  case None
  with assms show ?thesis by (auto simp: assign_one_def split: if_splits)
next
  case (Some j)
  then have j: "j < length es" and c: "can_take (es ! j)" by (rule find_index_lt, rule find_index_holds)
  let ?e = "(es ! j)\<lparr>en_active_tasks := en_active_tasks (es ! j) + 1\<rparr>"
  have "owns B (es[j := ?e]) w" by (rule owns_keep [OF assms(2) j]) (simp add: node_fd_def)
  moreover have "load_ok ?e" using loads_ok_nth [OF assms(3) j] c by (auto simp: load_ok_def can_take_def)
  ultimately show ?thesis using assms Some loads_ok_update [OF assms(3)]
    by (auto simp: assign_one_def kept_def split: if_splits)
qed

lemma assign_loop_ok:
  "assign_loop now as es = (as', es') \<Longrightarrow> owns B es w \<Longrightarrow> loads_ok es \<Longrightarrow>
     owns B es' w \<and> loads_ok es' \<and> length es' = length es \<and> all_kept as as'"
proof (induction as arbitrary: es as' es')
  case Nil
  then show ?case by simp
next
  case (Cons a as)
  obtain a1 es1 where one: "assign_one now a es = (a1, es1)" by fastforce
  obtain as2 es2 where rest: "assign_loop now as es1 = (as2, es2)" by fastforce
  from assign_one_ok [OF one Cons.prems(2,3)] Cons.IH [OF rest] one rest Cons.prems(1)
  show ?case by auto
qed

lemma assign_tasks_ok:
  assumes "employer_ok B s"
  shows "employer_ok B (assign_tasks now s) \<and> all_kept (ep_assignments s) (ep_assignments (assign_tasks now s)) \<and>
    ep_status (assign_tasks now s) = ep_status s"
proof -
  obtain as es where l: "assign_loop now (ep_assignments s) (ep_employees s) = (as, es)" by fastforce
  with assign_loop_ok [OF l, of B "ep_os s"] assms show ?thesis
    by (auto simp: employer_ok_loads assign_tasks_def dest: all_kept_length)
qed

lemma drop_connection_ok:
  assumes "employer_ok B s" and "i < length (ep_employees s)" and "0 \<le> en_sockfd (ep_employees s ! i)"
  shows "employer_ok B (drop_connection i s)"
proof -
  have "owns B ((ep_employees s)[i := (ep_employees s ! i)\<lparr>en_sockfd := -1\<rparr>])
      (sys_close (en_sockfd (ep_employees s ! i)) (ep_os s))"
    using assms by (intro owns_close) (simp_all add: employer_ok_def node_fd_def)
  moreover have "load_ok ((ep_employees s ! i)\<lparr>en_sockfd := -1\<rparr>)"
    using assms by (simp add: employer_ok_def load_ok_def)
  ultimately show ?thesis
    using assms(1) by (simp add: employer_ok_loads drop_connection_def loads_ok_update)
qed

lemma drop_connection_simps [simp]: "ep_assignments (drop_connection i s) = ep_assignments s"
    "ep_status (drop_connection i s) = ep_status s"
    "length (ep_employees (drop_connection i s)) = length (ep_employees s)"
  by (simp_all add: drop_connection_def)

lemma employer_ok_os: "employer_ok B s \<Longrightarrow> os_open w = os_open (ep_os s) \<Longrightarrow> employer_ok B (s\<lparr>ep_os := w\<rparr>)"
  by (simp add: employer_ok_def owns_def)

lemma employer_ok_files [simp]: "employer_ok B (s\<lparr>ep_files := f\<rparr>) = employer_ok B s"
  by (simp add: employer_ok_def)

lemma employer_ok_status [simp]: "employer_ok B (s\<lparr>ep_status := st\<rparr>) = employer_ok B s"
  by (simp add: employer_ok_def)

lemma complete_assignment_ok:
  assumes "complete_assignment now tid as e = (as', e')"
  shows "all_kept as as' \<and> en_sockfd e' = en_sockfd e \<and> (load_ok e \<longrightarrow> load_ok e')"
proof (cases "find_index (\<lambda>a. \<not> ta_is_completed a \<and> str_eq (ta_task_id a) tid) as")
  case None
  with assms show ?thesis by (auto simp: complete_assignment_def)
next
  case (Some i)
  then have i: "i < length as" "\<not> ta_is_completed (as ! i)" by (auto dest: find_index_SomeD)
  have "kept (as ! i) ((as ! i)\<lparr>ta_is_completed := True, ta_completed_time := now\<rparr>)"
    using i by (simp add: kept_def)
  from all_kept_update [OF i(1) this] assms Some show ?thesis
    by (auto simp: complete_assignment_def load_ok_def)
qed

text \<open>What \<open>receive_result_from_employee\<close> can do: nothing but use the connection and write a file, or
  complete an assignment of a task.\<close>

inductive result_effect :: "int \<Rightarrow> nat \<Rightarrow> employer \<Rightarrow> employer \<Rightarrow> bool" for now i s where
  used: "os_open w = os_open (ep_os s) \<Longrightarrow> result_effect now i s (s\<lparr>ep_os := w\<rparr>)"
| saved: "os_open w = os_open (ep_os s) \<Longrightarrow> result_effect now i s (s\<lparr>ep_os := w, ep_files := f\<rparr>)"
| completed: "os_open w = os_open (ep_os s) \<Longrightarrow>
    complete_assignment now tid (ep_assignments s) (ep_employees s ! i) = (as, e) \<Longrightarrow>
    result_effect now i s (s\<lparr>ep_os := w, ep_files := f, ep_assignments := as,
                             ep_employees := (ep_employees s)[i := e]\<rparr>)"

lemma receive_result_effect:
  assumes "receive_result_from_employee J mem junk cw now i s = (r, s')"
  shows "result_effect now i s s'"
  using assms
  by (auto simp: receive_result_from_employee_def Let_def split: prod.splits option.splits if_splits
      protocol_status_t.splits dest!: on_conn_openD intro: result_effect.intros)

lemma result_effect_ok:
  assumes "result_effect now i s s'" and "employer_ok B s" and "i < length (ep_employees s)"
  shows "employer_ok B s' \<and> all_kept (ep_assignments s) (ep_assignments s') \<and>
     length (ep_employees s') = length (ep_employees s) \<and> ep_status s' = ep_status s \<and>
     en_sockfd (ep_employees s' ! i) = en_sockfd (ep_employees s ! i)"
  using assms(1)
proof cases
  case (used w)
  with assms(2) show ?thesis by (simp add: employer_ok_def owns_def)
next
  case (saved w f)
  with assms(2) show ?thesis by (simp add: employer_ok_def owns_def)
next
  case (completed w tid as e f)
  from complete_assignment_ok [OF completed(3)] have c: "all_kept (ep_assignments s) as"
    "en_sockfd e = en_sockfd (ep_employees s ! i)" "load_ok (ep_employees s ! i) \<longrightarrow> load_ok e" by auto
  have l: "loads_ok (ep_employees s)" and o: "owns B (ep_employees s) (ep_os s)"
    using assms(2) by (simp_all add: employer_ok_loads)
  have "owns B ((ep_employees s)[i := e]) (ep_os s)"
    by (rule owns_keep [OF o assms(3)]) (simp add: c(2) node_fd_def)
  then have "owns B ((ep_employees s)[i := e]) w" by (rule owns_os) (rule completed(2))
  moreover have "loads_ok ((ep_employees s)[i := e])"
    using c(3) loads_ok_nth [OF l assms(3)] by (intro loads_ok_update [OF l]) simp
  ultimately show ?thesis
    using assms(2,3) c all_kept_length [OF c(1)] by (simp add: completed(1) employer_ok_loads)
qed

lemma results_step_ok:
  "employer_ok B s \<Longrightarrow> i + n \<le> length (ep_employees s) \<Longrightarrow>
     employer_ok B (results_step J inp i n s) \<and>
     all_kept (ep_assignments s) (ep_assignments (results_step J inp i n s)) \<and>
     length (ep_employees (results_step J inp i n s)) = length (ep_employees s) \<and>
     ep_status (results_step J inp i n s) = ep_status s"
proof (induction n arbitrary: i s)
  case 0
  then show ?case by simp
next
  case (Suc n)
  let ?fd = "en_sockfd (ep_employees s ! i)"
  obtain r t where t: "receive_result_from_employee J (in_json_mem inp) (in_junk inp)
      (in_can_write inp) (in_now inp) i s = (r, t)" by fastforce
  have i: "i < length (ep_employees s)" using Suc.prems(2) by simp
  let ?u = "if ?fd \<ge> 0 \<and> ?fd \<in> set (in_ready inp) then if r \<noteq> 0 then drop_connection i t else t else s"
  from result_effect_ok [OF receive_result_effect [OF t] Suc.prems(1) i]
  have e: "employer_ok B t" "all_kept (ep_assignments s) (ep_assignments t)"
    "length (ep_employees t) = length (ep_employees s)" "ep_status t = ep_status s"
    "en_sockfd (ep_employees t ! i) = ?fd" by auto
  have "employer_ok B ?u \<and> all_kept (ep_assignments s) (ep_assignments ?u) \<and>
      length (ep_employees ?u) = length (ep_employees s) \<and> ep_status ?u = ep_status s"
    using drop_connection_ok [OF e(1)] e i Suc.prems(1) by auto
  moreover have "results_step J inp i (Suc n) s = results_step J inp (Suc i) n ?u"
    by (simp add: t Let_def)
  ultimately show ?case
    using Suc.IH [of ?u "Suc i"] Suc.prems(2) by (auto intro: all_kept_trans)
qed

lemma send_initial_config_ok:
  assumes "send_initial_config J files e w = (r, e', w')"
  shows "os_open w' = os_open w \<and> (e' = e \<or> e' = e\<lparr>en_state := EMPLOYEE_STATE_CONFIGURED\<rparr>)"
  using assms by (auto simp: send_initial_config_def Let_def split: prod.splits option.splits if_splits
      dest!: on_conn_openD)

lemma configs_step_ok:
  "employer_ok B s \<Longrightarrow> i + n \<le> length (ep_employees s) \<Longrightarrow>
     employer_ok B (configs_step J i n s) \<and> ep_assignments (configs_step J i n s) = ep_assignments s \<and>
     length (ep_employees (configs_step J i n s)) = length (ep_employees s) \<and>
     ep_status (configs_step J i n s) = ep_status s"
proof (induction n arbitrary: i s)
  case 0
  then show ?case by simp
next
  case (Suc n)
  let ?e = "ep_employees s ! i"
  obtain r e' w where c: "send_initial_config J (ep_files s) ?e (ep_os s) = (r, e', w)" by (rule prod_cases3)
  have i: "i < length (ep_employees s)" using Suc.prems(2) by simp
  let ?t = "s\<lparr>ep_employees := (ep_employees s)[i := e'], ep_os := w\<rparr>"
  let ?u = "if en_sockfd ?e \<ge> 0 \<and> en_state ?e = EMPLOYEE_STATE_NEW
    then if r \<noteq> 0 then drop_connection i ?t else ?t else s"
  from send_initial_config_ok [OF c] have e: "os_open w = os_open (ep_os s)" "node_fd e' = node_fd ?e"
    "en_sockfd e' = en_sockfd ?e" "load_ok ?e \<longrightarrow> load_ok e'"
    by (auto simp: node_fd_def load_ok_def)
  have l: "loads_ok (ep_employees s)" and o: "owns B (ep_employees s) (ep_os s)"
    using Suc.prems(1) by (simp_all add: employer_ok_loads)
  have "owns B ((ep_employees s)[i := e']) w" by (rule owns_os [OF owns_keep [OF o i e(2)] e(1)])
  moreover have "loads_ok ((ep_employees s)[i := e'])"
    using e(4) loads_ok_nth [OF l i] by (intro loads_ok_update [OF l]) simp
  ultimately have t: "employer_ok B ?t" using Suc.prems(1) by (simp add: employer_ok_loads)
  have "employer_ok B ?u \<and> ep_assignments ?u = ep_assignments s \<and>
      length (ep_employees ?u) = length (ep_employees s) \<and> ep_status ?u = ep_status s"
    using drop_connection_ok [OF t, of i] t e(3) i Suc.prems(1) by auto
  moreover have "configs_step J i (Suc n) s = configs_step J (Suc i) n ?u"
    by (simp add: c Let_def)
  ultimately show ?case
    using Suc.IH [of ?u "Suc i"] Suc.prems(2) by auto
qed

section \<open>Rounds and whole runs\<close>

lemma discover_step_ok:
  assumes "employer_ok B s"
  shows "employer_ok B (discover_step J fd inp s) \<and> ep_assignments (discover_step J fd inp s) = ep_assignments s"
  using assms add_or_update_ok [OF assms]
  by (auto simp: discover_step_def split: option.splits prod.splits)

lemma employer_round_ok:
  assumes "employer_ok B s"
  shows "employer_ok B (employer_round J fd inp s) \<and>
    all_kept (ep_assignments s) (ep_assignments (employer_round J fd inp s))"
proof -
  define s1 where "s1 = discover_step J fd inp s"
  define s2 where "s2 = results_step J inp 0 (length (ep_employees s1)) s1"
  define s3 where "s3 = configs_step J 0 (length (ep_employees s2)) s2"
  define s4 where "s4 = assign_tasks (in_now inp) s3"
  define s5 where "s5 = snd (send_pending_tasks J s4)"
  define s6 where "s6 = snd (handle_task_timeouts (in_now inp) s5)"
  define s7 where "s7 = remove_stale_employees (in_now inp) s6"
  have 1: "employer_ok B s1" "ep_assignments s1 = ep_assignments s"
    using discover_step_ok [OF assms] by (auto simp: s1_def)
  have 2: "employer_ok B s2" "all_kept (ep_assignments s1) (ep_assignments s2)"
    using results_step_ok [OF 1(1), of 0] by (auto simp: s2_def)
  have 3: "employer_ok B s3" "ep_assignments s3 = ep_assignments s2"
    using configs_step_ok [OF 2(1), of 0] by (auto simp: s3_def)
  have 4: "employer_ok B s4" "all_kept (ep_assignments s3) (ep_assignments s4)"
    using assign_tasks_ok [OF 3(1)] by (auto simp: s4_def)
  have 5: "employer_ok B s5" "all_kept (ep_assignments s4) (ep_assignments s5)"
    using send_pending_ok [OF 4(1)] by (auto simp: s5_def)
  have 6: "employer_ok B s6" "all_kept (ep_assignments s5) (ep_assignments s6)"
    using timeouts_ok [OF 5(1)] by (auto simp: s6_def)
  have 7: "employer_ok B s7" "ep_assignments s7 = ep_assignments s6"
    using remove_stale_ok [OF 6(1)] by (auto simp: s7_def)
  have k: "all_kept (ep_assignments s) (ep_assignments s7)"
    using 1(2) 2(2) 3(2) 4(2) 5(2) 6(2) 7(2) by (metis all_kept_trans)
  have "employer_round J fd inp s = (if 0 < length (ep_assignments s7) \<and>
      int (length (ep_assignments s7)) \<le> count_completed_tasks s7
      then s7\<lparr>ep_status := (ep_status s7)\<lparr>ag_is_active := False\<rparr>\<rparr> else s7)"
    unfolding employer_round_def Let_def s7_def s6_def s5_def s4_def s3_def s2_def s1_def by simp
  with 7(1) k show ?thesis by simp
qed

lemma employer_rounds_ok:
  "employer_ok B s \<Longrightarrow> employer_ok B (employer_rounds J fd inps s) \<and>
     all_kept (ep_assignments s) (ep_assignments (employer_rounds J fd inps s))"
proof (induction inps arbitrary: s)
  case Nil
  then show ?case by simp
next
  case (Cons inp inps)
  from employer_round_ok [OF Cons.prems, of J fd inp] Cons.IH [of "employer_round J fd inp s"] Cons.prems
  show ?case by (auto intro: all_kept_trans)
qed

lemma close_all_open:
  "distinct (os_open w) \<Longrightarrow> mset (os_open w) = B + fds es \<Longrightarrow>
     distinct (os_open (close_all es w)) \<and> mset (os_open (close_all es w)) = B"
proof (induction es arbitrary: w)
  case Nil
  then show ?case by (simp add: close_all_def)
next
  case (Cons e es)
  let ?w = "if en_sockfd e \<ge> 0 then sys_close (en_sockfd e) w else w"
  have "mset (os_open ?w) = B + fds es"
    using Cons.prems mset_close [of "os_open w" "en_sockfd e" "B + fds es"]
    by (auto simp: node_fd_def simp del: mset_filter)
  moreover have "distinct (os_open ?w)" using Cons.prems(1) by simp
  ultimately show ?case using Cons.IH [of ?w] by (simp add: close_all_def)
qed

lemma populate_ok:
  assumes "employer_ok B s"
  shows "employer_ok B (populate_chunked_tasks entries s) \<and>
    ep_os (populate_chunked_tasks entries s) = ep_os s \<and>
    ep_employees (populate_chunked_tasks entries s) = ep_employees s"
proof -
  have "employer_ok B t \<Longrightarrow>
      let u = fold (\<lambda>d_name s. if strstr d_name ''.json'' then snd (add_task_assignment (Some (chunk_task d_name)) s)
                           else s) names t
      in employer_ok B u \<and> ep_os u = ep_os t \<and> ep_employees u = ep_employees t" for names t
  proof (induction names arbitrary: t)
    case Nil
    then show ?case by simp
  next
    case (Cons d names)
    let ?t = "if strstr d ''.json'' then snd (add_task_assignment (Some (chunk_task d)) t) else t"
    have "employer_ok B ?t \<and> ep_os ?t = ep_os t \<and> ep_employees ?t = ep_employees t"
      using Cons.prems by (auto simp: add_task_assignment_def employer_ok_def)
    with Cons.IH [of ?t] show ?case by (simp add: Let_def)
  qed
  with assms show ?thesis by (cases entries) (auto simp: populate_chunked_tasks_def Let_def)
qed

lemma shutdown_open:
  assumes "employer_ok (add_mset fd B) s"
  shows "distinct (os_open (ep_os (employer_shutdown fd s))) \<and> mset (os_open (ep_os (employer_shutdown fd s))) = B"
proof -
  from assms have "distinct (os_open (close_all (ep_employees s) (ep_os s))) \<and>
      mset (os_open (close_all (ep_employees s) (ep_os s))) = add_mset fd B"
    by (intro close_all_open) (simp_all add: employer_ok_def owns_def)
  then have "distinct (os_open (close_all (ep_employees s) (ep_os s)))"
    "mset (filter (\<lambda>f. f \<noteq> fd) (os_open (close_all (ep_employees s) (ep_os s)))) = B"
    by (blast intro: mset_close)+
  then show ?thesis by (simp add: employer_shutdown_def del: mset_filter)
qed

section \<open>Properties\<close>

text \<open>C16: the employer leaks no descriptor: started with an empty table, a whole run of its main loop,
  with any rounds, any failures of the system calls and any behaviour of the peers, ends with
  exactly the descriptors open that were open at its start, and with an empty table.\<close>
theorem employer_leaks_nothing:
  assumes "ep_employees s = []" and "distinct (os_open (ep_os s))"
    and "length (ep_assignments s) \<le> MAX_TASK_ASSIGNMENTS"
  shows "mset (os_open (ep_os (employer_main_loop J start entries inps s))) = mset (os_open (ep_os s)) \<and>
    ep_employees (employer_main_loop J start entries inps s) = []"
proof -
  let ?B = "mset (os_open (ep_os s))"
  define p where "p = populate_chunked_tasks entries s"
  have "employer_ok ?B s" using assms by (simp add: employer_ok_def owns_def)
  from populate_ok [OF this, of entries] assms(1) have p: "employer_ok ?B p" "ep_os p = ep_os s" "ep_employees p = []"
    by (auto simp: p_def)
  obtain fd w where o: "sys_open (ep_os p) = (fd, w)" by fastforce
  obtain r1 w1 where c1: "sys_call (Sys_setsockopt fd ''SO_BROADCAST'') w = (r1, w1)" by fastforce
  obtain r2 w2 where c2: "sys_call (Sys_setsockopt fd ''SO_REUSEADDR'') w1 = (r2, w2)" by fastforce
  obtain r3 w3 where c3: "sys_call (Sys_bind fd (Addr_any 9876)) w2 = (r3, w3)" by fastforce
  note frames = sys_call_frame [OF c1] sys_call_frame [OF c2] sys_call_frame [OF c3]
  let ?t = "p\<lparr>ep_os := w3, ep_status := (ep_status p)\<lparr>ag_mode := AGENT_MODE_EMPLOYER,
      ag_start_time := start, ag_is_active := True\<rparr>\<rparr>"
  have main: "employer_main_loop J start entries inps s =
      (if fd < 0 then p\<lparr>ep_os := w\<rparr> else if r1 < 0 then p\<lparr>ep_os := sys_close fd w1\<rparr>
       else if r2 < 0 then p\<lparr>ep_os := sys_close fd w2\<rparr> else if r3 < 0 then p\<lparr>ep_os := sys_close fd w3\<rparr>
       else employer_shutdown fd (employer_rounds J fd inps ?t))"
    using o c1 c2 c3 by (simp add: employer_main_loop_def Let_def p_def)
  show ?thesis
  proof (cases "fd < 0")
    case True
    with main sys_open_cases [OF o] p show ?thesis by simp
  next
    case False
    with sys_open_cases [OF o] have f: "fd \<notin> set (os_open (ep_os p))" "os_open w = fd # os_open (ep_os p)" by auto
    with frames have opn: "os_open w1 = fd # os_open (ep_os p)" "os_open w2 = fd # os_open (ep_os p)"
      "os_open w3 = fd # os_open (ep_os p)" by auto
    have "employer_ok (add_mset fd ?B) ?t"
      using p f opn by (simp add: employer_ok_def owns_def)
    then have "employer_ok (add_mset fd ?B) (employer_rounds J fd inps ?t)"
      using employer_rounds_ok by blast
    from shutdown_open [OF this] have e: "mset (os_open (ep_os (employer_shutdown fd (employer_rounds J fd inps ?t)))) = ?B" ..
    have fl: "filter (\<lambda>f. f \<noteq> fd) (os_open (ep_os p)) = os_open (ep_os p)" using f(1) by (rule filter_fresh)
    show ?thesis
      unfolding main using False e fl opn p by (simp add: employer_shutdown_def del: mset_filter)
  qed
qed

text \<open>C17: every round of the main loop keeps the employer sound: at most 100 employees and 1000
  assignments, each employee's count of active tasks between 0 and 3, every connected employee with
  an open descriptor of its own; and no assignment is lost, changes its task or file, or is touched
  again once it is completed.\<close>
theorem employer_round_sound:
  assumes "employer_ok B s"
  shows "let s' = employer_round J fd inp s in
    length (ep_employees s') \<le> 100 \<and> length (ep_assignments s') = length (ep_assignments s) \<and>
    (\<forall>e \<in> set (ep_employees s'). 0 \<le> en_active_tasks e \<and> en_active_tasks e \<le> 3) \<and>
    distinct (os_open (ep_os s')) \<and> mset (os_open (ep_os s')) = B + fds (ep_employees s') \<and>
    (\<forall>i < length (ep_assignments s). kept (ep_assignments s ! i) (ep_assignments s' ! i))"
proof -
  let ?s' = "employer_round J fd inp s"
  from employer_round_ok [OF assms] have o: "employer_ok B ?s'" and k: "all_kept (ep_assignments s) (ep_assignments ?s')"
    by blast+
  from k have "\<forall>i < length (ep_assignments s). kept (ep_assignments s ! i) (ep_assignments ?s' ! i)"
    by (auto simp: all_kept_def dest: list_all2_nthD)
  with o all_kept_length [OF k] show ?thesis
    by (simp add: employer_ok_def owns_def load_ok_def MAX_EMPLOYEES_def Let_def)
qed

text \<open>C19: \<open>remove_stale_employees\<close> removes exactly the employees not seen for more than 15 seconds,
  although it moves entries about while it scans, and closes exactly their descriptors.\<close>
theorem remove_stale_exact:
  assumes "owns B (ep_employees s) (ep_os s)"
  shows "let s' = remove_stale_employees now s in
    mset (ep_employees s') = filter_mset (\<lambda>e. now - en_last_seen e \<le> 15) (mset (ep_employees s)) \<and>
    distinct (os_open (ep_os s')) \<and> mset (os_open (ep_os s')) = B + fds (ep_employees s')"
proof -
  obtain es w where l: "stale_loop now 0 (ep_employees s) (ep_os s) = (es, w)" by fastforce
  have "fresh now = (\<lambda>e. now - en_last_seen e \<le> 15)" by (simp add: fresh_def STALE_THRESHOLD_def fun_eq_iff)
  with stale_loop_spec [OF l _ assms] l show ?thesis
    by (simp add: remove_stale_employees_def owns_def)
qed

text \<open>\<open>handle_task_timeouts\<close> reopens exactly the assignments that were sent, are not completed and
  are older than 300 seconds, counts a retry on each and returns their number;
  \<open>count_completed_tasks\<close> returns the number of completed assignments.\<close>
theorem timeouts_exact:
  shows "let late = (\<lambda>a. ta_is_sent a \<and> \<not> ta_is_completed a \<and> now - ta_assigned_time a > 300);
             (n, s') = handle_task_timeouts now s
         in n = int (length (filter late (ep_assignments s))) \<and>
            ep_assignments s' = map (\<lambda>a. if late a then a\<lparr>ta_is_sent := False,
                ta_retry_count := ta_retry_count a + 1\<rparr> else a) (ep_assignments s) \<and>
            count_completed_tasks s' = int (length (filter ta_is_completed (ep_assignments s)))"
proof -
  let ?late = "\<lambda>a. ta_is_sent a \<and> \<not> ta_is_completed a \<and> now - ta_assigned_time a > 300"
  let ?f = "\<lambda>a. if ?late a then a\<lparr>ta_is_sent := False, ta_retry_count := ta_retry_count a + 1\<rparr> else a"
  have l: "timeout_loop now as es = (as', n, es') \<Longrightarrow> n = int (length (filter ?late as)) \<and> as' = map ?f as"
    for as es as' n es'
  proof (induction as arbitrary: es as' n es')
    case Nil
    then show ?case by simp
  next
    case (Cons a as)
    obtain a1 k es1 where one: "timeout_one now a es = (a1, k, es1)" by (rule prod_cases3)
    obtain as2 m es2 where rest: "timeout_loop now as es1 = (as2, m, es2)" by (rule prod_cases3)
    from one Cons.IH [OF rest] rest Cons.prems show ?case
      by (auto simp: timeout_one_def TASK_TIMEOUT_SECONDS_def split: if_splits)
  qed
  have c: "foldl (\<lambda>completed a. if ta_is_completed a then completed + 1 else completed) k as
      = k + int (length (filter ta_is_completed as))" for k as
    by (induction as arbitrary: k) auto
  have m: "filter ta_is_completed (map ?f as) = filter ta_is_completed as" for as :: "task_assignment_t list"
    by (induction as) auto
  have c': "count_completed_tasks (t\<lparr>ep_assignments := map ?f as, ep_employees := es\<rparr>)
      = int (length (filter ta_is_completed as))" for t as es
    unfolding count_completed_tasks_def c using m by (simp del: length_filter_map)
  obtain as n es where t: "timeout_loop now (ep_assignments s) (ep_employees s) = (as, n, es)" by (rule prod_cases3)
  from l [OF t] t c' show ?thesis
    by (simp add: handle_task_timeouts_def Let_def)
qed

text \<open>\<open>send_pending_tasks\<close> returns the number of assignments it newly marks as sent; it only marks
  assignments that were neither sent nor completed, and completes none.\<close>
theorem send_pending_counts:
  shows "let (n, s') = send_pending_tasks J s in
    list_all2 (\<lambda>a a'. ta_is_completed a' = ta_is_completed a \<and> (ta_is_sent a \<longrightarrow> a' = a) \<and>
      (ta_is_sent a' \<and> \<not> ta_is_sent a \<longrightarrow> \<not> ta_is_completed a)) (ep_assignments s) (ep_assignments s') \<and>
    int (length (filter ta_is_sent (ep_assignments s'))) = int (length (filter ta_is_sent (ep_assignments s))) + n"
proof -
  let ?R = "\<lambda>a a'. ta_is_completed a' = ta_is_completed a \<and> (ta_is_sent a \<longrightarrow> a' = a) \<and>
      (ta_is_sent a' \<and> \<not> ta_is_sent a \<longrightarrow> \<not> ta_is_completed a)"
  have l: "send_pending_loop J files as es w = (as', n, es', w') \<Longrightarrow> list_all2 ?R as as' \<and>
      int (length (filter ta_is_sent as')) = int (length (filter ta_is_sent as)) + n" for files as es w as' n es' w'
  proof (induction as arbitrary: es w as' n es' w')
    case Nil
    then show ?case by simp
  next
    case (Cons a as)
    obtain a1 k es1 w1 where one: "send_pending_one J files a es w = (a1, k, es1, w1)" by (rule prod_cases4)
    obtain as2 m es2 w2 where rest: "send_pending_loop J files as es1 w1 = (as2, m, es2, w2)" by (rule prod_cases4)
    from one have "?R a a1 \<and> (if ta_is_sent a1 then 1 else 0) = (if ta_is_sent a then 1 else 0) + k"
      by (auto simp: send_pending_one_def Let_def split: if_splits option.splits prod.splits)
    with Cons.IH [OF rest] one rest Cons.prems show ?case by auto
  qed
  obtain as n es w where t: "send_pending_loop J (ep_files s) (ep_assignments s) (ep_employees s) (ep_os s)
      = (as, n, es, w)" by (rule prod_cases4)
  from l [OF t] t show ?thesis by (simp add: send_pending_tasks_def)
qed

text \<open>a failed send costs the employee one of its three task places for good: the assignment step
  counts the task on the employee, the failed send leaves it pending without taking it off again,
  and the reconnection keeps the count, so the next round counts the same task once more.\<close>
theorem failed_send_keeps_count:
  assumes "ep_assignments s = [a]" and "ep_employees s = [e]"
    and "\<not> ta_is_sent a" and "\<not> ta_is_completed a" and "can_take e"
    and "ep_files s (cstr (ta_chunk_file a)) = None"
    and "length (ta_employee_ip a) = 64" and "length (cstr (en_ip_address e)) < 16"
  shows "let s1 = assign_tasks now s; s2 = snd (send_pending_tasks J s1);
             s3 = snd (add_or_update_employee J now' mem (en_ip_address e) json s2)
         in en_sockfd (ep_employees s2 ! 0) = -1 \<and> length (ep_employees s3) = 1 \<and>
            en_active_tasks (ep_employees s3 ! 0) = en_active_tasks e + 1 \<and>
            length (ep_assignments s3) = 1 \<and> \<not> ta_is_sent (ep_assignments s3 ! 0) \<and>
            \<not> ta_is_completed (ep_assignments s3 ! 0)"
proof -
  let ?a = "a\<lparr>ta_employee_id := strncpy (ta_employee_id a) (en_employee_id e) 63,
      ta_employee_ip := strncpy (ta_employee_ip a) (en_ip_address e) 63, ta_assigned_time := now\<rparr>"
  let ?e = "e\<lparr>en_active_tasks := en_active_tasks e + 1\<rparr>"
  let ?a2 = "?a\<lparr>ta_retry_count := ta_retry_count a + 1\<rparr>"
  let ?e2 = "?e\<lparr>en_sockfd := -1, en_is_available := False\<rparr>"
  have one: "assign_tasks now s = s\<lparr>ep_assignments := [?a], ep_employees := [?e]\<rparr>"
    using assms(1-5) by (simp add: assign_tasks_def assign_one_def Let_def)
  have "cstr (strncpy (ta_employee_ip a) (en_ip_address e) 63) = cstr (en_ip_address e)"
    using assms(7,8) by (intro strncpy_fits) simp_all
  then have ip: "same_ip (ta_employee_ip ?a) ?e" by (simp add: same_ip_def str_eq_def)
  have fail: "\<exists>w'. send_file_to_employee J (ep_files s) fd (Some (ta_chunk_file a)) tid i w = (-1, w')" for fd tid i w
    using assms(6) by (auto simp: send_file_to_employee_def Let_def split: option.splits prod.splits)
  have c: "0 \<le> en_sockfd e" "en_state e = EMPLOYEE_STATE_CONFIGURED" using assms(5) by (simp_all add: can_take_def)
  obtain w' where w': "send_file_to_employee J (ep_files s) (en_sockfd e) (Some (ta_chunk_file a))
      (Some (ta_task_id a)) (en_ip_address e) (ep_os s) = (-1, w')" using fail by blast
  have two: "snd (send_pending_tasks J (s\<lparr>ep_assignments := [?a], ep_employees := [?e]\<rparr>))
      = s\<lparr>ep_assignments := [?a2], ep_employees := [?e2], ep_os := sys_close (en_sockfd e) w'\<rparr>"
    using assms(3,4) ip c w' by (simp add: send_pending_tasks_def send_pending_one_def Let_def)
  have "same_ip (en_ip_address e) ?e2" by (simp add: same_ip_def)
  then show ?thesis
    unfolding Let_def one two using assms(3,4)
    by (auto simp: add_or_update_employee_def Let_def split: prod.splits)
qed

text \<open>Addresses of at most 14 characters arrive whole in the 16-byte field.\<close>

lemma short_ip_stored:
  assumes "length (cstr ip) \<le> 14" and "length buf = 16"
  shows "cstr (strncpy buf ip 15) = cstr ip"
  using assms by (intro strncpy_fits) simp_all

text \<open>broadcasts from addresses of at most 14 characters keep one entry per address: after a
  broadcast there is exactly one employee with its address, seen now, or none when the table is
  full or memory runs out, and no two employees share an address.\<close>
theorem one_entry_per_address:
  assumes "distinct (map (\<lambda>e. cstr (en_ip_address e)) (ep_employees s))"
    and "length (cstr ip) \<le> 14" and "\<forall>junk. mem = Some junk \<longrightarrow> length (en_ip_address junk) = 16"
  shows "let (r, s') = add_or_update_employee J now mem ip json s in
    distinct (map (\<lambda>e. cstr (en_ip_address e)) (ep_employees s')) \<and>
    (case r of
       Some i \<Rightarrow> i < length (ep_employees s') \<and> cstr (en_ip_address (ep_employees s' ! i)) = cstr ip \<and>
         en_last_seen (ep_employees s' ! i) = now
     | None \<Rightarrow> (\<forall>e \<in> set (ep_employees s'). cstr (en_ip_address e) \<noteq> cstr ip) \<and>
         (mem = None \<or> length (ep_employees s) \<ge> 100))"
proof (cases "find_index (same_ip ip) (ep_employees s)")
  case (Some i)
  from find_index_SomeD [OF Some] have i: "i < length (ep_employees s)"
    "cstr (en_ip_address (ep_employees s ! i)) = cstr ip" by (auto simp: same_ip_def str_eq_def)
  have "map (\<lambda>e. cstr (en_ip_address e)) ((ep_employees s)[i := e]) = map (\<lambda>e. cstr (en_ip_address e)) (ep_employees s)"
    if "en_ip_address e = en_ip_address (ep_employees s ! i)" for e
    using that i by (intro map_update_same_key) simp_all
  with Some i assms(1) show ?thesis
    by (auto simp: add_or_update_employee_def Let_def split: prod.splits)
next
  case None
  then have n: "\<forall>e \<in> set (ep_employees s). cstr (en_ip_address e) \<noteq> cstr ip"
    by (auto simp: find_index_None same_ip_def str_eq_def)
  show ?thesis
  proof (cases mem)
    case (Some junk)
    with assms(2,3) have "cstr (strncpy (en_ip_address junk) ip 15) = cstr ip"
      by (intro short_ip_stored) simp_all
    with None Some n assms(1) show ?thesis
      by (auto simp: add_or_update_employee_def Let_def nth_append MAX_EMPLOYEES_def split: prod.splits option.splits)
  qed (use None n assms(1) in \<open>simp add: add_or_update_employee_def MAX_EMPLOYEES_def\<close>)
qed

text \<open>an address of 15 characters, such as 192.168.100.100, fills the field without a terminator:
  unless the uninitialised last byte happens to be NUL the stored address differs from it, and the
  next broadcast of the same employee is entered, and connected to, as another one.\<close>
theorem long_address_duplicates:
  assumes "length (cstr ip) = 15" and "length (en_ip_address junk) = 16" and "en_ip_address junk ! 15 \<noteq> NUL"
    and "\<forall>e \<in> set (ep_employees s). cstr (en_ip_address e) \<noteq> cstr ip"
    and "length (ep_employees s) + 1 < 100"
  shows "let s1 = snd (add_or_update_employee J now (Some junk) ip json s);
             s2 = snd (add_or_update_employee J now' (Some junk) ip json s1)
         in length (ep_employees s2) = length (ep_employees s) + 2 \<and>
            \<not> terminated (en_ip_address (ep_employees s1 ! length (ep_employees s)))"
proof -
  let ?f = "strncpy (en_ip_address junk) ip 15"
  have d: "drop 15 (en_ip_address junk) = [en_ip_address junk ! 15]"
    using assms(2) by (simp add: Cons_nth_drop_Suc [symmetric])
  have f: "?f = cstr ip @ [en_ip_address junk ! 15]"
    using assms(1) d by (simp add: strncpy_def)
  have t: "\<not> terminated ?f" using assms(3) by (auto simp: f terminated_def)
  have "cstr ?f = ?f" using t by (intro cstr_id) (simp add: terminated_def)
  then have ne: "cstr ?f \<noteq> cstr ip" unfolding f by simp
  have add: "\<exists>e w. snd (add_or_update_employee J n (Some junk) ip json u)
        = u\<lparr>ep_employees := ep_employees u @ [e], ep_os := w\<rparr> \<and> en_ip_address e = ?f"
    if "\<forall>e \<in> set (ep_employees u). cstr (en_ip_address e) \<noteq> cstr ip" "length (ep_employees u) < 100" for u n
  proof -
    have "find_index (same_ip ip) (ep_employees u) = None"
      using that(1) by (auto simp: find_index_None same_ip_def str_eq_def)
    with that(2) show ?thesis
      by (auto simp: add_or_update_employee_def Let_def MAX_EMPLOYEES_def split: prod.splits)
  qed
  have "length (ep_employees s) < 100" using assms(5) by simp
  from add [OF assms(4) this] obtain e w where
    e: "snd (add_or_update_employee J now (Some junk) ip json s)
        = s\<lparr>ep_employees := ep_employees s @ [e], ep_os := w\<rparr>" "en_ip_address e = ?f" by blast
  let ?s1 = "s\<lparr>ep_employees := ep_employees s @ [e], ep_os := w\<rparr>"
  have "\<forall>e \<in> set (ep_employees ?s1). cstr (en_ip_address e) \<noteq> cstr ip" using assms(4) e(2) ne by auto
  from add [OF this, of now'] assms(5) obtain e' w' where
    "snd (add_or_update_employee J now' (Some junk) ip json ?s1)
        = ?s1\<lparr>ep_employees := ep_employees ?s1 @ [e'], ep_os := w'\<rparr>" by auto
  with e t show ?thesis by (simp add: Let_def)
qed

section \<open>The properties on a small employer\<close>

definition demo_agent :: agent_status_t where
  "demo_agent = \<lparr>ag_agent_id = zbuf 64 ''a'', ag_mode = AGENT_MODE_EMPLOYER, ag_ip_address = zbuf 64 ''h'',
     ag_port = 0, ag_start_time = 0, ag_is_active = True, ag_tasks_completed = 0, ag_tasks_failed = 0\<rparr>"

definition demo_node :: "string \<Rightarrow> int \<Rightarrow> int \<Rightarrow> employee_node_t" where
  "demo_node ip fd seen = \<lparr>en_employee_id = zbuf 64 ''e'', en_ip_address = zbuf 16 ip, en_last_seen = seen,
     en_active_tasks = 1, en_reliability_score = 100, en_tasks_completed = 0, en_tasks_failed = 0,
     en_is_available = True, en_sockfd = fd, en_state = EMPLOYEE_STATE_CONFIGURED\<rparr>"

definition demo_assignment :: "string \<Rightarrow> bool \<Rightarrow> bool \<Rightarrow> task_assignment_t" where
  "demo_assignment tid sent fin = \<lparr>ta_task_id = zbuf 64 tid, ta_chunk_file = zbuf 256 ''f'',
     ta_employee_id = zbuf 64 ''e'', ta_employee_ip = zbuf 64 ''h'', ta_assigned_time = 0, ta_completed_time = 0,
     ta_is_sent = sent, ta_is_completed = fin, ta_retry_count = 0\<rparr>"

definition demo_employer :: "task_assignment_t list \<Rightarrow> employee_node_t list \<Rightarrow> employer" where
  "demo_employer as es = \<lparr>ep_assignments = as, ep_employees = es, ep_last_used = 0, ep_status = demo_agent,
     ep_files = (\<lambda>_. None), ep_os = demo_os\<rparr>"

definition demo_round :: round_input where
  "demo_round = \<lparr>in_select_failed = False, in_ready = [4], in_datagram = Some (''xx'', ''h''), in_now = 20,
     in_mem = Some (demo_node ''q'' 0 0), in_json_mem = True, in_junk = replicate 256 NUL,
     in_can_write = (\<lambda>_. True)\<rparr>"

lemmas demo_defs = demo_employer_def demo_os_def demo_node_def demo_assignment_def

theorem employer_leaks_nothing_witness:
  "mset (os_open (ep_os (employer_main_loop demo_json 0 (Some [''a.json'']) [demo_round, demo_round]
     (demo_employer [] [])))) = {#0, 1, 2, 3#}"
  using employer_leaks_nothing [of "demo_employer [] []" demo_json 0 "Some [''a.json'']" "[demo_round, demo_round]"]
  by (simp add: demo_defs add_mset_commute)

theorem employer_round_sound_witness:
  "kept (demo_assignment ''t'' False True)
     (ep_assignments (employer_round demo_json 4 demo_round
        (demo_employer [demo_assignment ''t'' False True] [demo_node ''h'' 3 10])) ! 0)"
proof -
  have "employer_ok {#0, 1, 2#} (demo_employer [demo_assignment ''t'' False True] [demo_node ''h'' 3 10])"
    by (simp add: employer_ok_def owns_def node_fd_def load_ok_def MAX_EMPLOYEES_def MAX_TASK_ASSIGNMENTS_def
        demo_defs add_mset_commute)
  from employer_round_sound [OF this, of demo_json 4 demo_round] show ?thesis
    by (simp add: demo_employer_def Let_def)
qed

theorem remove_stale_exact_witness:
  "mset (ep_employees (remove_stale_employees 20 (demo_employer [] [demo_node ''a'' 2 1, demo_node ''b'' 3 9, demo_node ''c'' (-1) 2])))
     = {#demo_node ''b'' 3 9#}"
proof -
  have "owns {#0, 1#} (ep_employees (demo_employer [] [demo_node ''a'' 2 1, demo_node ''b'' 3 9, demo_node ''c'' (-1) 2]))
      (ep_os (demo_employer [] [demo_node ''a'' 2 1, demo_node ''b'' 3 9, demo_node ''c'' (-1) 2]))"
    by (simp add: owns_def node_fd_def demo_defs add_mset_commute)
  from remove_stale_exact [OF this, of 20] show ?thesis
    by (simp add: demo_employer_def demo_node_def Let_def)
qed

theorem send_pending_counts_witness:
  "list_all2 (\<lambda>a a'. ta_is_sent a \<longrightarrow> a' = a) [demo_assignment ''t'' True False]
     (ep_assignments (snd (send_pending_tasks demo_json
        (demo_employer [demo_assignment ''t'' True False] [demo_node ''h'' 3 10]))))"
  using send_pending_counts [of demo_json "demo_employer [demo_assignment ''t'' True False] [demo_node ''h'' 3 10]"]
  by (auto simp: demo_employer_def Let_def list_all2_Cons1 split: prod.splits)

theorem failed_send_keeps_count_witness:
  "en_active_tasks (ep_employees (snd (add_or_update_employee demo_json 9 None (zbuf 16 ''h'') 0
     (snd (send_pending_tasks demo_json (assign_tasks 5
        (demo_employer [demo_assignment ''t'' False False] [demo_node ''h'' 3 10])))))) ! 0) = 2"
  using failed_send_keeps_count [of "demo_employer [demo_assignment ''t'' False False] [demo_node ''h'' 3 10]"
      "demo_assignment ''t'' False False" "demo_node ''h'' 3 10" 5 demo_json 9 None 0]
  by (simp add: demo_employer_def demo_assignment_def demo_node_def can_take_def cstr_zbuf Let_def)

theorem one_entry_per_address_witness:
  "distinct (map (\<lambda>e. cstr (en_ip_address e)) (ep_employees (snd (add_or_update_employee demo_json 30
     (Some (demo_node ''q'' 0 0)) ''i'' 0 (demo_employer [] [demo_node ''h'' 3 10])))))"
  using one_entry_per_address [of "demo_employer [] [demo_node ''h'' 3 10]" "''i''" "Some (demo_node ''q'' 0 0)" demo_json 30 0]
  by (auto simp: demo_employer_def demo_node_def cstr_def Let_def split: prod.splits)

theorem long_address_duplicates_witness:
  "length (ep_employees (snd (add_or_update_employee demo_json 31 (Some (demo_node (replicate 16 CHR ''q'') 0 0))
     ''192.168.100.100'' 0 (snd (add_or_update_employee demo_json 30
       (Some (demo_node (replicate 16 CHR ''q'') 0 0)) ''192.168.100.100'' 0 (demo_employer [] [])))))) = 2"
  using long_address_duplicates [of "''192.168.100.100''" "demo_node (replicate 16 CHR ''q'') 0 0" "demo_employer [] []" demo_json 30 0 31]
  by (simp add: demo_employer_def demo_node_def cstr_def zbuf_def Let_def)

end
