(* ===== verification/Employee.thy ===== *)
theory Employee
  imports Employer Task_Management Unix_Socket
begin

text \<open>
  \<open>volcom_agents/employee/volcom_employee.c\<close>: the connection with the employer (receiving task
  files, sending result files) and with the node script (reading one JSON response of unknown
  length from the Unix socket). The connection is the \<open>conn\<close> of the employer's descriptor.
\<close>

section \<open>Receiving a complete JSON response\<close>

text \<open>The four variables of the scan.\<close>

record json_scan =
  sc_brace_count :: int
  sc_in_string :: bool
  sc_escape_next :: bool
  sc_json_started :: bool

definition scan_start :: json_scan where
  "scan_start = \<lparr>sc_brace_count = 0, sc_in_string = False, sc_escape_next = False, sc_json_started = False\<rparr>"

text \<open>One character: the variables after it, and whether it ends the object.\<close>

definition scan_char :: "json_scan \<Rightarrow> char \<Rightarrow> json_scan \<times> bool" where
  "scan_char s c =
     (if sc_escape_next s then (s\<lparr>sc_escape_next := False\<rparr>, False)
      else if sc_in_string s then
        (if c = CHR 0x5C then (s\<lparr>sc_escape_next := True\<rparr>, False)
         else if c = CHR 0x22 then (s\<lparr>sc_in_string := False\<rparr>, False)
         else (s, False))
      else if c = CHR 0x22 then (s\<lparr>sc_in_string := True\<rparr>, False)
      else if c = CHR ''{'' then
        (s\<lparr>sc_json_started := True, sc_brace_count := sc_brace_count s + 1\<rparr>, False)
      else if c = CHR ''}'' then
        (let s = s\<lparr>sc_brace_count := sc_brace_count s - 1\<rparr>
         in (s, sc_json_started s \<and> sc_brace_count s = 0))
      else (s, False))"

text \<open>A chunk: it stops at the character that ends the object.\<close>

fun scan_chunk :: "json_scan \<Rightarrow> char list \<Rightarrow> json_scan \<times> bool" where
  "scan_chunk s [] = (s, False)"
| "scan_chunk s (c # cs) =
     (case scan_char s c of (s', fin) \<Rightarrow> if fin then (s', True) else scan_chunk s' cs)"

text \<open>The reading loop: \<open>got\<close> are the \<open>total_bytes\<close> bytes at the front of the buffer, behind which
  it is all zero. The result is the return value, the content and the sockets after it.\<close>

function json_loop ::
    "nat \<Rightarrow> json_scan \<Rightarrow> char list \<Rightarrow> unix_sockets \<Rightarrow> (int \<times> char list \<times> unix_sockets) option" where
  "json_loop buffer_size sc got u =
     (if length got < buffer_size - 1 then
        (case unix_socket_client_receive_message (Some (replicate 1024 NUL)) 1023 u of
           None \<Rightarrow> None
         | Some (chunk_bytes, tmp, u') \<Rightarrow>
             if chunk_bytes \<le> 0 then
               (if got \<noteq> [] then Some (int (length got), got, u') else Some (chunk_bytes, got, u'))
             else
               (let n = (if length got + nat chunk_bytes \<ge> buffer_size then buffer_size - length got - 1
                         else nat chunk_bytes);
                    chunk = take n (the tmp)
                in (case scan_chunk sc chunk of
                      (sc', fin) \<Rightarrow>
                        if fin then Some (int (length (got @ chunk)), got @ chunk, u')
                        else json_loop buffer_size sc' (got @ chunk) u')))
      else Some (int (length got), got, u))"
  by pat_completeness auto
termination
  by (relation "measure (\<lambda>(buffer_size, sc, got, u). buffer_size - length got)")
    (auto dest!: unix_client_receive_positive simp: min_def)

declare json_loop.simps [simp del]

definition receive_complete_json_response ::
    "bool \<Rightarrow> nat \<Rightarrow> unix_sockets \<Rightarrow> (int \<times> char list \<times> unix_sockets) option" where
  "receive_complete_json_response buffer buffer_size u =
     (if \<not> buffer \<or> buffer_size = 0 then Some (-1, [], u)
      else json_loop buffer_size scan_start [] u)"

section \<open>Results to the employer\<close>

definition send_result_to_employer ::
    "'j json_ops \<Rightarrow> (string \<Rightarrow> bytes option) \<Rightarrow> int \<Rightarrow> result_info_t option \<Rightarrow> conn \<Rightarrow> int \<times> conn" where
  "send_result_to_employer J files sockfd result c =
     (case result of
        None \<Rightarrow> (-1, c)
      | Some res \<Rightarrow>
          if sockfd < 0 then (-1, c)
          else (case files (cstr (ri_result_filepath res)) of
                  None \<Rightarrow> (-1, c)
                | Some content \<Rightarrow>
                    (let metadata = j_create J;
                         metadata = j_add_string J metadata ''type'' ''task_result'';
                         metadata = j_add_string J metadata ''task_id'' (cstr (ri_task_id res));
                         metadata = j_add_number J metadata ''result_size'' (int (length content));
                         (st, c) = send_json J metadata c
                     in if st \<noteq> PROTOCOL_OK then (-1, c)
                        else (let (ok, c) = send_sized content c in (if ok then 0 else -1, c)))))"

section \<open>Tasks from the employer\<close>

text \<open>\<open>json_mem\<close> and \<open>data_mem\<close>: whether the two \<open>malloc\<close> calls succeed; \<open>can_write\<close>: whether the
  local copy can be opened for writing. The result is the return value, the task, the files and the
  connection.\<close>

definition receive_task_from_employer ::
    "'j json_ops \<Rightarrow> bool \<Rightarrow> bool \<Rightarrow> (string \<Rightarrow> bool) \<Rightarrow> int \<Rightarrow> received_task_t option \<Rightarrow> (string \<Rightarrow> bytes option)
     \<Rightarrow> conn \<Rightarrow> int \<times> received_task_t option \<times> (string \<Rightarrow> bytes option) \<times> conn" where
  "receive_task_from_employer J json_mem data_mem can_write now task files c =
     (case task of
        None \<Rightarrow> (-1, None, files, c)
      | Some t \<Rightarrow>
          (case recv_json J json_mem c of
             (PROTOCOL_OK, Some metadata, c) \<Rightarrow>
               (case (j_string J metadata ''task_id'', j_string J metadata ''chunk_filename'',
                      j_string J metadata ''sender_id'', j_string J metadata ''message_type'') of
                  (Some task_id, Some chunk_filename, Some sender_id, Some message_type) \<Rightarrow>
                    (let t = t\<lparr>rt_task_id := strncpy (rt_task_id t) task_id 255,
                               rt_chunk_filename := strncpy (rt_chunk_filename t) chunk_filename 255,
                               rt_sender_id := strncpy (rt_sender_id t) sender_id 63,
                               rt_received_time := now, rt_is_processed := False,
                               rt_frame_no := (case j_number J metadata ''frame_no'' of
                                                 Some n \<Rightarrow> n | None \<Rightarrow> -1)\<rparr>;
                         (n, hdr, c) = sk_waitall 4 c;
                         file_size = of_be32 hdr
                     in if n \<noteq> 4 then (-1, Some t, files, c)
                        else if file_size = 0 \<or> file_size > 100 * 1024 * 1024 then (-1, Some t, files, c)
                        else if \<not> data_mem then (-1, Some (t\<lparr>rt_data := Null\<rparr>), files, c)
                        else
                          (let t = t\<lparr>rt_data_size := word_of_nat file_size\<rparr>;
                               (got, ok, c) = recv_content 4096 file_size [] c
                           in if \<not> ok then (-1, Some (t\<lparr>rt_data := Null\<rparr>), files, c)
                              else
                                (let t = t\<lparr>rt_data := Live got\<rparr>;
                                     local_filename = take 511 (''/tmp/employee_task_'' @ cstr (rt_task_id t))
                                 in if can_write local_filename
                                    then (0, Some (t\<lparr>rt_chunk_filename := strncpy (rt_chunk_filename t) local_filename 255\<rparr>),
                                          files(local_filename := Some got), c)
                                    else (0, Some t, files, c))))
                | _ \<Rightarrow> (-1, Some t, files, c))
           | (_, _, c) \<Rightarrow> (-1, Some t, files, c)))"

section \<open>The scanner against any splitting of the stream\<close>

lemma scan_chunk_append:
  "scan_chunk s (xs @ ys) = (case scan_chunk s xs of (s', fin) \<Rightarrow> if fin then (s', True) else scan_chunk s' ys)"
  by (induction xs arbitrary: s) (auto split: prod.splits)

text \<open>A text whose object ends with its last character, as the scanner counts braces and strings.\<close>

definition object_text :: "char list \<Rightarrow> bool" where
  "object_text js \<longleftrightarrow> snd (scan_chunk scan_start js) \<and>
     list_all (\<lambda>n. \<not> snd (scan_chunk scan_start (take n js))) [0..<length js]"

lemma object_text_prefix: "object_text js \<Longrightarrow> n < length js \<Longrightarrow> \<not> snd (scan_chunk scan_start (take n js))"
  by (simp add: object_text_def list_all_iff)

definition client_conn :: "unix_sockets \<Rightarrow> conn" where
  "client_conn u = os_conn (unix_os u) (unix_client_sockfd u)"

definition client_ready :: "unix_sockets \<Rightarrow> bool" where
  "client_ready u \<longleftrightarrow> 0 \<le> unix_client_sockfd u \<and> unix_client_sockfd u \<in> set (os_open (unix_os u)) \<and>
     willing (client_conn u)"

lemma client_receive_ready:
  assumes "client_ready u" and "rx (client_conn u) \<noteq> []"
  shows "\<exists>bs u' r. unix_socket_client_receive_message (Some (replicate 1024 NUL)) 1023 u
      = Some (int (length bs), Some (bs @ r), u') \<and> bs \<noteq> [] \<and>
    rx (client_conn u) = bs @ rx (client_conn u') \<and> client_ready u'"
proof -
  let ?fd = "unix_client_sockfd u"
  from assms have w: "willing (os_conn (unix_os u) ?fd)" "rx (os_conn (unix_os u) ?fd) \<noteq> []"
    "?fd \<in> set (os_open (unix_os u))" "0 \<le> ?fd"
    by (simp_all add: client_ready_def client_conn_def)
  from sk_read_willing [OF w(1), of 1022] w(2) obtain bs c where
    r: "sk_read 1022 (os_conn (unix_os u) ?fd) = (int (length bs), bs, c)" "bs \<noteq> []"
      "rx (os_conn (unix_os u) ?fd) = bs @ rx c" "willing c" by auto
  let ?u = "u\<lparr>unix_os := (unix_os u)\<lparr>os_conn := (os_conn (unix_os u))(?fd := c)\<rparr>\<rparr>"
  have "unix_socket_client_receive_message (Some (replicate 1024 NUL)) 1023 u
      = Some (int (length bs), Some (bs @ NUL # drop (Suc (length bs)) (replicate 1024 NUL)), ?u)"
    using r w(3,4) by (simp add: unix_socket_client_receive_message_def receive_text_def sys_recv_def)
  moreover have "rx (client_conn u) = bs @ rx (client_conn ?u)" "client_ready ?u"
    using r w(3,4) by (simp_all add: client_ready_def client_conn_def)
  ultimately show ?thesis using r(2) by blast
qed

lemma json_loop_complete:
  assumes "object_text (got @ rest)" and "length (got @ rest) < buffer_size" and "rest \<noteq> []"
    and "client_ready u" and "rx (client_conn u) = rest" and "scan_chunk scan_start got = (sc, False)"
  shows "\<exists>u'. json_loop buffer_size sc got u = Some (int (length (got @ rest)), got @ rest, u') \<and>
    rx (client_conn u') = []"
  using assms
proof (induction "length rest" arbitrary: got rest sc u rule: less_induct)
  case less
  from client_receive_ready [OF less.prems(4)] less.prems(3,5) obtain bs u' r where
    b: "unix_socket_client_receive_message (Some (replicate 1024 NUL)) 1023 u
      = Some (int (length bs), Some (bs @ r), u')" "bs \<noteq> []" "rest = bs @ rx (client_conn u')" "client_ready u'"
    by metis
  let ?rest = "rx (client_conn u')"
  obtain sc' fin where s: "scan_chunk sc bs = (sc', fin)" by fastforce
  have got: "scan_chunk scan_start (got @ bs) = (sc', fin)"
    using less.prems(6) s by (simp add: scan_chunk_append)
  have lt: "length got < buffer_size - 1" "\<not> length got + nat (int (length bs)) \<ge> buffer_size"
    using less.prems(2,3) b(2,3) by (cases bs; simp)+
  have step: "json_loop buffer_size sc got u =
      (if fin then Some (int (length (got @ bs)), got @ bs, u') else json_loop buffer_size sc' (got @ bs) u')"
    using lt b(1,2) s by (simp add: json_loop.simps [of buffer_size sc got u] Let_def)
  show ?case
  proof (cases "?rest = []")
    case True
    with b(3) less.prems(1) got have fin by (simp add: object_text_def)
    with step b(3) True show ?thesis by simp
  next
    case False
    have "take (length (got @ bs)) (got @ rest) = got @ bs" using b(3) by simp
    with object_text_prefix [OF less.prems(1), of "length (got @ bs)"] False b(3) got have nf: "\<not> fin"
      by simp
    have "length ?rest < length rest" using b(2,3) by (cases bs) simp_all
    from less.hyps [OF this, of "got @ bs" u' sc'] less.prems(1,2) b(3,4) False got nf
    obtain v where "json_loop buffer_size sc' (got @ bs) u' = Some (int (length (got @ rest)), got @ rest, v)"
      "rx (client_conn v) = []" by auto
    with step nf show ?thesis by simp
  qed
qed

section \<open>Properties\<close>



end
