(* ===== verification/Task_Delivery.thy ===== *)
theory Task_Delivery
  imports Employer_Proofs Employee
begin

text \<open>
  A task file from the employer to the employee and a result file back: the sender's function of
  one agent composed with the receiver's of the other over the bytes of one connection.
\<close>

section \<open>The metadata the agents exchange\<close>

definition task_metadata :: "'j json_ops \<Rightarrow> string \<Rightarrow> string \<Rightarrow> string \<Rightarrow> 'j" where
  "task_metadata J task_id filepath employee_ip =
     j_add_string J (create_task_metadata J task_id filepath ''employer'' employee_ip ''pending'')
       ''message_type'' ''data_chunk''"

definition result_metadata :: "'j json_ops \<Rightarrow> string \<Rightarrow> nat \<Rightarrow> 'j" where
  "result_metadata J task_id n =
     j_add_number J (j_add_string J (j_add_string J (j_create J) ''type'' ''task_result'') ''task_id'' task_id)
       ''result_size'' (int n)"

lemmas json_fields = json_object_same json_object_other json_object_create lower_key_def

lemma task_metadata_fields:
  assumes "json_object J"
  shows "j_string J (task_metadata J t f ip) ''task_id'' = Some t"
    "j_string J (task_metadata J t f ip) ''chunk_filename'' = Some f"
    "j_string J (task_metadata J t f ip) ''sender_id'' = Some ''employer''"
    "j_string J (task_metadata J t f ip) ''message_type'' = Some ''data_chunk''"
    "j_number J (task_metadata J t f ip) ''frame_no'' = None"
  using assms by (simp_all add: task_metadata_def create_task_metadata_def json_fields)

lemma result_metadata_fields:
  assumes "json_object J"
  shows "j_string J (result_metadata J t n) ''type'' = Some ''task_result''"
    "j_string J (result_metadata J t n) ''task_id'' = Some t"
  using assms by (simp_all add: result_metadata_def json_fields)

section \<open>The sender's bytes\<close>

lemma send_json_plan:
  "send_json J j c = (PROTOCOL_OK, c') \<Longrightarrow> plan c' = tl (tl (plan c))"
  by (auto simp: send_json_def Let_def dest!: sk_write_tx split: option.splits prod.splits if_splits)

lemma full_sends_tl: "full_sends c \<Longrightarrow> plan c' = tl (tl (plan c)) \<Longrightarrow> full_sends c'"
  by (cases "plan c"; cases "tl (plan c)") (auto simp: full_sends_def)

text \<open>A message and a file sent whole.\<close>

lemma send_message_and_file:
  assumes "send_json J j c = (PROTOCOL_OK, c1)" and "json_text J j s" and "length s \<le> 65536"
    and "full_sends c" and "length content < 2 ^ 32"
  shows "\<exists>c2. send_sized content c1 = (True, c2) \<and> tx c2 = tx c @ frame s @ be32 (length content) @ content"
proof -
  have "tx c1 = tx c @ frame s" using send_json_OK [OF assms(1,2)] assms(3) by simp
  moreover have "full_sends c1" using full_sends_tl [OF assms(4) send_json_plan [OF assms(1)]] .
  ultimately show ?thesis using send_sized_all [of c1 content] assms(5) by auto
qed

lemma send_file_sent:
  assumes "send_file_to_employee J files fd (Some path) (Some tid) ip w = (0, w')"
    and "json_text J (task_metadata J (cstr tid) (cstr path) (cstr ip)) s" and "length s \<le> 65536"
    and "full_sends (os_conn w fd)" and "files (cstr path) = Some content" and "length content < 2 ^ 32"
  shows "tx (os_conn w' fd) = tx (os_conn w fd) @ frame s @ be32 (length content) @ content"
proof -
  let ?j = "task_metadata J (cstr tid) (cstr path) (cstr ip)"
  obtain st c1 where j: "send_json J ?j (os_conn w fd) = (st, c1)" by fastforce
  have st: "st = PROTOCOL_OK"
    using assms(1) j by (auto simp: send_file_to_employee_def task_metadata_def [symmetric] on_conn_def Let_def
        split: if_splits)
  from send_message_and_file [OF j [unfolded st] assms(2,3,4,6)] obtain c2 where
    "send_sized content c1 = (True, c2)" "tx c2 = tx (os_conn w fd) @ frame s @ be32 (length content) @ content"
    by blast
  with assms(1,5) j st show ?thesis
    by (auto simp: send_file_to_employee_def task_metadata_def [symmetric] on_conn_def Let_def split: if_splits)
qed

lemma send_result_sent:
  assumes "send_result_to_employer J files fd (Some res) c = (0, c')"
    and "files (cstr (ri_result_filepath res)) = Some content"
    and "json_text J (result_metadata J (cstr (ri_task_id res)) (length content)) s" and "length s \<le> 65536"
    and "full_sends c" and "length content < 2 ^ 32"
  shows "tx c' = tx c @ frame s @ be32 (length content) @ content"
proof -
  let ?j = "result_metadata J (cstr (ri_task_id res)) (length content)"
  obtain st c1 where j: "send_json J ?j c = (st, c1)" by fastforce
  have st: "st = PROTOCOL_OK"
    using assms(1,2) j by (auto simp: send_result_to_employer_def result_metadata_def [symmetric] Let_def
        split: if_splits)
  from send_message_and_file [OF j [unfolded st] assms(3,4,5,6)] obtain c2 where
    "send_sized content c1 = (True, c2)" "tx c2 = tx c @ frame s @ be32 (length content) @ content"
    by blast
  with assms(1,2) j st show ?thesis
    by (auto simp: send_result_to_employer_def result_metadata_def [symmetric] Let_def split: if_splits)
qed

section \<open>Tasks\<close>

text \<open>Reading a sized file as the two receivers do, block by block behind a \<open>MSG_WAITALL\<close> header.\<close>

lemma receive_sized:
  assumes "patient d" and "rx d = be32 (length content) @ content @ rest" and "length content < 2 ^ 32" and "0 < blk"
  shows "\<exists>d1 d2. sk_waitall 4 d = (4, be32 (length content), d1) \<and>
    recv_content blk (length content) [] d1 = (content, True, d2) \<and> rx d2 = rest"
proof -
  from sk_waitall_willing [OF patient_willing [OF assms(1)], of 4] assms(2) obtain d1 where
    h: "sk_waitall 4 d = (4, be32 (length content), d1)" "rx d1 = content @ rest" "willing d1" by auto
  from recv_content_all [OF assms(4) h(3), of "[]" "length content"] h(2) have
    "\<exists>d2. recv_content blk (length content) [] d1 = (content, True, d2) \<and> rx d2 = rest" by auto
  with h(1) show ?thesis by blast
qed


text \<open>an empty task file is sent but never received: \<open>send_file_to_employee\<close> returns 0 for it, and
  \<open>receive_task_from_employer\<close>, having read the header, returns -1 without delivering a task.\<close>
theorem empty_task_refused:
  assumes "json_object J" and "json_text J (task_metadata J (cstr tid) (cstr path) (cstr ip)) s" and "length s \<le> 65536"
    and "files (cstr path) = Some []" and "0 \<le> fd" and "plan (os_conn w fd) = []"
    and "rx d = frame s @ be32 0" and "patient d"
  shows "\<exists>w' t' d'. send_file_to_employee J files fd (Some path) (Some tid) ip w = (0, w') \<and>
    tx (os_conn w' fd) = tx (os_conn w fd) @ frame s @ be32 0 \<and>
    receive_task_from_employer J True True can_write now (Some t) files' d = (-1, Some t', files', d') \<and> rx d' = []"
proof -
  let ?j = "task_metadata J (cstr tid) (cstr path) (cstr ip)"
  have s: "cstr s = s" "j_print J ?j = Some s" using assms(2) by (auto simp: json_text_def cstr_id)
  have "\<exists>w'. send_file_to_employee J files fd (Some path) (Some tid) ip w = (0, w')"
    using s assms(3-6) by (auto simp: send_file_to_employee_def task_metadata_def [symmetric] on_conn_def Let_def
        send_json_def sk_write_def send_sized_def send_content.simps [of 0])
  then obtain w' where w': "send_file_to_employee J files fd (Some path) (Some tid) ip w = (0, w')" by blast
  moreover have "tx (os_conn w' fd) = tx (os_conn w fd) @ frame s @ be32 0"
    using send_file_sent [OF w' assms(2,3) _ assms(4)] assms(6) by (simp add: full_sends_def)
  moreover from recv_json_frame [OF assms(2,3,8,7)] obtain d1 where
    d1: "recv_json J True d = (PROTOCOL_OK, Some ?j, d1)" "rx d1 = be32 0" "patient d1" by blast
  from sk_waitall_willing [OF patient_willing [OF d1(3)], of 4] d1(2) obtain d2 where
    "sk_waitall 4 d1 = (4, be32 0, d2)" "rx d2 = []" by auto
  with d1(1) have "\<exists>t' d'. receive_task_from_employer J True True can_write now (Some t) files' d
      = (-1, Some t', files', d') \<and> rx d' = []"
    by (simp add: receive_task_from_employer_def task_metadata_fields [OF assms(1)] Let_def)
  ultimately show ?thesis by blast
qed

text \<open>a short \<open>send\<close> loses bytes silently: when the kernel takes only \<open>k\<close> bytes of the last block,
  which a stream socket may do, \<open>send_file_to_employee\<close> still returns 0 although the rest of the block
  is never sent; the employee then reads the next message, or the end of the stream, as file data.\<close>
theorem short_send_reported_as_success:
  assumes "json_object J" and "json_text J (task_metadata J (cstr tid) (cstr path) (cstr ip)) s" and "length s \<le> 65536"
    and "files (cstr path) = Some content" and "0 < k" and "k < int (length content)" and "length content \<le> 4096"
    and "0 \<le> fd" and "plan (os_conn w fd) = [65536, 65536, 4, k]"
    and "rx d = frame s @ be32 (length content) @ take (nat k) content" and "plan d = []"
  shows "\<exists>w' t' d'. send_file_to_employee J files fd (Some path) (Some tid) ip w = (0, w') \<and>
    tx (os_conn w' fd) = tx (os_conn w fd) @ frame s @ be32 (length content) @ take (nat k) content \<and>
    receive_task_from_employer J True True can_write now (Some t) files' d = (-1, Some t', files', d')"
proof -
  let ?j = "task_metadata J (cstr tid) (cstr path) (cstr ip)"
  let ?c = "os_conn w fd"
  let ?c1 = "?c\<lparr>tx := (tx ?c @ be32 (length s)) @ s, plan := [4, k]\<rparr>"
  have s: "cstr s = s" "j_print J ?j = Some s" using assms(2) by (auto simp: json_text_def cstr_id)
  have j: "send_json J ?j ?c = (PROTOCOL_OK, ?c1)"
    using s assms(3,9) by (simp add: send_json_def sk_write_def)
  have "plan ?c1 = [4, k]" by simp
  from send_sized_short [OF this assms(5-7)] obtain c2 where
    c2: "send_sized content ?c1 = (True, c2)" "tx c2 = tx ?c1 @ be32 (length content) @ take (nat k) content" by blast
  have sent: "\<exists>w'. send_file_to_employee J files fd (Some path) (Some tid) ip w = (0, w') \<and>
      tx (os_conn w' fd) = tx ?c @ frame s @ be32 (length content) @ take (nat k) content"
    using assms(4,8) j c2 by (simp add: send_file_to_employee_def task_metadata_def [symmetric] on_conn_def Let_def frame_def)
  have p: "patient d" using assms(11) by (simp add: patient_def)
  from recv_json_frame [OF assms(2,3) p assms(10)] obtain d1 where
    d1: "recv_json J True d = (PROTOCOL_OK, Some ?j, d1)" "rx d1 = be32 (length content) @ take (nat k) content" "patient d1"
    by blast
  from sk_waitall_willing [OF patient_willing [OF d1(3)], of 4] d1(2) obtain d2 where
    d2: "sk_waitall 4 d1 = (4, be32 (length content), d2)" "rx d2 = take (nat k) content" by auto
  have len: "length (rx d2) < length content" using d2(2) assms(5,6) by simp
  obtain got ok d3 where d3: "recv_content 4096 (length content) [] d2 = (got, ok, d3)" by (rule prod_cases3)
  have "\<not> ok" using recv_content_ended [OF d3] len by simp
  moreover have "length content < 2 ^ 32" using assms(7) by simp
  moreover have "0 < length content" using assms(5,6) by linarith
  ultimately have "\<exists>t' d'. receive_task_from_employer J True True can_write now (Some t) files' d = (-1, Some t', files', d')"
    using d1(1) d2(1) d3 assms(7) by (simp add: receive_task_from_employer_def task_metadata_fields [OF assms(1)] Let_def)
  with sent show ?thesis by blast
qed

section \<open>Results\<close>

lemma result_received:
  assumes "json_object J" and "json_text J (result_metadata J tid (length content)) s" and "length s \<le> 65536"
    and "length content < 2 ^ 32" and "NUL \<notin> set tid" and "length tid \<le> 254" and "length junk = 256"
    and "rx (os_conn (ep_os m) (en_sockfd (ep_employees m ! i))) = frame s @ be32 (length content) @ content @ rest"
    and "patient (os_conn (ep_os m) (en_sockfd (ep_employees m ! i)))" and "i < length (ep_employees m)"
    and "can_write (''./results/result_'' @ tid)"
    and "k < length (ep_assignments m)" and "\<not> ta_is_completed (ep_assignments m ! k)"
    and "cstr (ta_task_id (ep_assignments m ! k)) = tid"
    and "\<forall>l < k. ta_is_completed (ep_assignments m ! l) \<or> cstr (ta_task_id (ep_assignments m ! l)) \<noteq> tid"
  shows "let (r, m') = receive_result_from_employee J True junk can_write now i m;
             e = ep_employees m ! i
         in r = 0 \<and> ep_files m' (''./results/result_'' @ tid) = Some content \<and>
            ep_assignments m' = (ep_assignments m)[k := (ep_assignments m ! k)
              \<lparr>ta_is_completed := True, ta_completed_time := now\<rparr>] \<and>
            en_active_tasks (ep_employees m' ! i) = max (min 0 (en_active_tasks e)) (en_active_tasks e - 1) \<and>
            rx (os_conn (ep_os m') (en_sockfd e)) = rest"
proof -
  let ?e = "ep_employees m ! i"
  let ?j = "result_metadata J tid (length content)"
  let ?d = "os_conn (ep_os m) (en_sockfd ?e)"
  from recv_json_frame [OF assms(2,3,9,8)] obtain d1 where
    d1: "recv_json J True ?d = (PROTOCOL_OK, Some ?j, d1)" "rx d1 = be32 (length content) @ content @ rest" "patient d1"
    by blast
  from receive_sized [OF d1(3,2) assms(4), of 4096] obtain d2 d3 where
    d: "sk_waitall 4 d1 = (4, be32 (length content), d2)" "recv_content 4096 (length content) [] d2 = (content, True, d3)"
      "rx d3 = rest" by auto
  have id: "cstr (strncpy junk tid 255) = tid"
    using assms(5-7) strncpy_fits(1) [of tid 255 junk] by (simp add: cstr_id)
  have path: "take 511 (RESULTS_PATH @ ''/result_'' @ tid) = ''./results/result_'' @ tid"
    using assms(6) by (simp add: RESULTS_PATH_def)
  have f: "find_index (\<lambda>a. \<not> ta_is_completed a \<and> str_eq (ta_task_id a) (strncpy junk tid 255)) (ep_assignments m) = Some k"
    using assms(12-15) id by (intro find_indexI) (auto simp: str_eq_def)
  from d1(1) d assms(10,11,4) id path f show ?thesis
    by (auto simp: receive_result_from_employee_def result_metadata_fields [OF assms(1)] on_conn_def
        complete_assignment_def Let_def)
qed


section \<open>One task and its result\<close>

definition demo_task_json :: "(string \<times> json_item) list json_ops" where
  "demo_task_json = list_json (task_metadata (list_json [] []) ''t'' ''f'' ''h'') ''m''"

definition demo_result_json :: "(string \<times> json_item) list json_ops" where
  "demo_result_json = list_json (result_metadata (list_json [] []) ''t'' 3) ''m''"

lemma demo_task_json [simp]: "json_object demo_task_json"
    "json_text demo_task_json (task_metadata demo_task_json ''t'' ''f'' ''h'') ''m''"
proof -
  show "json_object demo_task_json" unfolding demo_task_json_def by (rule list_json_object)
qed (simp add: demo_task_json_def json_text_def list_json_def task_metadata_def create_task_metadata_def)

lemma demo_result_json [simp]: "json_object demo_result_json"
    "json_text demo_result_json (result_metadata demo_result_json ''t'' 3) ''m''"
proof -
  show "json_object demo_result_json" unfolding demo_result_json_def by (rule list_json_object)
qed (simp add: demo_result_json_def json_text_def list_json_def result_metadata_def)

lemma cstr_letters [simp]: "cstr ''t'' = ''t''" "cstr ''f'' = ''f''" "cstr ''h'' = ''h''"
  by (simp_all add: cstr_def)

definition demo_files :: "bytes \<Rightarrow> string \<Rightarrow> bytes option" where
  "demo_files bs = [''f'' \<mapsto> bs]"

lemma demo_send_file:
  "\<exists>w'. send_file_to_employee demo_task_json (demo_files ''abc'') 3 (Some ''f'') (Some ''t'') ''h'' demo_os = (0, w') \<and>
     tx (os_conn w' 3) = frame ''m'' @ be32 3 @ ''abc''"
  by (simp add: send_file_to_employee_def demo_task_json_def list_json_def demo_files_def on_conn_def Let_def
      send_json_def sk_write_def demo_os_def demo_conn_def send_sized_def send_content.simps [of "Suc (Suc (Suc 0))"]
      frame_def cstr_def)


theorem empty_task_refused_witness:
  "\<exists>w'. send_file_to_employee demo_task_json (demo_files []) 3 (Some ''f'') (Some ''t'') ''h'' demo_os = (0, w')"
  using empty_task_refused [OF demo_task_json(1), of "''t''" "''f''" "''h''" "''m''" "demo_files []" 3 demo_os
      "demo_conn (frame ''m'' @ be32 0) []" "\<lambda>_. True" 9 "demo_received 0" "\<lambda>_. None"]
  by (auto simp: demo_files_def demo_os_def demo_conn_def patient_def)

theorem short_send_reported_as_success_witness:
  "\<exists>w'. send_file_to_employee demo_task_json (demo_files ''abc'') 3 (Some ''f'') (Some ''t'') ''h''
     (demo_os\<lparr>os_conn := (\<lambda>_. demo_conn [] [65536, 65536, 4, 2])\<rparr>) = (0, w')"
  using short_send_reported_as_success [OF demo_task_json(1), of "''t''" "''f''" "''h''" "''m''" "demo_files ''abc''"
      "''abc''" 2 3 "demo_os\<lparr>os_conn := (\<lambda>_. demo_conn [] [65536, 65536, 4, 2])\<rparr>"
      "demo_conn (frame ''m'' @ be32 3 @ ''ab'') []" "\<lambda>_. True" 9 "demo_received 0" "\<lambda>_. None"]
  by (auto simp: demo_files_def demo_conn_def eval_nat_numeral)


end
