(* ===== verification/Keyed_Store.thy ===== *)
theory Keyed_Store
  imports Main
begin

text \<open>
  The interface of a table of limited size that maps keys to values: looking a key up and setting
  it. \<open>free\<close> is the number of keys that still fit; \<open>good\<close> are the keys the table can tell apart, and
  \<open>kept\<close> is what it keeps of a value. The lemmas give the meaning of any sequence of settings as a
  map.
\<close>

locale keyed_store =
  fixes inv :: "'s \<Rightarrow> bool"
    and look :: "'k \<Rightarrow> 's \<Rightarrow> 'v option"
    and put :: "'k \<Rightarrow> 'v \<Rightarrow> 's \<Rightarrow> 's"
    and free :: "'s \<Rightarrow> nat"
    and good :: "'k \<Rightarrow> bool"
    and kept :: "'v \<Rightarrow> 'v"
  assumes put_inv: "inv s \<Longrightarrow> inv (put k v s)"
    and look_put_same: "inv s \<Longrightarrow> good k \<Longrightarrow> look k s \<noteq> None \<or> 0 < free s \<Longrightarrow> look k (put k v s) = Some (kept v)"
    and look_put_other: "inv s \<Longrightarrow> good k \<Longrightarrow> good k' \<Longrightarrow> k \<noteq> k' \<Longrightarrow> look k' (put k v s) = look k' s"
    and put_free: "inv s \<Longrightarrow> free s \<le> Suc (free (put k v s))"
    and put_full: "inv s \<Longrightarrow> look k s = None \<Longrightarrow> free s = 0 \<Longrightarrow> put k v s = s"
begin

lemma look_put:
  assumes "inv s" and "good k" and "good k'" and "look k s \<noteq> None \<or> 0 < free s"
  shows "look k' (put k v s) = (if k' = k then Some (kept v) else look k' s)"
  using look_put_same look_put_other assms by simp

lemma puts_inv: "inv s \<Longrightarrow> inv (fold (\<lambda>(k, v). put k v) kvs s)"
  by (induction kvs arbitrary: s) (auto simp: put_inv)

text \<open>The last setting of a key counts, as long as there is room for each of them.\<close>

lemma look_puts:
  assumes "inv s" and "\<forall>(k, v) \<in> set kvs. good k" and "good k'" and "length kvs \<le> free s"
  shows "look k' (fold (\<lambda>(k, v). put k v) kvs s)
    = (case map_of (rev kvs) k' of None \<Rightarrow> look k' s | Some v \<Rightarrow> Some (kept v))"
  using assms
proof (induction kvs arbitrary: s)
  case Nil
  then show ?case by simp
next
  case (Cons kv kvs)
  obtain k v where kv: "kv = (k, v)" by fastforce
  have "length kvs \<le> free (put k v s)"
    using Cons.prems(4) put_free [OF Cons.prems(1), of k v] by simp
  with Cons.IH [of "put k v s"] Cons.prems kv put_inv [OF Cons.prems(1)]
  have "look k' (fold (\<lambda>(k, v). put k v) kvs (put k v s))
      = (case map_of (rev kvs) k' of None \<Rightarrow> look k' (put k v s) | Some v \<Rightarrow> Some (kept v))" by simp
  moreover have "look k' (put k v s) = (if k' = k then Some (kept v) else look k' s)"
    using Cons.prems kv by (intro look_put) auto
  ultimately show ?case using kv by (auto simp: map_add_def split: option.splits)
qed

lemma puts_full:
  "inv s \<Longrightarrow> free s = 0 \<Longrightarrow> \<forall>(k, v) \<in> set kvs. look k s = None \<Longrightarrow> fold (\<lambda>(k, v). put k v) kvs s = s"
  by (induction kvs) (auto simp: put_full)

end

end
