(* ===== verification/Volcom_Stdio.thy ===== *)
theory Volcom_Stdio
  imports Volcom_CString
begin

text \<open>
  The text input of the C library: a file open for reading is the bytes still to be read.
  \<open>fgets\<close> takes a line, or the part of one that fits its buffer; \<open>sscanf\<close> interprets its format
  string directive by directive, with the conversions the program uses, and gives the list of the
  values it assigns (its result is the length of that list; the end-of-input result -1 is only ever
  told apart from 1 and 2). \<open>strtok\<close> works on the rest of a line.
\<close>

section \<open>Lines\<close>

abbreviation NL :: char where
  "NL \<equiv> CHR 0x0A"

definition fgets :: "nat \<Rightarrow> string \<Rightarrow> (string \<times> string) option" where
  "fgets n inp =
     (if inp = [] then None
      else (let m = min (n - 1) (Suc (length (takeWhile (\<lambda>c. c \<noteq> NL) inp)))
            in Some (take m inp, drop m inp)))"

text \<open>The lines a loop over \<open>fgets\<close> with a buffer of \<open>n + 2\<close> bytes reads.\<close>

function fgets_all :: "nat \<Rightarrow> string \<Rightarrow> string list" where
  "fgets_all n inp = (case fgets (n + 2) inp of None \<Rightarrow> [] | Some (line, rest) \<Rightarrow> line # fgets_all n rest)"
  by pat_completeness auto
termination
  by (relation "measure (\<lambda>(n, inp). length inp)") (auto simp: fgets_def Let_def split: if_splits)

declare fgets_all.simps [simp del]

lemma fgets_all_Nil [simp]: "fgets_all n [] = []"
  by (simp add: fgets_all.simps [of n "[]"] fgets_def)

lemma fgets_all_line:
  assumes "NL \<notin> set l" and "length l \<le> n"
  shows "fgets_all n (l @ NL # rest) = (l @ [NL]) # fgets_all n rest"
proof -
  have "takeWhile (\<lambda>c. c \<noteq> NL) (l @ NL # rest) = l"
    using assms(1) by (auto simp: takeWhile_append takeWhile_eq_all_conv)
  then show ?thesis
    using assms(2) by (simp add: fgets_all.simps [of n "l @ NL # rest"] fgets_def Let_def)
qed

text \<open>Nothing is lost or changed on the way, and no line is longer than the buffer holds.\<close>

lemma concat_fgets_all: "concat (fgets_all n inp) = inp"
  by (induction n inp rule: fgets_all.induct) (subst fgets_all.simps, auto simp: fgets_def Let_def)

lemma fgets_all_bounded: "l \<in> set (fgets_all n inp) \<Longrightarrow> length l \<le> n + 1"
proof (induction n inp rule: fgets_all.induct)
  case (1 n inp)
  show ?case
  proof (cases "fgets (n + 2) inp")
    case None
    with "1.prems" show ?thesis by (simp add: fgets_all.simps [of n inp])
  next
    case (Some lr)
    obtain l' r where lr: "lr = (l', r)" by fastforce
    from Some lr have "length l' \<le> n + 1" by (auto simp: fgets_def Let_def split: if_splits)
    moreover from "1.prems" Some lr have "l = l' \<or> l \<in> set (fgets_all n r)"
      by (simp add: fgets_all.simps [of n inp])
    ultimately show ?thesis using "1.IH" [OF Some lr [symmetric]] by blast
  qed
qed

section \<open>sscanf\<close>

definition is_space :: "char \<Rightarrow> bool" where
  "is_space c \<longleftrightarrow> c = CHR 0x20 \<or> (9 \<le> (of_char c :: nat) \<and> (of_char c :: nat) \<le> 13)"

text \<open>\<open>Ws\<close>: any white space; \<open>Ulong\<close>: \<open>%lu\<close>; \<open>Dint\<close>: \<open>%d\<close>; \<open>Skip_int\<close>: \<open>%*d\<close>; \<open>Text k\<close>: \<open>%ks\<close>;
  \<open>Line\<close>: \<open>%[^\n]\<close>.\<close>

datatype directive = Ws | Lit char | Ulong | Dint | Skip_int | Text nat | Line

datatype scanned = S_ulong u64 | S_int int | S_text string

text \<open>The format string, as far as the program uses it.\<close>

definition conversion :: "string \<Rightarrow> (directive \<times> nat) option" where
  "conversion cs =
     (if take 2 cs = ''lu'' then Some (Ulong, 2)
      else if take 1 cs = ''d'' then Some (Dint, 1)
      else if take 2 cs = ''*d'' then Some (Skip_int, 2)
      else if take 3 cs = ''31s'' then Some (Text 31, 3)
      else if take 4 cs = [CHR ''['', CHR ''^'', NL, CHR '']''] then Some (Line, 4)
      else None)"

function directives :: "string \<Rightarrow> directive list" where
  "directives [] = []"
| "directives (c # cs) =
     (if is_space c then Ws # directives cs
      else if c = CHR ''%'' then
        (case conversion cs of Some (d, k) \<Rightarrow> d # directives (drop k cs) | None \<Rightarrow> [])
      else Lit c # directives cs)"
  by pat_completeness auto
termination
  by (relation "measure length") auto

text \<open>An optional sign and the digits after it.\<close>

definition signed_digits :: "string \<Rightarrow> bool \<times> string \<times> string" where
  "signed_digits inp =
     (let inp = dropWhile is_space inp;
          neg = (take 1 inp = ''-'');
          rest = (if take 1 inp = ''-'' \<or> take 1 inp = ''+'' then tl inp else inp)
      in (neg, takeWhile is_digit rest, dropWhile is_digit rest))"

text \<open>The value of \<open>%lu\<close>: too large a number gives the largest, a sign negates modulo \<open>2 ^ 64\<close>. The
  value of \<open>%d\<close>: the number, held within 64 bits, then its low 32 bits.\<close>

definition ulong_of :: "bool \<Rightarrow> string \<Rightarrow> u64" where
  "ulong_of neg ds =
     (if digits_val ds \<ge> 2 ^ 64 then - 1
      else if neg then - word_of_nat (digits_val ds) else word_of_nat (digits_val ds))"

definition int_of_digits :: "bool \<Rightarrow> string \<Rightarrow> int" where
  "int_of_digits neg ds =
     (let v = (if neg then - int (digits_val ds) else int (digits_val ds))
      in sint (word_of_int (max (- (2 ^ 63)) (min (2 ^ 63 - 1) v)) :: u32))"

fun scan :: "directive list \<Rightarrow> string \<Rightarrow> scanned list" where
  "scan [] inp = []"
| "scan (d # ds) inp =
     (case d of
        Ws \<Rightarrow> scan ds (dropWhile is_space inp)
      | Lit c \<Rightarrow> (if take 1 inp = [c] then scan ds (tl inp) else [])
      | Ulong \<Rightarrow> (case signed_digits inp of (neg, digs, rest) \<Rightarrow>
                   if digs = [] then [] else S_ulong (ulong_of neg digs) # scan ds rest)
      | Dint \<Rightarrow> (case signed_digits inp of (neg, digs, rest) \<Rightarrow>
                   if digs = [] then [] else S_int (int_of_digits neg digs) # scan ds rest)
      | Skip_int \<Rightarrow> (case signed_digits inp of (neg, digs, rest) \<Rightarrow>
                   if digs = [] then [] else scan ds rest)
      | Text k \<Rightarrow> (let inp = dropWhile is_space inp; w = take k (takeWhile (\<lambda>c. \<not> is_space c) inp)
                  in if w = [] then [] else S_text w # scan ds (drop (length w) inp))
      | Line \<Rightarrow> (let w = takeWhile (\<lambda>c. c \<noteq> NL) inp
                in if w = [] then [] else S_text w # scan ds (drop (length w) inp)))"

definition sscanf :: "string \<Rightarrow> string \<Rightarrow> scanned list" where
  "sscanf line format = scan (directives format) (cstr line)"

text \<open>\<open>strncmp(line, s, strlen(s)) == 0\<close>.\<close>

definition starts_with :: "string \<Rightarrow> string \<Rightarrow> bool" where
  "starts_with line s \<longleftrightarrow> take (length s) (cstr line) = s"

section \<open>strtok\<close>

text \<open>The token at the front of \<open>s\<close> and what a later call goes on with.\<close>

definition strtok :: "char \<Rightarrow> string \<Rightarrow> (string \<times> string) option" where
  "strtok delim s =
     (let s = dropWhile (\<lambda>c. c = delim) s
      in if s = [] then None
         else Some (takeWhile (\<lambda>c. c \<noteq> delim) s, tl (dropWhile (\<lambda>c. c \<noteq> delim) s)))"

section \<open>Reading back printed numbers\<close>

lemma u64_bound: "unat (w :: u64) < 2 ^ 64"
  using unsigned_less [of w] by simp

lemma is_digit_not_space: "is_digit c \<Longrightarrow> \<not> is_space c"
  by (auto simp: is_digit_def is_space_def)

lemma is_digit_not_sign: "is_digit c \<Longrightarrow> c \<noteq> CHR ''-'' \<and> c \<noteq> CHR ''+'' \<and> c \<noteq> NL"
  by (auto simp: is_digit_def)

lemma dec_nat_head: "\<exists>c cs. dec_nat n = c # cs \<and> is_digit c"
  using dec_nat_not_Nil [of n] dec_nat_digits [of _ n] by (cases "dec_nat n") auto

text \<open>What follows a number: nothing, or a character that is no digit.\<close>

definition number_ends :: "string \<Rightarrow> bool" where
  "number_ends rest \<longleftrightarrow> (case rest of [] \<Rightarrow> True | c # _ \<Rightarrow> \<not> is_digit c)"

lemma number_ends_simps [simp]: "number_ends []" "number_ends (c # r) \<longleftrightarrow> \<not> is_digit c"
  by (simp_all add: number_ends_def)

lemma take_digits:
  assumes "number_ends rest"
  shows "takeWhile is_digit (dec_nat n @ rest) = dec_nat n" "dropWhile is_digit (dec_nat n @ rest) = rest"
proof -
  have d: "\<forall>c \<in> set (dec_nat n). is_digit c" using dec_nat_digits by blast
  have "takeWhile is_digit rest = []" "dropWhile is_digit rest = rest"
    using assms by (cases rest; simp add: number_ends_def)+
  with d show "takeWhile is_digit (dec_nat n @ rest) = dec_nat n" "dropWhile is_digit (dec_nat n @ rest) = rest"
    by (simp_all add: takeWhile_append dropWhile_append takeWhile_eq_all_conv)
qed

lemma signed_digits_nat:
  assumes "number_ends rest"
  shows "signed_digits (dec_nat n @ rest) = (False, dec_nat n, rest)"
proof -
  obtain c cs where c: "dec_nat n = c # cs" "is_digit c" using dec_nat_head by blast
  then have "dropWhile is_space (dec_nat n @ rest) = dec_nat n @ rest"
    by (simp add: is_digit_not_space)
  with c is_digit_not_sign [OF c(2)] take_digits [OF assms, of n] show ?thesis
    by (simp add: signed_digits_def Let_def)
qed

lemma signed_digits_neg:
  assumes "number_ends rest"
  shows "signed_digits (CHR ''-'' # dec_nat n @ rest) = (True, dec_nat n, rest)"
  using take_digits [OF assms, of n] by (simp add: signed_digits_def Let_def is_space_def)

lemma ulong_of_dec [simp]: "ulong_of False (dec_nat (unat w)) = w"
  using u64_bound [of w] by (simp add: ulong_of_def)

lemma scan_Ulong:
  "number_ends rest \<Longrightarrow> scan (Ulong # ds) (dec_nat (unat w) @ rest) = S_ulong w # scan ds rest"
  by (simp add: signed_digits_nat)

lemma signed_digits_int:
  "number_ends rest \<Longrightarrow> signed_digits (dec_int i @ rest) = (i < 0, dec_nat (nat \<bar>i\<bar>), rest)"
  using signed_digits_neg [of rest "nat (- i)"] signed_digits_nat [of rest "nat i"] by (auto simp: dec_int_def)

lemma int_of_dec:
  assumes "- (2 ^ 31) \<le> i" and "i < 2 ^ 31"
  shows "int_of_digits (i < 0) (dec_nat (nat \<bar>i\<bar>)) = i"
proof -
  have "sint (word_of_int i :: u32) = i"
    using assms by (simp add: sint_sbintrunc' signed_take_bit_int_eq_self)
  with assms show ?thesis by (simp add: int_of_digits_def Let_def min_def max_def)
qed

lemma scan_Int:
  assumes "number_ends rest" and "- (2 ^ 31) \<le> i" and "i < 2 ^ 31"
  shows "scan (Dint # ds) (dec_int i @ rest) = S_int i # scan ds rest"
  using signed_digits_int [OF assms(1), of i] int_of_dec [OF assms(2,3)] by simp

lemma scan_Lit [simp]: "scan (Lit c # ds) (c # inp) = scan ds inp"
  by simp

text \<open>White space before a number is skipped and the number stays.\<close>

lemma drop_space_dec_nat: "dropWhile is_space (dec_nat n @ rest) = dec_nat n @ rest"
  using dec_nat_head [of n] by (auto simp: is_digit_not_space)

lemma drop_space_dec_int: "dropWhile is_space (dec_int i @ rest) = dec_int i @ rest"
proof (cases "i < 0")
  case True
  then show ?thesis by (simp add: dec_int_def is_space_def)
qed (simp add: dec_int_def drop_space_dec_nat)

lemma dec_nat_no_NL [simp]: "NL \<notin> set (dec_nat n)"
  using dec_nat_digits is_digit_not_sign by blast

lemma dec_int_no_NL [simp]: "NL \<notin> set (dec_int i)"
  by (simp add: dec_int_def)

text \<open>A number of fewer than \<open>10 ^ k\<close> has at most \<open>k\<close> digits.\<close>

lemma length_dec_nat: "0 < k \<Longrightarrow> n < 10 ^ k \<Longrightarrow> length (dec_nat n) \<le> k"
proof (induction k arbitrary: n)
  case 0
  then show ?case by simp
next
  case (Suc k)
  show ?case
  proof (cases "n < 10")
    case True
    then show ?thesis by (simp add: dec_nat.simps [of n])
  next
    case False
    with Suc.prems have "0 < k" by (cases k) auto
    moreover have "n div 10 < 10 ^ k" using Suc.prems by (simp add: less_mult_imp_div_less mult.commute)
    ultimately have "length (dec_nat (n div 10)) \<le> k" by (rule Suc.IH)
    with False show ?thesis by (simp add: dec_nat.simps [of n])
  qed
qed

lemma length_dec_u64: "length (dec_nat (unat (w :: u64))) \<le> 20"
  using u64_bound [of w] by (intro length_dec_nat) auto

lemma length_dec_int: "- (2 ^ 31) \<le> i \<Longrightarrow> i < 2 ^ 31 \<Longrightarrow> length (dec_int i) \<le> 11"
  using length_dec_nat [of 10 "nat (- i)"] length_dec_nat [of 11 "nat i"] by (auto simp: dec_int_def)

end
