(* ===== verification/Net_Utils.thy ===== *)
theory Net_Utils
  imports Keyed_Store Volcom_Stdio Volcom_Io
begin

text \<open>
  \<open>volcom_utils/net_utils.c\<close>: the store of configuration values (a static array of 100 pairs of
  256-byte strings and its counter), the TCP server of the employee, the local address, and the
  placeholders for tasks. The static array starts as zeros and nothing ever writes the last byte of
  a string.
\<close>

section \<open>State\<close>

record config_store =
  config_values :: "(char list \<times> char list) list"
  config_count :: nat

definition fresh_store :: config_store where
  "fresh_store = \<lparr>config_values = replicate 100 (replicate 256 NUL, replicate 256 NUL), config_count = 0\<rparr>"

definition init_volcom_utils :: "config_store \<Rightarrow> int \<times> config_store" where
  "init_volcom_utils s = (0, s\<lparr>config_count := 0\<rparr>)"

definition cleanup_volcom_utils :: "config_store \<Rightarrow> config_store" where
  "cleanup_volcom_utils s = s\<lparr>config_count := 0\<rparr>"

section \<open>Configuration values\<close>

text \<open>The two \<open>strncpy\<close> calls into the first free pair.\<close>

definition store_pair :: "string \<Rightarrow> string \<Rightarrow> config_store \<Rightarrow> config_store" where
  "store_pair key value s =
     (let n = config_count s; c = config_values s ! n
      in s\<lparr>config_values := (config_values s)[n := (strncpy (fst c) key 255, strncpy (snd c) value 255)],
           config_count := n + 1\<rparr>)"

definition load_line :: "string \<Rightarrow> config_store \<Rightarrow> config_store" where
  "load_line line s =
     (if config_count s < 100 then
        (case strtok (CHR ''='') (cstr line) of
           None \<Rightarrow> s
         | Some (key, rest) \<Rightarrow>
             (case strtok NL rest of None \<Rightarrow> s | Some (value, _) \<Rightarrow> store_pair key value s))
      else s)"

text \<open>\<open>file\<close>: the content of the file, or \<open>None\<close> when it cannot be opened. A line that is read when
  the store is full is dropped.\<close>

definition load_volcom_config :: "string option \<Rightarrow> config_store \<Rightarrow> int \<times> config_store" where
  "load_volcom_config content s =
     (case content of
        None \<Rightarrow> (-1, s)
      | Some txt \<Rightarrow> (0, fold load_line (fgets_all 510 txt) (s\<lparr>config_count := 0\<rparr>)))"

definition config_index :: "string \<Rightarrow> config_store \<Rightarrow> nat option" where
  "config_index key s = find_index (\<lambda>c. str_eq (fst c) key) (take (config_count s) (config_values s))"

definition get_volcom_config_value :: "string \<Rightarrow> config_store \<Rightarrow> char list option" where
  "get_volcom_config_value key s = map_option (\<lambda>i. snd (config_values s ! i)) (config_index key s)"

definition set_volcom_config_value :: "string \<Rightarrow> string \<Rightarrow> config_store \<Rightarrow> config_store" where
  "set_volcom_config_value key value s =
     (case config_index key s of
        Some i \<Rightarrow>
          (let c = config_values s ! i
           in s\<lparr>config_values := (config_values s)[i := (fst c, strncpy (snd c) value 255)]\<rparr>)
      | None \<Rightarrow> if config_count s < 100 then store_pair key value s else s)"

section \<open>Network\<close>

definition start_tcp_server :: "int \<Rightarrow> os \<Rightarrow> int \<times> os" where
  "start_tcp_server port w =
     (let (sockfd, w) = sys_open w
      in if sockfd < 0 then (-1, w)
         else (let w = snd (sys_call (Sys_setsockopt sockfd ''SO_REUSEADDR'') w);
                   (r, w) = sys_call (Sys_bind sockfd (Addr_any (port mod 2 ^ 16))) w
               in if r < 0 then (-1, sys_close sockfd w)
                  else (let (r, w) = sys_call (Sys_listen sockfd 5) w
                        in if r < 0 then (-1, sys_close sockfd w) else (sockfd, w))))"

definition accept_tcp_connection :: "os \<Rightarrow> int \<times> os" where
  "accept_tcp_connection w = sys_open w"

text \<open>The interfaces \<open>getifaddrs\<close> lists: \<open>None\<close> for one without an address, else whether it is IPv4,
  whether it is a loopback, and its address as text. The result of \<open>getifaddrs\<close> itself is not
  looked at: when it fails, the list pointer that is followed was never set.\<close>

definition outside :: "(bool \<times> bool \<times> string) option \<Rightarrow> bool" where
  "outside ifa = (case ifa of None \<Rightarrow> False | Some (inet, loopback, host) \<Rightarrow> inet \<and> \<not> loopback)"

definition get_local_ip ::
    "(bool \<times> bool \<times> string) option list option \<Rightarrow> char list \<Rightarrow> nat \<Rightarrow> char list option" where
  "get_local_ip ifaddr buffer n =
     (case ifaddr of
        None \<Rightarrow> None
      | Some ifs \<Rightarrow>
          (case filter outside ifs of
             Some (_, _, host) # _ \<Rightarrow>
               (if length host < n then Some (host @ NUL # drop (Suc (length host)) buffer) else Some buffer)
           | _ \<Rightarrow> Some buffer))"

section \<open>Tasks\<close>

record task_info_t =
  ti_task_id :: "char list"
  ti_chunk_filename :: "char list"
  ti_sender_id :: "char list"
  ti_receiver_id :: "char list"
  ti_status :: "char list"
  ti_data_size :: u64
  ti_data :: "char list ptr"

definition receive_task :: "int \<Rightarrow> task_info_t \<Rightarrow> int \<times> task_info_t" where
  "receive_task sockfd task_info = (-1, task_info)"

text \<open>Freeing a block twice has no defined result: the outer \<open>None\<close>.\<close>

definition cleanup_task_info :: "task_info_t option \<Rightarrow> task_info_t option option" where
  "cleanup_task_info task_info =
     (case task_info of
        None \<Rightarrow> Some None
      | Some t \<Rightarrow> (case ti_data t of
          Null \<Rightarrow> Some (Some t)
        | Live _ \<Rightarrow> Some (Some (t\<lparr>ti_data := Null, ti_data_size := 0\<rparr>))
        | Dangling \<Rightarrow> None))"

definition send_result :: "int \<Rightarrow> string \<Rightarrow> string \<Rightarrow> int" where
  "send_result sockfd task_id result_file = -1"

section \<open>The invariant of the store\<close>

definition cell_ok :: "char list \<times> char list \<Rightarrow> bool" where
  "cell_ok c \<longleftrightarrow> length (fst c) = 256 \<and> last (fst c) = NUL \<and> length (snd c) = 256 \<and> last (snd c) = NUL"

definition store_ok :: "config_store \<Rightarrow> bool" where
  "store_ok s \<longleftrightarrow> length (config_values s) = 100 \<and> config_count s \<le> 100 \<and> list_all cell_ok (config_values s)"

lemma store_okD:
  assumes "store_ok s"
  shows "length (config_values s) = 100" "config_count s \<le> 100"
    "i < 100 \<Longrightarrow> cell_ok (config_values s ! i)"
  using assms by (auto simp: store_ok_def list_all_length)

lemma store_ok_fresh: "store_ok fresh_store"
  by (simp add: store_ok_def fresh_store_def cell_ok_def list_all_length)

lemma store_ok_count: "store_ok s \<Longrightarrow> n \<le> 100 \<Longrightarrow> store_ok (s\<lparr>config_count := n\<rparr>)"
  by (simp add: store_ok_def)

lemma strncpy_255:
  assumes "length d = 256" and "last d = NUL"
  shows "length (strncpy d x 255) = 256" "last (strncpy d x 255) = NUL"
    "cstr (strncpy d x 255) = take 255 (cstr x)" "terminated (strncpy d x 255)"
  using assms strncpy_last_NUL [of d 255 x] by simp_all

lemma store_ok_update:
  "store_ok s \<Longrightarrow> i < 100 \<Longrightarrow> cell_ok c \<Longrightarrow> store_ok (s\<lparr>config_values := (config_values s)[i := c]\<rparr>)"
  by (auto simp: store_ok_def list_all_length nth_list_update)

lemma store_pair_simps:
  "config_values (store_pair k v s) = (config_values s)[config_count s :=
     (strncpy (fst (config_values s ! config_count s)) k 255, strncpy (snd (config_values s ! config_count s)) v 255)]"
  "config_count (store_pair k v s) = config_count s + 1"
  by (simp_all add: store_pair_def Let_def)

lemma store_pair_ok:
  assumes "store_ok s" and "config_count s < 100"
  shows "store_ok (store_pair k v s)"
proof -
  let ?c = "config_values s ! config_count s"
  from store_okD(3) [OF assms] have "cell_ok (strncpy (fst ?c) k 255, strncpy (snd ?c) v 255)"
    by (simp add: cell_ok_def strncpy_255)
  from store_ok_update [OF assms this] assms(2) show ?thesis by (simp add: store_ok_def store_pair_simps)
qed

text \<open>The index is that of a live pair.\<close>

lemma config_index_lt: "store_ok s \<Longrightarrow> config_index k s = Some i \<Longrightarrow> i < config_count s \<and> i < 100"
  using store_okD [of s] by (auto simp: config_index_def dest: find_index_lt)

lemma set_ok: "store_ok s \<Longrightarrow> store_ok (set_volcom_config_value k v s)"
proof (cases "config_index k s")
  case (Some i)
  assume ok: "store_ok s"
  with Some have i: "i < 100" by (auto dest: config_index_lt)
  from store_okD(3) [OF ok i] have "cell_ok (fst (config_values s ! i), strncpy (snd (config_values s ! i)) v 255)"
    by (simp add: cell_ok_def strncpy_255)
  from store_ok_update [OF ok i this] Some show ?thesis by (simp add: set_volcom_config_value_def Let_def)
qed (simp add: set_volcom_config_value_def store_pair_ok)

lemma load_line_ok: "store_ok s \<Longrightarrow> store_ok (load_line l s)"
  by (auto simp: load_line_def store_pair_ok split: option.splits prod.splits)

lemma load_lines_ok: "store_ok s \<Longrightarrow> store_ok (fold load_line ls s)"
  by (induction ls arbitrary: s) (simp_all add: load_line_ok)

section \<open>The store as a map\<close>

text \<open>The live pairs as strings; looking up is \<open>map_of\<close> over them.\<close>

definition config_pairs :: "config_store \<Rightarrow> (string \<times> string) list" where
  "config_pairs s = map (\<lambda>c. (cstr (fst c), cstr (snd c))) (take (config_count s) (config_values s))"

definition config_look :: "string \<Rightarrow> config_store \<Rightarrow> string option" where
  "config_look k s = map_option cstr (get_volcom_config_value k s)"

lemma find_index_map_of:
  "map_option (\<lambda>i. g (xs ! i)) (find_index (\<lambda>x. f x = k) xs) = map_of (map (\<lambda>x. (f x, g x)) xs) k"
  by (induction xs) (auto simp: option.map_comp comp_def)

lemma config_look_map_of: "config_look k s = map_of (config_pairs s) (cstr k)"
proof -
  let ?xs = "take (config_count s) (config_values s)"
  have "config_index k s = find_index (\<lambda>x. cstr (fst x) = cstr k) ?xs"
    by (simp add: config_index_def str_eq_def)
  moreover have "map_option (\<lambda>i. cstr (snd (config_values s ! i))) (find_index (\<lambda>x. cstr (fst x) = cstr k) ?xs)
      = map_option (\<lambda>i. cstr (snd (?xs ! i))) (find_index (\<lambda>x. cstr (fst x) = cstr k) ?xs)"
    by (rule option.map_cong0) (auto dest!: find_index_lt)
  ultimately show ?thesis
    using find_index_map_of [where g = "\<lambda>x. cstr (snd x)" and f = "\<lambda>x. cstr (fst x)" and k = "cstr k" and xs = ?xs]
    by (simp add: config_look_def get_volcom_config_value_def config_pairs_def option.map_comp comp_def)
qed

lemma config_pairs_store:
  assumes "store_ok s" and "config_count s < 100"
  shows "config_pairs (store_pair k v s) = config_pairs s @ [(take 255 (cstr k), take 255 (cstr v))]"
  using store_okD [OF assms(1)] assms(2)
  by (simp add: config_pairs_def store_pair_simps take_Suc_update_end cell_ok_def strncpy_255)

lemma find_index_map: "find_index P (map f xs) = find_index (P \<circ> f) xs"
  by (induction xs) auto

text \<open>Setting a key that is there changes the value of its first pair.\<close>

lemma map_of_update_first:
  "find_index (\<lambda>x. fst x = k) ps = Some i \<Longrightarrow>
     map_of (ps[i := (k, v)]) k' = (if k' = k then Some v else map_of ps k')"
  by (induction ps arbitrary: i) (auto split: if_splits)

lemma set_known:
  assumes "store_ok s" and "config_index k s = Some i"
  shows "config_look k' (set_volcom_config_value k v s)
    = (if cstr k' = cstr k then Some (take 255 (cstr v)) else config_look k' s)"
proof -
  let ?c = "config_values s ! i" and ?xs = "take (config_count s) (config_values s)"
  from config_index_lt [OF assms] have i: "i < config_count s" "i < 100" by auto
  have f: "find_index (\<lambda>x. cstr (fst x) = cstr k) ?xs = Some i"
    using assms(2) by (simp add: config_index_def str_eq_def)
  then have fp: "find_index (\<lambda>x. fst x = cstr k) (config_pairs s) = Some i"
    by (simp add: config_pairs_def find_index_map comp_def)
  have ck: "cstr (fst ?c) = cstr k" using find_index_holds [OF f] i by simp
  have "config_pairs (set_volcom_config_value k v s) = (config_pairs s)[i := (cstr k, take 255 (cstr v))]"
    using assms i ck store_okD [OF assms(1)]
    by (simp add: set_volcom_config_value_def Let_def config_pairs_def take_update_inside map_update
        cell_ok_def strncpy_255)
  with map_of_update_first [OF fp] show ?thesis by (simp add: config_look_map_of)
qed

lemma set_new:
  assumes "store_ok s" and "config_index k s = None" and "config_count s < 100" and "length (cstr k) \<le> 255"
  shows "config_look k' (set_volcom_config_value k v s)
    = (if cstr k' = cstr k then Some (take 255 (cstr v)) else config_look k' s)"
proof -
  have "map_of (config_pairs s) (cstr k) = None"
    using assms(2) config_look_map_of [of k s] by (simp add: config_look_def get_volcom_config_value_def)
  then show ?thesis
    using assms by (auto simp: config_look_map_of set_volcom_config_value_def config_pairs_store map_add_def
        split: option.splits)
qed

text \<open>Keys of at most 255 characters are told apart; of a value 255 characters are kept.\<close>

definition good_key :: "string \<Rightarrow> bool" where
  "good_key k \<longleftrightarrow> NUL \<notin> set k \<and> length k \<le> 255"

interpretation config: keyed_store store_ok config_look set_volcom_config_value
  "\<lambda>s. 100 - config_count s" good_key "\<lambda>v. take 255 (cstr v)"
proof (unfold_locales, goal_cases)
  case (1 s k v)
  then show ?case by (rule set_ok)
next
  case (2 s k v)
  then show ?case
  proof (cases "config_index k s")
    case None
    with 2 set_new [OF 2(1) None, of k v] show ?thesis
      by (auto simp: good_key_def cstr_id config_look_def get_volcom_config_value_def)
  qed (simp add: set_known)
next
  case (3 s k k' v)
  then have ne: "cstr k' \<noteq> cstr k" by (auto simp: good_key_def cstr_id)
  show ?case
  proof (cases "config_index k s")
    case None
    show ?thesis
    proof (cases "config_count s < 100")
      case True
      with 3 ne set_new [OF 3(1) None True] show ?thesis by (simp add: good_key_def cstr_id)
    qed (simp add: set_volcom_config_value_def None)
  qed (simp add: set_known 3(1) ne)
next
  case (4 s k v)
  then show ?case by (auto simp: set_volcom_config_value_def store_pair_simps Let_def split: option.splits)
next
  case (5 s k v)
  then show ?case by (auto simp: set_volcom_config_value_def config_look_def get_volcom_config_value_def split: option.splits)
qed

section \<open>Loading a file\<close>

text \<open>A line of the form the loader accepts, and the key and value on it.\<close>

definition config_line :: "string \<times> string \<Rightarrow> string" where
  "config_line kv = fst kv @ CHR ''='' # snd kv"

definition line_ok :: "string \<times> string \<Rightarrow> bool" where
  "line_ok kv \<longleftrightarrow> fst kv \<noteq> [] \<and> snd kv \<noteq> [] \<and> length (fst kv) \<le> 255 \<and> length (snd kv) \<le> 254 \<and>
     CHR ''='' \<notin> set (fst kv) \<and> NUL \<notin> set (fst kv @ snd kv) \<and> NL \<notin> set (fst kv @ snd kv)"

lemma strtok_token:
  assumes "t \<noteq> []" and "d \<notin> set t"
  shows "strtok d (t @ d # rest) = Some (t, rest)"
proof -
  have h: "hd t \<noteq> d" using assms by (cases t) auto
  then have "dropWhile (\<lambda>c. c = d) (t @ d # rest) = t @ d # rest" using assms(1) by (cases t) auto
  moreover have "takeWhile (\<lambda>c. c \<noteq> d) (t @ d # rest) = t" "dropWhile (\<lambda>c. c \<noteq> d) (t @ d # rest) = d # rest"
    using assms(2) by (auto simp: takeWhile_append dropWhile_append takeWhile_eq_all_conv)
  ultimately show ?thesis using assms(1) by (simp add: strtok_def Let_def)
qed

lemma load_line_pair:
  assumes "line_ok kv" and "config_count s < 100"
  shows "load_line (config_line kv @ [NL]) s = store_pair (fst kv) (snd kv) s"
proof -
  from assms(1) have k: "fst kv \<noteq> []" "CHR ''='' \<notin> set (fst kv)" and v: "snd kv \<noteq> []" "NL \<notin> set (snd kv)"
    and n: "NUL \<notin> set (config_line kv @ [NL])" by (auto simp: line_ok_def config_line_def)
  have "strtok (CHR ''='') (cstr (config_line kv @ [NL])) = Some (fst kv, snd kv @ [NL])"
    using strtok_token [OF k, of "snd kv @ [NL]"] unfolding cstr_id [OF n] by (simp add: config_line_def)
  moreover have "strtok NL (snd kv @ [NL]) = Some (snd kv, [])" using strtok_token [OF v, of "[]"] .
  ultimately show ?thesis using assms(2) by (simp add: load_line_def)
qed

definition config_text :: "(string \<times> string) list \<Rightarrow> string" where
  "config_text kvs = concat (map (\<lambda>kv. config_line kv @ [NL]) kvs)"

lemma fgets_config_text:
  "\<forall>kv \<in> set kvs. line_ok kv \<Longrightarrow> fgets_all 510 (config_text kvs) = map (\<lambda>kv. config_line kv @ [NL]) kvs"
proof (induction kvs)
  case Nil
  then show ?case by (simp add: config_text_def)
next
  case (Cons kv kvs)
  have "NL \<notin> set (config_line kv)" "length (config_line kv) \<le> 510"
    using Cons.prems by (auto simp: line_ok_def config_line_def)
  from fgets_all_line [OF this, of "config_text kvs"] Cons show ?case by (simp add: config_text_def)
qed

lemma load_lines_pairs:
  assumes "\<forall>kv \<in> set kvs. line_ok kv" and "store_ok s" and "config_count s + length kvs \<le> 100"
  shows "config_pairs (fold load_line (map (\<lambda>kv. config_line kv @ [NL]) kvs) s) = config_pairs s @ kvs"
  using assms
proof (induction kvs arbitrary: s)
  case Nil
  then show ?case by simp
next
  case (Cons kv kvs)
  have c: "config_count s < 100" and l: "line_ok kv" using Cons.prems by auto
  let ?s = "store_pair (fst kv) (snd kv) s"
  from l have "NUL \<notin> set (fst kv)" "NUL \<notin> set (snd kv)" by (simp_all add: line_ok_def)
  then have "cstr (fst kv) = fst kv" "cstr (snd kv) = snd kv" by (auto intro: cstr_id)
  with config_pairs_store [OF Cons.prems(2) c, of "fst kv" "snd kv"] l
  have p: "config_pairs ?s = config_pairs s @ [kv]" by (simp add: line_ok_def)
  have "config_pairs (fold load_line (map (\<lambda>kv. config_line kv @ [NL]) kvs) ?s) = config_pairs ?s @ kvs"
    using Cons.prems c by (intro Cons.IH) (simp_all add: store_pair_ok store_pair_simps)
  with p load_line_pair [OF l c] show ?case by simp
qed

section \<open>Properties\<close>

text \<open>C24: the configuration store refines a map: after \<open>init_volcom_utils\<close> and any settings of at most
  100 pairs, with keys of at most 255 characters, looking a key up gives the value of its last
  setting, cut to 255 characters, and nothing for a key never set.\<close>
theorem config_store_refines_map:
  assumes "store_ok s0" and "\<forall>(k, v) \<in> set kvs. good_key k" and "good_key key" and "length kvs \<le> 100"
  shows "map_option cstr (get_volcom_config_value key
      (fold (\<lambda>(k, v). set_volcom_config_value k v) kvs (snd (init_volcom_utils s0))))
    = map_option (\<lambda>v. take 255 (cstr v)) (map_of (rev kvs) key)"
proof -
  let ?s = "snd (init_volcom_utils s0)"
  have ok: "store_ok ?s" using assms(1) by (simp add: init_volcom_utils_def store_ok_count)
  have "config_look key ?s = None" by (simp add: config_look_map_of config_pairs_def init_volcom_utils_def)
  with config.look_puts [OF ok assms(2,3)] assms(4) show ?thesis
    by (simp add: config_look_def [symmetric] init_volcom_utils_def split: option.splits)
qed

theorem config_store_refines_map_witness:
  "map_option cstr (get_volcom_config_value ''port'' (fold (\<lambda>(k, v). set_volcom_config_value k v)
     [(''port'', ''1''), (''ip'', ''h''), (''port'', ''2'')] (snd (init_volcom_utils fresh_store)))) = Some ''2''"
  using config_store_refines_map [OF store_ok_fresh, of "[(''port'', ''1''), (''ip'', ''h''), (''port'', ''2'')]" "''port''"]
  by (simp add: good_key_def cstr_def)

text \<open>loading a file of at most 100 well-formed lines \<open>key=value\<close> gives every key the value of its
  first line, unlike settings made one after the other, where the last one counts; whatever was
  stored before is forgotten.\<close>
theorem config_file_first_line_counts:
  assumes "store_ok s" and "\<forall>kv \<in> set kvs. line_ok kv" and "length kvs \<le> 100" and "NUL \<notin> set key"
  shows "map_option cstr (get_volcom_config_value key (snd (load_volcom_config (Some (config_text kvs)) s))) = map_of kvs key"
proof -
  let ?s = "s\<lparr>config_count := 0\<rparr>"
  have "config_pairs (fold load_line (fgets_all 510 (config_text kvs)) ?s) = kvs"
    using load_lines_pairs [OF assms(2), of ?s] store_ok_count [OF assms(1), of 0] assms(3)
    by (simp add: fgets_config_text [OF assms(2)] config_pairs_def)
  then show ?thesis
    by (simp add: load_volcom_config_def config_look_def [symmetric] config_look_map_of cstr_id [OF assms(4)])
qed

theorem config_file_first_line_counts_witness:
  "map_option cstr (get_volcom_config_value ''port'' (snd (load_volcom_config
     (Some (''port=1'' @ [NL] @ ''ip=h'' @ [NL] @ ''port=2'' @ [NL])) fresh_store))) = Some ''1''"
  using config_file_first_line_counts [OF store_ok_fresh, of "[(''port'', ''1''), (''ip'', ''h''), (''port'', ''2'')]" "''port''"]
  by (simp add: line_ok_def config_text_def config_line_def)

text \<open>The server of the employee: a fresh listening descriptor or none at all.\<close>

lemma start_tcp_server_open:
  "case start_tcp_server port w of (fd, w') \<Rightarrow>
     (fd = -1 \<and> os_open w' = os_open w) \<or> (0 \<le> fd \<and> fd \<notin> set (os_open w) \<and> os_open w' = fd # os_open w)"
  by (auto simp: start_tcp_server_def Let_def filter_fresh
      dest!: sys_open_cases sys_call_frame split: prod.splits if_splits)

lemma get_local_ip_terminated:
  "get_local_ip (Some ifs) buffer n = Some b \<Longrightarrow> terminated buffer \<Longrightarrow> terminated b"
  by (auto simp: get_local_ip_def terminated_def split: list.splits option.splits if_splits prod.splits)

end
