(* ===== verification/Volcom_Sysinfo.thy ===== *)
theory Volcom_Sysinfo
  imports Volcom_Stdio
begin

text \<open>
  \<open>volcom_sysinfo/volcom_sysinfo.c\<close>: what the program reads from \<open>/proc\<close> and \<open>lspci\<close>, and the
  resource configuration it saves and loads. A file is its content, \<open>None\<close> when it cannot be
  opened; \<open>unsigned long\<close> is a 64-bit word; \<open>D\<close> are the doubles. The functions that only print are
  left out.
\<close>

section \<open>Data\<close>

record memory_info_s =
  mi_total :: u64
  mi_free :: u64
  mi_buffers :: u64
  mi_cached :: u64
  mi_swap_total :: u64
  mi_swap_free :: u64

record 'd cpu_core_usage_s =
  cu_user :: u64
  cu_nice :: u64
  cu_system :: u64
  cu_idle :: u64
  cu_iowait :: u64
  cu_irq :: u64
  cu_softirq :: u64
  cu_steal :: u64
  cu_guest :: u64
  cu_guest_nice :: u64
  cu_total :: u64
  cu_used :: u64
  cu_usage_percent :: 'd

record 'd cpu_info_s =
  ci_cpu_count :: int
  ci_logical_processors :: int
  ci_model :: "char list"
  ci_overall_usage :: "'d cpu_core_usage_s"
  ci_core_usage :: "'d cpu_core_usage_s list ptr"

record gpu_info_s =
  gi_model :: "char list"
  gi_memory :: u64
  gi_driver :: "char list"

record 'd system_info_s =
  sy_mem_info :: memory_info_s
  sy_cpu_info :: "'d cpu_info_s"
  sy_gpu_info :: gpu_info_s

record memory_config_s =
  mc_allocated_memory_size_max :: u64
  mc_allocated_memory_size_high :: u64
  mc_allocated_swap_memory_size_max :: u64
  mc_allocated_swap_memory_size_high :: u64
  mc_memory_oom_protection :: int

record cpu_config_s =
  cc_allocated_logical_processors :: int
  cc_allocated_cpu_share :: int

record config_s =
  cf_mem_config :: memory_config_s
  cf_cpu_config :: cpu_config_s

section \<open>Memory\<close>

definition zero_memory_info :: memory_info_s where
  "zero_memory_info = \<lparr>mi_total = 0, mi_free = 0, mi_buffers = 0, mi_cached = 0, mi_swap_total = 0, mi_swap_free = 0\<rparr>"

text \<open>The variable after \<open>sscanf(line, format, &variable)\<close>.\<close>

definition scan_ulong :: "string \<Rightarrow> string \<Rightarrow> u64 \<Rightarrow> u64" where
  "scan_ulong line format old = (case sscanf line format of S_ulong v # _ \<Rightarrow> v | _ \<Rightarrow> old)"

definition scan_int :: "string \<Rightarrow> string \<Rightarrow> int \<Rightarrow> int" where
  "scan_int line format old = (case sscanf line format of S_int v # _ \<Rightarrow> v | _ \<Rightarrow> old)"

definition meminfo_line :: "string \<Rightarrow> memory_info_s \<Rightarrow> memory_info_s" where
  "meminfo_line line m =
     (if starts_with line ''MemTotal:'' then m\<lparr>mi_total := scan_ulong line ''MemTotal: %lu kB'' (mi_total m)\<rparr>
      else if starts_with line ''MemFree:'' then m\<lparr>mi_free := scan_ulong line ''MemFree: %lu kB'' (mi_free m)\<rparr>
      else if starts_with line ''Buffers:'' then m\<lparr>mi_buffers := scan_ulong line ''Buffers: %lu kB'' (mi_buffers m)\<rparr>
      else if starts_with line ''Cached:'' then m\<lparr>mi_cached := scan_ulong line ''Cached: %lu kB'' (mi_cached m)\<rparr>
      else if starts_with line ''SwapTotal:'' then m\<lparr>mi_swap_total := scan_ulong line ''SwapTotal: %lu kB'' (mi_swap_total m)\<rparr>
      else if starts_with line ''SwapFree:'' then m\<lparr>mi_swap_free := scan_ulong line ''SwapFree: %lu kB'' (mi_swap_free m)\<rparr>
      else m)"

definition get_memory_info :: "string option \<Rightarrow> memory_info_s" where
  "get_memory_info meminfo =
     (case meminfo of
        None \<Rightarrow> zero_memory_info
      | Some txt \<Rightarrow> fold meminfo_line (fgets_all 254 txt) zero_memory_info)"

definition used_memory :: "memory_info_s \<Rightarrow> u64" where
  "used_memory m = mi_total m - mi_free m - mi_buffers m - mi_cached m"

definition calculate_memory_usage_percent :: "'d double_ops \<Rightarrow> memory_info_s \<Rightarrow> 'd" where
  "calculate_memory_usage_percent D m =
     d_mul D (d_div D (d_of_int D (uint (used_memory m))) (d_of_int D (uint (mi_total m)))) (d_of_int D 100)"

section \<open>Processors\<close>

definition zero_usage :: "'d double_ops \<Rightarrow> 'd cpu_core_usage_s" where
  "zero_usage D = \<lparr>cu_user = 0, cu_nice = 0, cu_system = 0, cu_idle = 0, cu_iowait = 0, cu_irq = 0,
     cu_softirq = 0, cu_steal = 0, cu_guest = 0, cu_guest_nice = 0, cu_total = 0, cu_used = 0,
     cu_usage_percent = d_of_int D 0\<rparr>"

text \<open>\<open>%[^\n]\<close> into the array: the text and its terminator, the bytes behind stay.\<close>

definition scan_text :: "string \<Rightarrow> string \<Rightarrow> char list \<Rightarrow> char list" where
  "scan_text line format buf =
     (case sscanf line format of S_text t # _ \<Rightarrow> t @ NUL # drop (Suc (length t)) buf | _ \<Rightarrow> buf)"

definition cpuinfo_line :: "string \<Rightarrow> 'd cpu_info_s \<times> bool \<Rightarrow> 'd cpu_info_s \<times> bool" where
  "cpuinfo_line line s =
     (let (c, first_cpu) = s;
          c = (if starts_with line ''processor''
               then c\<lparr>ci_logical_processors := ci_logical_processors c + 1\<rparr> else c);
          c = (if first_cpu \<and> starts_with line ''cpu cores''
               then c\<lparr>ci_cpu_count := scan_int line ''cpu cores : %d'' (ci_cpu_count c)\<rparr> else c);
          c = (if first_cpu \<and> starts_with line ''model name''
               then c\<lparr>ci_model := scan_text line (''model name : %'' @ [CHR ''['', CHR ''^'', NL, CHR '']'']) (ci_model c)\<rparr> else c)
      in (c, first_cpu \<and> \<not> (starts_with line ''power management'' \<or> cstr line = [NL])))"

definition get_cpu_info :: "'d double_ops \<Rightarrow> string option \<Rightarrow> 'd cpu_info_s" where
  "get_cpu_info D cpuinfo =
     (let c = \<lparr>ci_cpu_count = 0, ci_logical_processors = 0, ci_model = zbuf 256 ''Unknown'',
               ci_overall_usage = zero_usage D, ci_core_usage = Null\<rparr>
      in case cpuinfo of
           None \<Rightarrow> c
         | Some txt \<Rightarrow> fst (fold cpuinfo_line (fgets_all 254 txt) (c, True)))"

text \<open>The ten variables of the \<open>sscanf\<close> calls, in their order; a conversion that is not reached
  leaves its variable.\<close>

definition usage_fields :: "(u64 \<Rightarrow> 'd cpu_core_usage_s \<Rightarrow> 'd cpu_core_usage_s) list" where
  "usage_fields =
     [\<lambda>v u. u\<lparr>cu_user := v\<rparr>, \<lambda>v u. u\<lparr>cu_nice := v\<rparr>, \<lambda>v u. u\<lparr>cu_system := v\<rparr>, \<lambda>v u. u\<lparr>cu_idle := v\<rparr>,
      \<lambda>v u. u\<lparr>cu_iowait := v\<rparr>, \<lambda>v u. u\<lparr>cu_irq := v\<rparr>, \<lambda>v u. u\<lparr>cu_softirq := v\<rparr>, \<lambda>v u. u\<lparr>cu_steal := v\<rparr>,
      \<lambda>v u. u\<lparr>cu_guest := v\<rparr>, \<lambda>v u. u\<lparr>cu_guest_nice := v\<rparr>]"

definition assign_usage :: "scanned list \<Rightarrow> 'd cpu_core_usage_s \<Rightarrow> 'd cpu_core_usage_s" where
  "assign_usage vs u = fold (\<lambda>(f, v) u. case v of S_ulong w \<Rightarrow> f w u | _ \<Rightarrow> u) (zip usage_fields vs) u"

definition sum_usage :: "'d double_ops \<Rightarrow> 'd cpu_core_usage_s \<Rightarrow> 'd cpu_core_usage_s" where
  "sum_usage D u =
     (let total = cu_user u + cu_nice u + cu_system u + cu_idle u + cu_iowait u + cu_irq u + cu_softirq u + cu_steal u;
          used = total - cu_idle u - cu_iowait u;
          u = u\<lparr>cu_total := total, cu_used := used\<rparr>
      in if total > 0
         then u\<lparr>cu_usage_percent := d_mul D (d_div D (d_of_int D (uint used)) (d_of_int D (uint total))) (d_of_int D 100)\<rparr>
         else u)"

definition ulongs_format :: string where
  "ulongs_format = '' %lu %lu %lu %lu %lu %lu %lu %lu %lu %lu''"

text \<open>One line of \<open>/proc/stat\<close>; the state is the overall usage, the cells and \<open>current_core\<close>.\<close>

definition stat_line ::
    "'d double_ops \<Rightarrow> int \<Rightarrow> string \<Rightarrow> 'd cpu_core_usage_s \<times> 'd cpu_core_usage_s list \<times> nat
     \<Rightarrow> 'd cpu_core_usage_s \<times> 'd cpu_core_usage_s list \<times> nat" where
  "stat_line D logical_processors line s =
     (let (overall, cores, current_core) = s in
      if starts_with line ''cpu '' then
        (sum_usage D (assign_usage (sscanf line (''cpu'' @ ulongs_format)) overall), cores, current_core)
      else if starts_with line ''cpu'' \<and> list_ex is_digit (take 1 (drop 3 (cstr line))) \<and>
              int current_core < logical_processors then
        (overall,
         cores[current_core := sum_usage D (assign_usage (sscanf line (''cpu%*d'' @ ulongs_format)) (cores ! current_core))],
         current_core + 1)
      else s)"

text \<open>\<open>mem\<close> is the block \<open>malloc\<close> returns, of \<open>logical_processors\<close> cells with any content.\<close>

definition get_cpu_usage ::
    "'d double_ops \<Rightarrow> string option \<Rightarrow> 'd cpu_core_usage_s list option \<Rightarrow> 'd cpu_info_s \<Rightarrow> 'd cpu_info_s" where
  "get_cpu_usage D stat mem c =
     (case stat of
        None \<Rightarrow> c
      | Some txt \<Rightarrow>
          (case mem of
             None \<Rightarrow> c\<lparr>ci_core_usage := Null\<rparr>
           | Some cells \<Rightarrow>
               (case fold (stat_line D (ci_logical_processors c)) (fgets_all 254 txt) (ci_overall_usage c, cells, 0) of
                  (overall, cores, _) \<Rightarrow> c\<lparr>ci_overall_usage := overall, ci_core_usage := Live cores\<rparr>)))"

definition free_cpu_usage :: "'d cpu_info_s \<Rightarrow> 'd cpu_info_s option" where
  "free_cpu_usage c =
     (case ci_core_usage c of
        Null \<Rightarrow> Some c | Live _ \<Rightarrow> Some (c\<lparr>ci_core_usage := Null\<rparr>) | Dangling \<Rightarrow> None)"

definition calculate_cpu_usage_percent :: "'d double_ops \<Rightarrow> 'd cpu_core_usage_s \<Rightarrow> 'd" where
  "calculate_cpu_usage_percent D u =
     (if cu_total u > 0
      then d_mul D (d_div D (d_of_int D (uint (cu_used u))) (d_of_int D (uint (cu_total u)))) (d_of_int D 100)
      else d_of_int D 0)"

section \<open>Graphics and the whole system\<close>

text \<open>What follows the first \<open>: \<close> on the line.\<close>

fun after_colon :: "string \<Rightarrow> string option" where
  "after_colon [] = None"
| "after_colon (c # cs) = (if take 2 (c # cs) = '': '' then Some (tl cs) else after_colon cs)"

text \<open>\<open>lspci\<close>: the output of the command, \<open>None\<close> when it cannot be run.\<close>

definition get_gpu_info :: "string option \<Rightarrow> gpu_info_s" where
  "get_gpu_info lspci =
     (let g = \<lparr>gi_model = zbuf 256 ''Unknown'', gi_memory = 0, gi_driver = zbuf 256 ''Unknown''\<rparr>
      in case lspci of
           None \<Rightarrow> g
         | Some out \<Rightarrow>
             (case fgets 256 out of
                None \<Rightarrow> g
              | Some (line, _) \<Rightarrow>
                  (case after_colon (cstr line) of
                     None \<Rightarrow> g
                   | Some start \<Rightarrow>
                       (let model = strncpy (gi_model g) start 255
                        in g\<lparr>gi_model := (if NL \<in> set (cstr model)
                                          then model[length (takeWhile (\<lambda>c. c \<noteq> NL) model) := NUL] else model)\<rparr>))))"

record proc_files =
  pf_meminfo :: "string option"
  pf_cpuinfo :: "string option"
  pf_stat :: "string option"
  pf_lspci :: "string option"

definition get_system_info ::
    "'d double_ops \<Rightarrow> proc_files \<Rightarrow> 'd cpu_core_usage_s list option \<Rightarrow> 'd system_info_s" where
  "get_system_info D p mem =
     \<lparr>sy_mem_info = get_memory_info (pf_meminfo p),
      sy_cpu_info = get_cpu_usage D (pf_stat p) mem (get_cpu_info D (pf_cpuinfo p)),
      sy_gpu_info = get_gpu_info (pf_lspci p)\<rparr>"

section \<open>The saved configuration\<close>

definition config_lines :: "config_s \<Rightarrow> string list" where
  "config_lines config =
     (let m = cf_mem_config config; c = cf_cpu_config config in
      [''System Configuration:'', ''----------------------'', [],
       ''Memory Configuration:'', ''----------------------'',
       ''Memory Size (Max): '' @ dec_nat (unat (mc_allocated_memory_size_max m)) @ '' kB'',
       ''Memory Size (High): '' @ dec_nat (unat (mc_allocated_memory_size_high m)) @ '' kB'',
       ''Swap Memory Size (Max): '' @ dec_nat (unat (mc_allocated_swap_memory_size_max m)) @ '' kB'',
       ''Swap Memory Size (High): '' @ dec_nat (unat (mc_allocated_swap_memory_size_high m)) @ '' kB'',
       ''Memory OOM Protection: '' @ dec_int (mc_memory_oom_protection m), [],
       ''CPU Configuration:'', ''----------------------'',
       ''Allocated Logical Processors: '' @ dec_int (cc_allocated_logical_processors c),
       ''Allocated CPU Share: '' @ dec_int (cc_allocated_cpu_share c)])"

text \<open>\<open>can_open\<close>: whether the file can be opened for writing; the result is the return value and the
  content of the file.\<close>

definition save_config :: "bool \<Rightarrow> config_s \<Rightarrow> int \<times> string option" where
  "save_config can_open config =
     (if can_open then (0, Some (concat (map (\<lambda>l. l @ [NL]) (config_lines config)))) else (-1, None))"

definition zero_config :: config_s where
  "zero_config = \<lparr>cf_mem_config = \<lparr>mc_allocated_memory_size_max = 0, mc_allocated_memory_size_high = 0,
     mc_allocated_swap_memory_size_max = 0, mc_allocated_swap_memory_size_high = 0, mc_memory_oom_protection = 0\<rparr>,
     cf_cpu_config = \<lparr>cc_allocated_logical_processors = 0, cc_allocated_cpu_share = 0\<rparr>\<rparr>"

definition load_config_line :: "string \<Rightarrow> config_s \<Rightarrow> config_s" where
  "load_config_line line config =
     (let m = cf_mem_config config; c = cf_cpu_config config in
      case sscanf line ''Memory Size (Max): %lu kB'' of
        [S_ulong v] \<Rightarrow> config\<lparr>cf_mem_config := m\<lparr>mc_allocated_memory_size_max := v\<rparr>\<rparr>
      | _ \<Rightarrow> (case sscanf line ''Memory Size (High): %lu kB'' of
        [S_ulong v] \<Rightarrow> config\<lparr>cf_mem_config := m\<lparr>mc_allocated_memory_size_high := v\<rparr>\<rparr>
      | _ \<Rightarrow> (case sscanf line ''Swap Memory Size (Max): %lu kB'' of
        [S_ulong v] \<Rightarrow> config\<lparr>cf_mem_config := m\<lparr>mc_allocated_swap_memory_size_max := v\<rparr>\<rparr>
      | _ \<Rightarrow> (case sscanf line ''Swap Memory Size (High): %lu kB'' of
        [S_ulong v] \<Rightarrow> config\<lparr>cf_mem_config := m\<lparr>mc_allocated_swap_memory_size_high := v\<rparr>\<rparr>
      | _ \<Rightarrow> (case sscanf line ''Memory OOM Protection: %d'' of
        [S_int v] \<Rightarrow> config\<lparr>cf_mem_config := m\<lparr>mc_memory_oom_protection := v\<rparr>\<rparr>
      | _ \<Rightarrow> (case sscanf line ''Allocated Logical Processors: %d'' of
        [S_int v] \<Rightarrow> config\<lparr>cf_cpu_config := c\<lparr>cc_allocated_logical_processors := v\<rparr>\<rparr>
      | _ \<Rightarrow> (case sscanf line ''Allocated CPU Share: %d'' of
        [S_int v] \<Rightarrow> config\<lparr>cf_cpu_config := c\<lparr>cc_allocated_cpu_share := v\<rparr>\<rparr>
      | _ \<Rightarrow> config)))))))"

definition with_defaults :: "config_s \<Rightarrow> config_s" where
  "with_defaults config =
     (let m = cf_mem_config config; c = cf_cpu_config config in
      \<lparr>cf_mem_config =
         \<lparr>mc_allocated_memory_size_max =
            (if mc_allocated_memory_size_max m = 0 then 1024 * 1024 else mc_allocated_memory_size_max m),
          mc_allocated_memory_size_high =
            (if mc_allocated_memory_size_high m = 0 then 512 * 1024 else mc_allocated_memory_size_high m),
          mc_allocated_swap_memory_size_max =
            (if mc_allocated_swap_memory_size_max m = 0 then 1024 * 1024 else mc_allocated_swap_memory_size_max m),
          mc_allocated_swap_memory_size_high =
            (if mc_allocated_swap_memory_size_high m = 0 then 512 * 1024 else mc_allocated_swap_memory_size_high m),
          mc_memory_oom_protection =
            (if mc_memory_oom_protection m = 0 then 1 else mc_memory_oom_protection m)\<rparr>,
       cf_cpu_config =
         \<lparr>cc_allocated_logical_processors =
            (if cc_allocated_logical_processors c = 0 then 1 else cc_allocated_logical_processors c),
          cc_allocated_cpu_share =
            (if cc_allocated_cpu_share c = 0 then 1024 else cc_allocated_cpu_share c)\<rparr>\<rparr>)"

definition load_config :: "string option \<Rightarrow> config_s" where
  "load_config file_text =
     (case file_text of
        None \<Rightarrow> zero_config
      | Some txt \<Rightarrow> with_defaults (fold load_config_line (fgets_all 254 txt) zero_config))"

end
