(* ===== verification/Volcom_Rcsmngr.thy ===== *)
theory Volcom_Rcsmngr
  imports Volcom_Sysinfo "HOL-Library.Signed_Division"
begin

text \<open>
  \<open>volcom_rcsmngr/volcom_rcsmngr.c\<close>: the manager of the control groups. It keeps the main group, a
  growing array of child groups and, for each group, a growing array of the processes put into it;
  the groups themselves are directories of the cgroup file system, and their limits and members are
  set by writing files there. The file system is its directories and the list of what took effect;
  the kernel \<open>K\<close> decides which calls it takes. A file written through \<open>FILE\<close> is buffered, so a write
  the kernel refuses comes out in \<open>fclose\<close>, which the code does not check. \<open>malloc\<close> and \<open>realloc\<close> give
  the content of the new cells or fail. Counters are natural numbers. The function that only prints
  is left out.
\<close>

section \<open>Data\<close>

record cgroup_info_s =
  cg_name :: "char list"
  cg_path :: "char list"
  cg_parent_path :: "char list"
  cg_is_created :: bool
  cg_pids :: "int list ptr"
  cg_pid_count :: nat
  cg_pid_capacity :: nat

record volcom_rcsmngr_s =
  rm_root_cgroup_path :: "char list"
  rm_main_cgroup :: cgroup_info_s
  rm_child_cgroups :: "cgroup_info_s list ptr"
  rm_child_count :: nat
  rm_child_capacity :: nat
  rm_is_initialized :: bool

definition MAX_PATH_LEN :: nat where "MAX_PATH_LEN = 512"
definition MAX_NAME_LEN :: nat where "MAX_NAME_LEN = 64"

definition CGROUP_V2_ROOT :: string where "CGROUP_V2_ROOT = ''/sys/fs/cgroup''"

text \<open>What \<open>memset(.., 0, ..)\<close> leaves.\<close>

definition zero_cgroup :: cgroup_info_s where
  "zero_cgroup = \<lparr>cg_name = replicate MAX_NAME_LEN NUL, cg_path = replicate MAX_PATH_LEN NUL,
     cg_parent_path = replicate MAX_PATH_LEN NUL, cg_is_created = False, cg_pids = Null,
     cg_pid_count = 0, cg_pid_capacity = 0\<rparr>"

definition zero_manager :: volcom_rcsmngr_s where
  "zero_manager = \<lparr>rm_root_cgroup_path = replicate MAX_PATH_LEN NUL, rm_main_cgroup = zero_cgroup,
     rm_child_cgroups = Null, rm_child_count = 0, rm_child_capacity = 0, rm_is_initialized = False\<rparr>"

section \<open>The file system\<close>

datatype cg_event = Mkdir string | Rmdir string | Wrote string string

record cgfs =
  fs_dirs :: "string list"
  fs_log :: "cg_event list"

record cg_kernel =
  k_mkdir :: "cgfs \<Rightarrow> string \<Rightarrow> bool"
  k_rmdir :: "cgfs \<Rightarrow> string \<Rightarrow> bool"
  k_fopen :: "cgfs \<Rightarrow> string \<Rightarrow> bool"
  k_fprintf :: "cgfs \<Rightarrow> string \<Rightarrow> bool"
  k_flush :: "cgfs \<Rightarrow> string \<Rightarrow> bool"

text \<open>\<open>mkdir(path, 0755) == 0 || errno == EEXIST\<close>.\<close>

definition make_dir :: "cg_kernel \<Rightarrow> string \<Rightarrow> cgfs \<Rightarrow> bool \<times> cgfs" where
  "make_dir K path fs =
     (if path \<in> set (fs_dirs fs) then (True, fs)
      else if k_mkdir K fs path
      then (True, fs\<lparr>fs_dirs := path # fs_dirs fs, fs_log := fs_log fs @ [Mkdir path]\<rparr>)
      else (False, fs))"

definition rmdir :: "cg_kernel \<Rightarrow> string \<Rightarrow> cgfs \<Rightarrow> bool \<times> cgfs" where
  "rmdir K path fs =
     (if path \<in> set (fs_dirs fs) \<and> k_rmdir K fs path
      then (True, fs\<lparr>fs_dirs := removeAll path (fs_dirs fs), fs_log := fs_log fs @ [Rmdir path]\<rparr>)
      else (False, fs))"

datatype file_result = Not_opened | Not_written | File_closed

text \<open>\<open>fopen(file, "w")\<close>, one \<open>fprintf\<close>, \<open>fclose\<close>.\<close>

definition write_file :: "cg_kernel \<Rightarrow> string \<Rightarrow> string \<Rightarrow> cgfs \<Rightarrow> file_result \<times> cgfs" where
  "write_file K path content fs =
     (if \<not> k_fopen K fs path then (Not_opened, fs)
      else if \<not> k_fprintf K fs path then (Not_written, fs)
      else (File_closed, if k_flush K fs path then fs\<lparr>fs_log := fs_log fs @ [Wrote path content]\<rparr> else fs))"

text \<open>The path of a file of a group: \<open>snprintf\<close> into an array of \<open>MAX_PATH_LEN\<close> bytes.\<close>

definition file_in :: "char list \<Rightarrow> string \<Rightarrow> string" where
  "file_in cgroup_path name = take (MAX_PATH_LEN - 1) (cstr cgroup_path @ ''/'' @ name)"

section \<open>Limits\<close>

text \<open>\<open>stat_ok\<close>: \<open>/sys/fs/cgroup/cgroup.controllers\<close> exists.\<close>

definition volcom_check_cgroup_v2_support :: "bool \<Rightarrow> int" where
  "volcom_check_cgroup_v2_support stat_ok = (if stat_ok then 0 else -1)"

definition volcom_set_memory_limit :: "cg_kernel \<Rightarrow> char list \<Rightarrow> u64 \<Rightarrow> cgfs \<Rightarrow> int \<times> cgfs" where
  "volcom_set_memory_limit K cgroup_path limit_bytes fs =
     (case write_file K (file_in cgroup_path ''memory.max'') (dec_nat (unat limit_bytes) @ [NL]) fs of
        (File_closed, fs) \<Rightarrow> (0, fs)
      | (_, fs) \<Rightarrow> (-1, fs))"

text \<open>\<open>cpu_count * 100000\<close> is an \<open>int\<close>; its overflow has no defined result. Neither file's result
  counts.\<close>

definition volcom_set_cpu_limit :: "cg_kernel \<Rightarrow> char list \<Rightarrow> int \<Rightarrow> int \<Rightarrow> cgfs \<Rightarrow> (int \<times> cgfs) option" where
  "volcom_set_cpu_limit K cgroup_path cpu_shares cpu_count fs =
     (let fs = snd (write_file K (file_in cgroup_path ''cpu.weight'') (dec_int cpu_shares @ [NL]) fs);
          cpu_max = file_in cgroup_path ''cpu.max'' in
      if k_fopen K fs cpu_max \<and> cpu_count > 0 \<and> cpu_count * 100000 \<ge> 2 ^ 31 then None
      else Some (0, snd (write_file K cpu_max
             (if cpu_count > 0 then dec_int (cpu_count * 100000) @ '' 100000'' @ [NL] else ''max 100000'' @ [NL]) fs)))"

text \<open>The tokens \<open>strtok\<close> gives one after the other.\<close>

function tokens :: "char \<Rightarrow> string \<Rightarrow> string list" where
  "tokens delim s = (case strtok delim s of None \<Rightarrow> [] | Some (t, rest) \<Rightarrow> t # tokens delim rest)"
  by pat_completeness auto
termination
proof (relation "measure (\<lambda>(delim, s). length s)")
  fix delim :: char and s and t :: "string \<times> string" and t1 rest
  assume "strtok delim s = Some t" and "(t1, rest) = t"
  then have r: "rest = tl (dropWhile (\<lambda>c. c \<noteq> delim) (dropWhile (\<lambda>c. c = delim) s))"
    and n: "dropWhile (\<lambda>c. c = delim) s \<noteq> []"
    by (auto simp: strtok_def Let_def split: if_splits)
  have "length (dropWhile (\<lambda>c. c \<noteq> delim) (dropWhile (\<lambda>c. c = delim) s)) \<le> length s"
    by (meson length_dropWhile_le order_trans)
  moreover have "s \<noteq> []" using n by auto
  ultimately have "length rest < length s" using r by (cases s) auto
  then show "((delim, rest), (delim, s)) \<in> measure (\<lambda>(delim, s). length s)" by simp
qed simp

declare tokens.simps [simp del]

fun enable_loop :: "cg_kernel \<Rightarrow> string \<Rightarrow> string list \<Rightarrow> cgfs \<Rightarrow> int \<times> cgfs" where
  "enable_loop K subtree_control [] fs = (0, fs)"
| "enable_loop K subtree_control (token # ts) fs =
     (case write_file K subtree_control (take 63 (''+'' @ token)) fs of
        (File_closed, fs) \<Rightarrow> enable_loop K subtree_control ts fs
      | (_, fs) \<Rightarrow> (-1, fs))"

definition volcom_enable_controllers :: "cg_kernel \<Rightarrow> bool \<Rightarrow> char list \<Rightarrow> string \<Rightarrow> cgfs \<Rightarrow> int \<times> cgfs" where
  "volcom_enable_controllers K strdup_ok cgroup_path controllers fs =
     (if \<not> strdup_ok then (-1, fs)
      else enable_loop K (file_in cgroup_path ''cgroup.subtree_control'') (tokens (CHR '' '') (cstr controllers)) fs)"

section \<open>Starting and stopping the manager\<close>

text \<open>The cells \<open>malloc\<close> and \<open>realloc\<close> give: \<open>junk\<close> is the content of the new ones, \<open>None\<close> when the
  call fails.\<close>

definition malloc_cells :: "nat \<Rightarrow> (nat \<Rightarrow> 'a) option \<Rightarrow> 'a list ptr" where
  "malloc_cells n junk = (case junk of None \<Rightarrow> Null | Some j \<Rightarrow> Live (map j [0..<n]))"

definition realloc_cells :: "'a list ptr \<Rightarrow> nat \<Rightarrow> (nat \<Rightarrow> 'a) option \<Rightarrow> 'a list ptr option" where
  "realloc_cells p n junk =
     (case p of
        Dangling \<Rightarrow> None
      | Null \<Rightarrow> Some (malloc_cells n junk)
      | Live cells \<Rightarrow> Some (case junk of None \<Rightarrow> Null | Some j \<Rightarrow> Live (take n (cells @ map j [length cells..<n]))))"

text \<open>\<open>if (p) free(p)\<close>.\<close>

definition free_block :: "'a ptr \<Rightarrow> 'a ptr option" where
  "free_block p = (case p of Null \<Rightarrow> Some Null | Live _ \<Rightarrow> Some Dangling | Dangling \<Rightarrow> None)"

text \<open>The first \<open>n\<close> cells of a block, as a loop reads them.\<close>

definition read_cells :: "'a list ptr \<Rightarrow> nat \<Rightarrow> 'a list option" where
  "read_cells p n =
     (if n = 0 then Some []
      else (case p of Live cells \<Rightarrow> if n \<le> length cells then Some (take n cells) else None | _ \<Rightarrow> None))"

primrec free_all :: "cgroup_info_s list \<Rightarrow> unit option" where
  "free_all [] = Some ()"
| "free_all (c # cs) = do { _ \<leftarrow> free_block (cg_pids c); free_all cs }"

definition volcom_rcsmngr_cleanup :: "volcom_rcsmngr_s option \<Rightarrow> volcom_rcsmngr_s option option" where
  "volcom_rcsmngr_cleanup manager =
     (case manager of
        None \<Rightarrow> Some None
      | Some m \<Rightarrow> do {
          _ \<leftarrow> free_block (cg_pids (rm_main_cgroup m));
          children \<leftarrow> read_cells (rm_child_cgroups m) (rm_child_count m);
          _ \<leftarrow> free_all children;
          _ \<leftarrow> free_block (rm_child_cgroups m);
          Some (Some zero_manager)
        })"

definition volcom_rcsmngr_init ::
    "bool \<Rightarrow> (nat \<Rightarrow> int) option \<Rightarrow> (nat \<Rightarrow> cgroup_info_s) option \<Rightarrow> volcom_rcsmngr_s option \<Rightarrow> string option
     \<Rightarrow> (int \<times> volcom_rcsmngr_s option) option" where
  "volcom_rcsmngr_init stat_ok pid_mem child_mem manager cgroup_name =
     (case (manager, cgroup_name) of
        (Some m, Some name) \<Rightarrow>
          if volcom_check_cgroup_v2_support stat_ok \<noteq> 0 then Some (-1, Some m)
          else
            (let root = snprintf (replicate MAX_PATH_LEN NUL) MAX_PATH_LEN (CGROUP_V2_ROOT @ ''/'' @ cstr name);
                 g = zero_cgroup\<lparr>
                   cg_name := strncpy (cg_name zero_cgroup) name (MAX_NAME_LEN - 1),
                   cg_path := strncpy (cg_path zero_cgroup) root (MAX_PATH_LEN - 1),
                   cg_parent_path := strncpy (cg_parent_path zero_cgroup) CGROUP_V2_ROOT (MAX_PATH_LEN - 1),
                   cg_is_created := False, cg_pid_capacity := 10, cg_pids := malloc_cells 10 pid_mem\<rparr>;
                 m = zero_manager\<lparr>rm_root_cgroup_path := root, rm_main_cgroup := g,
                   rm_child_capacity := 5, rm_child_cgroups := malloc_cells 5 child_mem\<rparr>
             in if cg_pids (rm_main_cgroup m) = Null \<or> rm_child_cgroups m = Null
                then do { m' \<leftarrow> volcom_rcsmngr_cleanup (Some m); Some (-1, m') }
                else Some (0, Some (m\<lparr>rm_is_initialized := True\<rparr>)))
      | _ \<Rightarrow> Some (-1, manager))"

section \<open>Creating groups\<close>

definition volcom_create_main_cgroup ::
    "cg_kernel \<Rightarrow> bool \<Rightarrow> volcom_rcsmngr_s option \<Rightarrow> config_s \<Rightarrow> cgfs \<Rightarrow> (int \<times> volcom_rcsmngr_s option \<times> cgfs) option" where
  "volcom_create_main_cgroup K strdup_ok manager config fs =
     (case manager of
        None \<Rightarrow> Some (-1, None, fs)
      | Some m \<Rightarrow>
          if \<not> rm_is_initialized m then Some (-1, Some m, fs)
          else if cg_is_created (rm_main_cgroup m) then Some (-1, Some m, fs)
          else
            (let path = cg_path (rm_main_cgroup m); (ok, fs) = make_dir K (cstr path) fs in
             if \<not> ok then Some (-1, Some m, fs)
             else
               (let (r, fs) = volcom_set_memory_limit K path (mc_allocated_memory_size_max (cf_mem_config config) * 1024) fs in
                if r \<noteq> 0 then Some (-1, Some m, fs)
                else do {
                  (r, fs) \<leftarrow> volcom_set_cpu_limit K path (cc_allocated_cpu_share (cf_cpu_config config))
                               (cc_allocated_logical_processors (cf_cpu_config config)) fs;
                  if r \<noteq> 0 then Some (-1, Some m, fs)
                  else
                    (let (r, fs) = volcom_enable_controllers K strdup_ok path ''memory cpu'' fs in
                     if r \<noteq> 0 then Some (-1, Some m, fs)
                     else Some (0, Some (m\<lparr>rm_main_cgroup := (rm_main_cgroup m)\<lparr>cg_is_created := True\<rparr>\<rparr>), fs))
                })))"

text \<open>The array of children grows when it is full; when \<open>realloc\<close> fails its old block is lost.\<close>

definition grow_children :: "(nat \<Rightarrow> cgroup_info_s) option \<Rightarrow> volcom_rcsmngr_s \<Rightarrow> volcom_rcsmngr_s option" where
  "grow_children child_mem m =
     (if rm_child_count m \<ge> rm_child_capacity m
      then do {
        cells \<leftarrow> realloc_cells (rm_child_cgroups m) (rm_child_capacity m * 2) child_mem;
        Some (m\<lparr>rm_child_capacity := rm_child_capacity m * 2, rm_child_cgroups := cells\<rparr>)
      }
      else Some m)"

definition volcom_create_child_cgroup ::
    "cg_kernel \<Rightarrow> (nat \<Rightarrow> cgroup_info_s) option \<Rightarrow> (nat \<Rightarrow> int) option \<Rightarrow> volcom_rcsmngr_s option \<Rightarrow> string option
     \<Rightarrow> config_s \<Rightarrow> cgfs \<Rightarrow> (int \<times> volcom_rcsmngr_s option \<times> cgfs) option" where
  "volcom_create_child_cgroup K child_mem pid_mem manager child_name config fs =
     (case (manager, child_name) of
        (Some m, Some name) \<Rightarrow>
          if \<not> rm_is_initialized m \<or> \<not> cg_is_created (rm_main_cgroup m) then Some (-1, Some m, fs)
          else do {
            m \<leftarrow> grow_children child_mem m;
            if rm_child_cgroups m = Null then Some (-1, Some m, fs)
            else
              (let i = int (rm_child_count m);
                   child = zero_cgroup\<lparr>
                     cg_name := strncpy (cg_name zero_cgroup) name (MAX_NAME_LEN - 1),
                     cg_path := snprintf (cg_path zero_cgroup) MAX_PATH_LEN (cstr (cg_path (rm_main_cgroup m)) @ ''/'' @ cstr name),
                     cg_parent_path := strncpy (cg_parent_path zero_cgroup) (cg_path (rm_main_cgroup m)) (MAX_PATH_LEN - 1)\<rparr>
               in do {
                 cells \<leftarrow> cell_set (rm_child_cgroups m) i child;
                 let m = m\<lparr>rm_child_cgroups := cells\<rparr>; (ok, fs) = make_dir K (cstr (cg_path child)) fs in
                 if \<not> ok then Some (-1, Some m, fs)
                 else
                   (let (r, fs) = volcom_set_memory_limit K (cg_path child)
                                    (mc_allocated_memory_size_high (cf_mem_config config) * 1024) fs in
                    if r \<noteq> 0 then Some (-1, Some m, fs)
                    else do {
                      (r, fs) \<leftarrow> volcom_set_cpu_limit K (cg_path child)
                                   (cc_allocated_cpu_share (cf_cpu_config config) sdiv 2) 1 fs;
                      if r \<noteq> 0 then Some (-1, Some m, fs)
                      else
                        (let child = child\<lparr>cg_pid_capacity := 10, cg_pids := malloc_cells 10 pid_mem\<rparr> in
                         if cg_pids child = Null
                         then do {
                           cells \<leftarrow> cell_set (rm_child_cgroups m) i child;
                           Some (-1, Some (m\<lparr>rm_child_cgroups := cells\<rparr>), snd (rmdir K (cstr (cg_path child)) fs))
                         }
                         else do {
                           cells \<leftarrow> cell_set (rm_child_cgroups m) i (child\<lparr>cg_is_created := True\<rparr>);
                           Some (0, Some (m\<lparr>rm_child_cgroups := cells, rm_child_count := rm_child_count m + 1\<rparr>), fs)
                         })
                    })
               })
          }
      | _ \<Rightarrow> Some (-1, manager, fs))"

section \<open>Processes of a group\<close>

text \<open>\<open>target_cgroup\<close>: the main group, or the child at an index.\<close>

datatype cg_target = Main_cgroup | Child_cgroup nat

definition target_cgroup :: "volcom_rcsmngr_s \<Rightarrow> string \<Rightarrow> cg_target option option" where
  "target_cgroup m name =
     (if str_eq name (cg_name (rm_main_cgroup m)) then Some (Some Main_cgroup)
      else do {
        children \<leftarrow> read_cells (rm_child_cgroups m) (rm_child_count m);
        Some (map_option Child_cgroup (find_index (\<lambda>c. str_eq name (cg_name c)) children))
      })"

definition get_cgroup :: "volcom_rcsmngr_s \<Rightarrow> cg_target \<Rightarrow> cgroup_info_s option" where
  "get_cgroup m t =
     (case t of Main_cgroup \<Rightarrow> Some (rm_main_cgroup m) | Child_cgroup i \<Rightarrow> cell_get (rm_child_cgroups m) (int i))"

definition set_cgroup :: "volcom_rcsmngr_s \<Rightarrow> cg_target \<Rightarrow> cgroup_info_s \<Rightarrow> volcom_rcsmngr_s option" where
  "set_cgroup m t g =
     (case t of
        Main_cgroup \<Rightarrow> Some (m\<lparr>rm_main_cgroup := g\<rparr>)
      | Child_cgroup i \<Rightarrow> do { cells \<leftarrow> cell_set (rm_child_cgroups m) (int i) g; Some (m\<lparr>rm_child_cgroups := cells\<rparr>) })"

definition grow_pids :: "(nat \<Rightarrow> int) option \<Rightarrow> cgroup_info_s \<Rightarrow> cgroup_info_s option" where
  "grow_pids pid_mem g =
     (if cg_pid_count g \<ge> cg_pid_capacity g
      then do {
        cells \<leftarrow> realloc_cells (cg_pids g) (cg_pid_capacity g * 2) pid_mem;
        Some (g\<lparr>cg_pid_capacity := cg_pid_capacity g * 2, cg_pids := cells\<rparr>)
      }
      else Some g)"

definition volcom_add_pid_to_cgroup ::
    "cg_kernel \<Rightarrow> (nat \<Rightarrow> int) option \<Rightarrow> volcom_rcsmngr_s option \<Rightarrow> string option \<Rightarrow> int \<Rightarrow> cgfs
     \<Rightarrow> (int \<times> volcom_rcsmngr_s option \<times> cgfs) option" where
  "volcom_add_pid_to_cgroup K pid_mem manager cgroup_name pid fs =
     (case (manager, cgroup_name) of
        (Some m, Some name) \<Rightarrow>
          if \<not> rm_is_initialized m \<or> pid \<le> 0 then Some (-1, Some m, fs)
          else do {
            t \<leftarrow> target_cgroup m name;
            case t of
              None \<Rightarrow> Some (-1, Some m, fs)
            | Some t \<Rightarrow> do {
                g \<leftarrow> get_cgroup m t;
                if \<not> cg_is_created g then Some (-1, Some m, fs)
                else (case write_file K (file_in (cg_path g) ''cgroup.procs'') (dec_int pid @ [NL]) fs of
                  (File_closed, fs) \<Rightarrow> do {
                    g \<leftarrow> grow_pids pid_mem g;
                    if cg_pids g = Null
                    then do { m \<leftarrow> set_cgroup m t g; Some (-1, Some m, fs) }
                    else do {
                      cells \<leftarrow> cell_set (cg_pids g) (int (cg_pid_count g)) pid;
                      m \<leftarrow> set_cgroup m t (g\<lparr>cg_pids := cells, cg_pid_count := cg_pid_count g + 1\<rparr>);
                      Some (0, Some m, fs)
                    }
                  }
                | (_, fs) \<Rightarrow> Some (-1, Some m, fs))
              }
          }
      | _ \<Rightarrow> Some (-1, manager, fs))"

definition volcom_remove_pid_from_cgroup ::
    "volcom_rcsmngr_s option \<Rightarrow> string option \<Rightarrow> int \<Rightarrow> (int \<times> volcom_rcsmngr_s option) option" where
  "volcom_remove_pid_from_cgroup manager cgroup_name pid =
     (case (manager, cgroup_name) of
        (Some m, Some name) \<Rightarrow>
          if \<not> rm_is_initialized m \<or> pid \<le> 0 then Some (-1, Some m)
          else do {
            t \<leftarrow> target_cgroup m name;
            case t of
              None \<Rightarrow> Some (-1, Some m)
            | Some t \<Rightarrow> do {
                g \<leftarrow> get_cgroup m t;
                pids \<leftarrow> read_cells (cg_pids g) (cg_pid_count g);
                case (find_index (\<lambda>p. p = pid) pids, cg_pids g) of
                  (Some i, Live cells) \<Rightarrow> do {
                    m \<leftarrow> set_cgroup m t (g\<lparr>cg_pids := Live (shift_left i (cg_pid_count g) cells),
                                           cg_pid_count := cg_pid_count g - 1\<rparr>);
                    Some (0, Some m)
                  }
                | _ \<Rightarrow> Some (-1, Some m)
              }
          }
      | _ \<Rightarrow> Some (-1, manager))"

text \<open>\<open>pids_out\<close> and \<open>count_out\<close>: the variables the pointer arguments point to, \<open>None\<close> for NULL.\<close>

definition volcom_get_cgroup_pids ::
    "bool \<Rightarrow> volcom_rcsmngr_s option \<Rightarrow> string option \<Rightarrow> int list ptr option \<Rightarrow> nat option
     \<Rightarrow> (int \<times> int list ptr option \<times> nat option) option" where
  "volcom_get_cgroup_pids malloc_ok manager cgroup_name pids_out count_out =
     (case (manager, cgroup_name, pids_out, count_out) of
        (Some m, Some name, Some _, Some _) \<Rightarrow>
          if \<not> rm_is_initialized m then Some (-1, pids_out, count_out)
          else do {
            t \<leftarrow> target_cgroup m name;
            case t of
              None \<Rightarrow> Some (-1, pids_out, count_out)
            | Some t \<Rightarrow> do {
                g \<leftarrow> get_cgroup m t;
                if cg_pid_count g > 0
                then
                  if \<not> malloc_ok then Some (-1, Some Null, Some (cg_pid_count g))
                  else do {
                    pids \<leftarrow> read_cells (cg_pids g) (cg_pid_count g);
                    Some (0, Some (Live pids), Some (cg_pid_count g))
                  }
                else Some (0, Some Null, Some 0)
              }
          }
      | _ \<Rightarrow> Some (-1, pids_out, count_out))"

section \<open>Deleting groups\<close>

definition delete_child_at :: "cg_kernel \<Rightarrow> volcom_rcsmngr_s \<Rightarrow> nat \<Rightarrow> cgfs \<Rightarrow> (int \<times> volcom_rcsmngr_s \<times> cgfs) option" where
  "delete_child_at K m i fs = do {
     child \<leftarrow> cell_get (rm_child_cgroups m) (int i);
     pids \<leftarrow> free_block (cg_pids child);
     cells \<leftarrow> cell_set (rm_child_cgroups m) (int i) (child\<lparr>cg_pids := pids\<rparr>);
     let (ok, fs) = rmdir K (cstr (cg_path child)) fs in
     if \<not> ok then Some (-1, m\<lparr>rm_child_cgroups := cells\<rparr>, fs)
     else (case cells of
         Live cs \<Rightarrow> Some (0, m\<lparr>rm_child_cgroups := Live (shift_left i (rm_child_count m) cs),
                              rm_child_count := rm_child_count m - 1\<rparr>, fs)
       | _ \<Rightarrow> None)
   }"

definition volcom_delete_child_cgroup ::
    "cg_kernel \<Rightarrow> volcom_rcsmngr_s option \<Rightarrow> string option \<Rightarrow> cgfs \<Rightarrow> (int \<times> volcom_rcsmngr_s option \<times> cgfs) option" where
  "volcom_delete_child_cgroup K manager child_name fs =
     (case (manager, child_name) of
        (Some m, Some name) \<Rightarrow>
          if \<not> rm_is_initialized m then Some (-1, Some m, fs)
          else do {
            children \<leftarrow> read_cells (rm_child_cgroups m) (rm_child_count m);
            case find_index (\<lambda>c. str_eq (cg_name c) name) children of
              None \<Rightarrow> Some (-1, Some m, fs)
            | Some i \<Rightarrow> do {
                (r, m, fs) \<leftarrow> delete_child_at K m i fs;
                Some (r, Some m, fs)
              }
          }
      | _ \<Rightarrow> Some (-1, manager, fs))"

text \<open>The loop \<open>while (child_count > 0)\<close>: \<open>None\<close> also when it runs forever.\<close>

partial_function (option) delete_children ::
    "cg_kernel \<Rightarrow> volcom_rcsmngr_s \<Rightarrow> cgfs \<Rightarrow> (volcom_rcsmngr_s \<times> cgfs) option" where
  "delete_children K m fs =
     (if rm_child_count m = 0 then Some (m, fs)
      else Option.bind (cell_get (rm_child_cgroups m) 0) (\<lambda>child.
           Option.bind (volcom_delete_child_cgroup K (Some m) (Some (cg_name child)) fs) (\<lambda>r.
             case fst (snd r) of None \<Rightarrow> None | Some m' \<Rightarrow> delete_children K m' (snd (snd r)))))"

definition volcom_delete_main_cgroup ::
    "cg_kernel \<Rightarrow> volcom_rcsmngr_s option \<Rightarrow> cgfs \<Rightarrow> (int \<times> volcom_rcsmngr_s option \<times> cgfs) option" where
  "volcom_delete_main_cgroup K manager fs =
     (case manager of
        None \<Rightarrow> Some (-1, None, fs)
      | Some m \<Rightarrow>
          if \<not> rm_is_initialized m then Some (-1, Some m, fs)
          else do {
            (m, fs) \<leftarrow> delete_children K m fs;
            if cg_is_created (rm_main_cgroup m)
            then
              (let (ok, fs) = rmdir K (cstr (cg_path (rm_main_cgroup m))) fs in
               if \<not> ok then Some (-1, Some m, fs)
               else Some (0, Some (m\<lparr>rm_main_cgroup := (rm_main_cgroup m)\<lparr>cg_is_created := False\<rparr>\<rparr>), fs))
            else Some (0, Some m, fs)
          })"

end
