(* ===== verification/Employee_Run.thy ===== *)
theory Employee_Run
  imports Employee Net_Utils Volcom_Rcsmngr
begin

text \<open>
  \<open>volcom_agents/employee/volcom_employee.c\<close>, the running program: the broadcast thread, the worker
  thread that hands data chunks to the node script, the connection with the employer, the threads it
  starts, and \<open>run_employee_mode\<close>. One iteration of each loop is one function on the state all
  threads share; \<open>None\<close> is an iteration with no defined result. Detached threads that have not run
  yet are a list; the descriptor of the Unix socket and the connection with the employer live in the
  same table of descriptors. \<open>em_lost\<close> counts the heap blocks no pointer refers to any more.
\<close>

section \<open>State\<close>

record file_save_args_t =
  sa_filepath :: "char list"
  sa_data :: "bytes ptr"
  sa_data_size :: u64

record node_start_args_t =
  na_task_id :: string
  na_config_filepath :: string

datatype emp_thread = Save_file file_save_args_t | Start_node node_start_args_t

record employee =
  em_running :: bool
  em_buffer :: task_buffer_t
  em_results :: result_queue_t
  em_status :: agent_status_t
  em_node_started :: bool
  em_unix_connected :: bool
  em_unix :: unix_sockets
  em_files :: "string \<Rightarrow> bytes option"
  em_threads :: "emp_thread list"
  em_manager :: "volcom_rcsmngr_s option"
  em_cgfs :: cgfs
  em_lost :: nat

definition EMPLOYEE_PORT :: int where "EMPLOYEE_PORT = 12345"

definition RESPONSE_SIZE :: nat where "RESPONSE_SIZE = 2 * 1024 * 1024"

definition client_socket_config :: unix_socket_config_s where
  "client_socket_config = \<lparr>uc_socket_path = ''/tmp/volcom_unix_socket'', uc_buffer_size = 2 * 1024 * 1024, uc_timeout_sec = 30\<rparr>"

text \<open>A block read as a C string: without a terminator in it the read runs past its end.\<close>

definition block_text :: "bytes ptr \<Rightarrow> char list option option" where
  "block_text p =
     (case p of
        Null \<Rightarrow> Some None
      | Live bs \<Rightarrow> if NUL \<in> set bs then Some (Some bs) else None
      | Dangling \<Rightarrow> None)"

section \<open>Broadcast thread\<close>

definition get_current_memory_percent :: "'d double_ops \<Rightarrow> string option \<Rightarrow> 'd" where
  "get_current_memory_percent D meminfo = calculate_memory_usage_percent D (get_memory_info meminfo)"

definition RESOURCE_THRESHOLD :: "'d double_ops \<Rightarrow> 'd" where
  "RESOURCE_THRESHOLD D = d_of_int D 80"

definition quoted :: "string \<Rightarrow> string" where
  "quoted s = [CHR 0x22] @ s @ [CHR 0x22]"

text \<open>\<open>show2\<close> is the \<open>%.2f\<close> conversion.\<close>

definition broadcast_message ::
    "('d \<Rightarrow> string) \<Rightarrow> agent_status_t \<Rightarrow> char list \<Rightarrow> memory_info_s \<Rightarrow> 'd \<Rightarrow> 'd cpu_info_s \<Rightarrow> int \<Rightarrow> string" where
  "broadcast_message show2 status ip mem_info mem_percent cpu_info now =
     take 1023
       (''{'' @ quoted ''type'' @ '':'' @ quoted ''volcom_broadcast'' @ '','' @
        quoted ''mode'' @ '':'' @ quoted ''employee'' @ '','' @
        quoted ''employee_id'' @ '':'' @ quoted (cstr (ag_agent_id status)) @ '','' @
        quoted ''ip'' @ '':'' @ quoted (cstr ip) @ '','' @
        quoted ''free_mem_mb'' @ '':'' @ dec_nat (unat (mi_free mem_info div 1024)) @ '','' @
        quoted ''memory_percent'' @ '':'' @ show2 mem_percent @ '','' @
        quoted ''cpu_percent'' @ '':'' @ show2 (cu_usage_percent (ci_overall_usage cpu_info)) @ '','' @
        quoted ''cpu_model'' @ '':'' @ quoted (cstr (ci_model cpu_info)) @ '','' @
        quoted ''logical_cores'' @ '':'' @ dec_int (ci_logical_processors cpu_info) @ '','' @
        quoted ''timestamp'' @ '':'' @ dec_int now @ ''}'')"

text \<open>One round of \<open>broadcast_loop\<close>, with the local address found before the loop.\<close>

definition broadcast_round ::
    "'d double_ops \<Rightarrow> ('d \<Rightarrow> string) \<Rightarrow> char list \<Rightarrow> proc_files \<Rightarrow> 'd cpu_core_usage_s list option \<Rightarrow> int
     \<Rightarrow> employee \<Rightarrow> employee option" where
  "broadcast_round D show2 ip p mem now s =
     (let mem_info = get_memory_info (pf_meminfo p);
          cpu_info = get_cpu_usage D (pf_stat p) mem (get_cpu_info D (pf_cpuinfo p));
          mem_percent = calculate_memory_usage_percent D mem_info;
          message = broadcast_message show2 (em_status s) ip mem_info mem_percent cpu_info now;
          s = (if d_gt D (RESOURCE_THRESHOLD D) mem_percent
               then s\<lparr>em_unix := (em_unix s)\<lparr>unix_os := Protocol.send_udp_broadcast message (unix_os (em_unix s))\<rparr>\<rparr>
               else s)
      in map_option (\<lambda>_. s) (free_cpu_usage cpu_info))"

definition broadcast_ip :: "(bool \<times> bool \<times> string) option list option \<Rightarrow> char list option" where
  "broadcast_ip ifaddr = get_local_ip ifaddr (zbuf 64 ''Unknown'') 64"

section \<open>Worker thread\<close>

record worker_input =
  wi_malloc :: bool
  wi_can_write :: "string \<Rightarrow> bool"

definition skip_blanks :: "string \<Rightarrow> string" where
  "skip_blanks = dropWhile (\<lambda>c. c \<in> {CHR '' '', CHR 0x09, CHR 0x0A, CHR 0x0D})"

definition zero_result :: result_info_t where
  "zero_result = \<lparr>ri_task_id = replicate 256 NUL, ri_result_filepath = replicate 256 NUL, ri_employer_ip = replicate 16 NUL\<rparr>"

text \<open>The response of the node script, \<open>text\<close>, of which \<open>bytes\<close> bytes came: a result file and an
  entry of the result queue, or a file for debugging.\<close>

definition handle_response ::
    "'j json_ops \<Rightarrow> worker_input \<Rightarrow> received_task_t \<Rightarrow> int \<Rightarrow> string \<Rightarrow> employee \<Rightarrow> employee option" where
  "handle_response J inp data_chunk bytes text s =
     (let trimmed_response = skip_blanks text in
      case j_parse J trimmed_response of
        Some response_json \<Rightarrow>
          (case j_string J response_json ''status'' of
             None \<Rightarrow> Some s
           | Some status \<Rightarrow>
               (let result_info = zero_result\<lparr>
                      ri_task_id := strncpy (ri_task_id zero_result) (rt_task_id data_chunk) 255,
                      ri_employer_ip := strncpy (ri_employer_ip zero_result) (rt_sender_id data_chunk) 15\<rparr>;
                    result_filename = take 511 (''/tmp/node_result_'' @ cstr (rt_task_id data_chunk) @ ''.json'')
                in if \<not> wi_can_write inp result_filename then Some s
                   else do {
                     let s = s\<lparr>em_files := (em_files s)(result_filename := Some trimmed_response)\<rparr>;
                         result_info = result_info\<lparr>ri_result_filepath := strncpy (ri_result_filepath result_info) result_filename 255\<rparr>
                     in map_option (\<lambda>(_, q). s\<lparr>em_results := q\<rparr>) (add_result_to_queue (em_results s) result_info)
                   }))
      | None \<Rightarrow>
          (let debug_filename = take 511 (''/tmp/debug_response_'' @ cstr (rt_task_id data_chunk) @ ''.txt'')
           in Some (if wi_can_write inp debug_filename
                    then s\<lparr>em_files := (em_files s)(debug_filename :=
                           Some (''Response size: '' @ dec_int bytes @ '' bytes'' @ [NL] @ ''Raw response:'' @ [NL] @ text))\<rparr>
                    else s)))"

text \<open>Reading the response: the JSON reader first, one plain receive when it gives nothing.\<close>

definition read_response :: "unix_sockets \<Rightarrow> (int \<times> string \<times> unix_sockets) option" where
  "read_response u = do {
     (bytes, got, u) \<leftarrow> receive_complete_json_response True (RESPONSE_SIZE - 1) u;
     if bytes \<le> 0 then do {
       (bytes, response, u) \<leftarrow> unix_socket_client_receive_message (Some (replicate RESPONSE_SIZE NUL)) (RESPONSE_SIZE - 1) u;
       Some (bytes, cstr (the response), u)
     }
     else Some (bytes, cstr got, u)
   }"

text \<open>A chunk that was taken from the buffer. After a failed send the chunk goes back into the buffer
  and its data is freed: the entry keeps the address of the freed block. The flag is the
  \<open>continue\<close> that skips the rest of the iteration.\<close>

definition work_on :: "'j json_ops \<Rightarrow> worker_input \<Rightarrow> received_task_t \<Rightarrow> employee \<Rightarrow> (bool \<times> employee) option" where
  "work_on J inp data_chunk s = do {
     message \<leftarrow> block_text (rt_data data_chunk);
     let (sent, u) = unix_socket_client_send_message message (em_unix s); s = s\<lparr>em_unix := u\<rparr>
     in if sent then
          (if \<not> wi_malloc inp then Some (True, s\<lparr>em_lost := em_lost s + 1\<rparr>)
           else do {
             (bytes, text, u) \<leftarrow> read_response (em_unix s);
             s \<leftarrow> (let s = s\<lparr>em_unix := u\<rparr> in
                    if bytes > 0 then handle_response J inp data_chunk bytes text s
                    else Some (s\<lparr>em_lost := em_lost s + 1\<rparr>));
             Some (False, s)
           })
        else do {
          (_, buf) \<leftarrow> add_task_to_buffer (em_buffer s)
             (if rt_data data_chunk = Null then data_chunk else data_chunk\<lparr>rt_data := Dangling\<rparr>);
          Some (False, s\<lparr>em_buffer := buf\<rparr>)
        }
   }"

definition worker_round :: "'j json_ops \<Rightarrow> worker_input \<Rightarrow> employee \<Rightarrow> employee option" where
  "worker_round J inp s = do {
     (again, s) \<leftarrow>
       (if em_node_started s \<and> em_unix_connected s then do {
          (r, data_chunk, buf) \<leftarrow> get_task_from_buffer (em_buffer s);
          let s = s\<lparr>em_buffer := buf\<rparr>
          in (case data_chunk of None \<Rightarrow> Some (False, s) | Some t \<Rightarrow> work_on J inp t s)
        }
        else Some (False, s));
     if again \<or> \<not> em_node_started s \<or> \<not> em_unix_connected s then Some s
     else do {
       (_, buf) \<leftarrow> is_task_buffer_empty (em_buffer s);
       Some (s\<lparr>em_buffer := buf\<rparr>)
     }
   }"

section \<open>The node process\<close>

text \<open>The parent's side of \<open>run_node_in_cgroup\<close>: \<open>pid\<close> is what \<open>fork\<close> returns; the name is read
  through the manager without a test.\<close>

definition run_node_in_cgroup ::
    "cg_kernel \<Rightarrow> (nat \<Rightarrow> int) option \<Rightarrow> int \<Rightarrow> volcom_rcsmngr_s option \<Rightarrow> cgfs \<Rightarrow> (int \<times> volcom_rcsmngr_s option \<times> cgfs) option" where
  "run_node_in_cgroup K pid_mem pid manager fs =
     (if pid < 0 then Some (-1, manager, fs)
      else do {
        m \<leftarrow> manager;
        (_, manager, fs) \<leftarrow> volcom_add_pid_to_cgroup K pid_mem (Some m) (Some (cg_name (rm_main_cgroup m))) pid fs;
        Some (0, manager, fs)
      })"

text \<open>The child's side: the environment, directory and arguments \<open>node\<close> is started with.\<close>

record process_image =
  pi_env :: "string \<Rightarrow> string option"
  pi_cwd :: string
  pi_args :: "string list"

definition node_home :: "(string \<Rightarrow> string option) \<Rightarrow> string" where
  "node_home env =
     (case env ''SUDO_USER'' of
        Some user \<Rightarrow> ''/home/'' @ user
      | None \<Rightarrow> (case env ''HOME'' of Some home_dir \<Rightarrow> home_dir | None \<Rightarrow> ''/home/dasun''))"

definition node_child :: "(string \<Rightarrow> string option) \<Rightarrow> string option \<Rightarrow> string \<Rightarrow> (string \<Rightarrow> bool) \<Rightarrow> string \<Rightarrow> process_image" where
  "node_child env original_cwd cwd can_enter script_path =
     (let script_path = (if take 1 script_path \<noteq> ''/'' then
                           (case original_cwd of Some d \<Rightarrow> take 1023 (d @ ''/'' @ script_path) | None \<Rightarrow> script_path)
                         else script_path);
          node_modules_path = take 511 (node_home env @ ''/node_global_modules/node_modules'');
          env' = env(''NODE_PATH'' := Some node_modules_path, ''NODE_MODULES_PATH'' := Some node_modules_path);
          env' = (case env' ''PATH'' of
                    Some current_path \<Rightarrow> if length current_path < 500
                      then env'(''PATH'' := Some (take 1023 (current_path @ '':'' @ node_modules_path @ ''/.bin''))) else env'
                  | None \<Rightarrow> env');
          work_dir = take 511 (node_home env @ ''/node_global_modules'')
      in \<lparr>pi_env = env', pi_cwd = (if can_enter work_dir then work_dir else cwd), pi_args = [''node'', script_path]\<rparr>)"

section \<open>Threads started for a configuration\<close>

definition save_file_thread :: "(string \<Rightarrow> bool) \<Rightarrow> file_save_args_t \<Rightarrow> employee \<Rightarrow> employee option" where
  "save_file_thread can_write args s =
     (let path = cstr (sa_filepath args) in
      case sa_data args of
        Live bs \<Rightarrow>
          if \<not> can_write path then Some s
          else if length bs < unat (sa_data_size args) then None
          else Some (s\<lparr>em_files := (em_files s)(path := Some (take (unat (sa_data_size args)) bs))\<rparr>)
      | Null \<Rightarrow> if can_write path \<and> sa_data_size args \<noteq> 0 then None
                else Some (if can_write path then s\<lparr>em_files := (em_files s)(path := Some [])\<rparr> else s)
      | Dangling \<Rightarrow> None)"

text \<open>The loop that connects to the node script, with at most \<open>retries\<close> attempts left.\<close>

fun connect_loop :: "nat \<Rightarrow> employee \<Rightarrow> employee" where
  "connect_loop 0 s = s"
| "connect_loop (Suc retries) s =
     (if em_unix_connected s \<or> \<not> em_running s then s
      else (case unix_socket_client_connect (em_unix s) of
              (ok, u) \<Rightarrow> if ok then s\<lparr>em_unix := u, em_unix_connected := True\<rparr>
                        else connect_loop retries (s\<lparr>em_unix := u\<rparr>)))"

definition start_node_thread ::
    "cg_kernel \<Rightarrow> (nat \<Rightarrow> int) option \<Rightarrow> int \<Rightarrow> employee \<Rightarrow> employee option" where
  "start_node_thread K pid_mem pid s = do {
     (r, m, fs) \<leftarrow> run_node_in_cgroup K pid_mem pid (em_manager s) (em_cgfs s);
     let s = s\<lparr>em_manager := m, em_cgfs := fs\<rparr> in
     if r \<noteq> 0 then Some s
     else
       (let s = s\<lparr>em_node_started := True\<rparr>;
            (ok, u) = unix_socket_client_init (Some client_socket_config) (em_unix s);
            s = s\<lparr>em_unix := u\<rparr>
        in if \<not> ok then Some s else Some (connect_loop 15 s))
   }"

section \<open>The connection with the employer\<close>

text \<open>The codes of \<open>protocol_status_t\<close>: the third enumerator follows -1.\<close>

definition status_code :: "protocol_status_t \<Rightarrow> int" where
  "status_code st = (case st of PROTOCOL_OK \<Rightarrow> 0 | PROTOCOL_ERR \<Rightarrow> -1 | PROTOCOL_CONN_CLOSED \<Rightarrow> 0)"

datatype select_result = Sel_failed | Sel_interrupted | Sel_timeout | Sel_readable

record conn_input =
  cni_select :: select_result
  cni_peek_mem :: bool
  cni_json_mem :: bool
  cni_data_mem :: bool
  cni_args_mem :: bool
  cni_can_write :: "string \<Rightarrow> bool"
  cni_now :: int

definition zero_task :: received_task_t where
  "zero_task = \<lparr>rt_task_id = replicate 256 NUL, rt_chunk_filename = replicate 256 NUL, rt_sender_id = replicate 64 NUL,
     rt_data = Null, rt_data_size = 0, rt_received_time = 0, rt_is_processed = False, rt_frame_no = 0\<rparr>"

definition conn_of :: "int \<Rightarrow> employee \<Rightarrow> conn" where
  "conn_of fd s = os_conn (unix_os (em_unix s)) fd"

definition set_conn :: "int \<Rightarrow> conn \<Rightarrow> employee \<Rightarrow> employee" where
  "set_conn fd c s =
     s\<lparr>em_unix := (em_unix s)\<lparr>unix_os := (unix_os (em_unix s))\<lparr>os_conn := (os_conn (unix_os (em_unix s)))(fd := c)\<rparr>\<rparr>\<rparr>"

text \<open>An initial configuration: the file is saved and the node started by two threads. The task
  id is copied into 128 bytes.\<close>

definition start_config :: "conn_input \<Rightarrow> received_task_t \<Rightarrow> employee \<Rightarrow> employee option" where
  "start_config inp config_task s =
     (let config_filepath = take 511 (''/tmp/config_'' @ cstr (rt_task_id config_task) @ ''.js'') in
      if \<not> cni_args_mem inp \<or> 128 \<le> length (cstr (rt_task_id config_task)) then None
      else Some (s\<lparr>em_threads := em_threads s @
             [Save_file \<lparr>sa_filepath = config_filepath, sa_data = rt_data config_task, sa_data_size = rt_data_size config_task\<rparr>,
              Start_node \<lparr>na_task_id = cstr (rt_task_id config_task), na_config_filepath = config_filepath\<rparr>]\<rparr>))"

text \<open>The first half of an iteration: what the employer sends. The flag is False for \<open>break\<close>.\<close>

definition employer_message :: "'j json_ops \<Rightarrow> conn_input \<Rightarrow> int \<Rightarrow> employee \<Rightarrow> (bool \<times> employee) option" where
  "employer_message J inp fd s =
     (case recv_json_peek J (cni_peek_mem inp) True (conn_of fd s) of
        (st, initial_check, c) \<Rightarrow>
          (let s = set_conn fd c s in
           if status_code st \<noteq> status_code PROTOCOL_OK then Some (False, s)
           else (case Option.bind initial_check (\<lambda>j. j_string J j ''message_type'') of
               None \<Rightarrow> Some (False, s)
             | Some msg_type \<Rightarrow>
                 if msg_type = ''initial_config'' then
                   (case receive_task_from_employer J (cni_json_mem inp) (cni_data_mem inp) (cni_can_write inp) (cni_now inp)
                           (Some zero_task) (em_files s) c of
                      (r, task, files, c) \<Rightarrow>
                        (let s = set_conn fd c (s\<lparr>em_files := files\<rparr>) in
                         if r = 0 then map_option (\<lambda>s. (True, s)) (start_config inp (the task) s)
                         else Some (True, s)))
                 else if msg_type = ''data_chunk'' then
                   (case receive_task_from_employer J (cni_json_mem inp) (cni_data_mem inp) (cni_can_write inp) (cni_now inp)
                           (Some zero_task) (em_files s) c of
                      (r, task, files, c) \<Rightarrow>
                        (let s = set_conn fd c (s\<lparr>em_files := files\<rparr>) in
                         if r = 0 then
                           map_option (\<lambda>(_, buf). (True, s\<lparr>em_buffer := buf\<rparr>)) (add_task_to_buffer (em_buffer s) (the task))
                         else Some (False, s\<lparr>em_lost := em_lost s + 1\<rparr>)))
                 else (case recv_json J (cni_json_mem inp) c of (_, _, c) \<Rightarrow> Some (True, set_conn fd c s)))))"

text \<open>The second half: one finished result is sent; one that cannot be sent goes back into the queue.\<close>

definition send_one_result :: "'j json_ops \<Rightarrow> int \<Rightarrow> employee \<Rightarrow> employee option" where
  "send_one_result J fd s = do {
     (empty, q) \<leftarrow> is_result_queue_empty (em_results s);
     let s = s\<lparr>em_results := q\<rparr> in
     if empty then Some s
     else do {
       (r, result, q) \<leftarrow> get_result_from_queue (em_results s);
       let s = s\<lparr>em_results := q\<rparr> in
       case result of
         None \<Rightarrow> Some s
       | Some res \<Rightarrow>
           (case send_result_to_employer J (em_files s) fd (Some res) (conn_of fd s) of
              (r, c) \<Rightarrow>
                (let s = set_conn fd c s in
                 if r = 0 then Some (s\<lparr>em_status := (em_status s)\<lparr>ag_tasks_completed := ag_tasks_completed (em_status s) + 1\<rparr>\<rparr>)
                 else do {
                   (_, q) \<leftarrow> add_result_to_queue (em_results s) res;
                   Some (s\<lparr>em_results := q, em_status := (em_status s)\<lparr>ag_tasks_failed := ag_tasks_failed (em_status s) + 1\<rparr>\<rparr>)
                 }))
     }
   }"

definition conn_round :: "'j json_ops \<Rightarrow> conn_input \<Rightarrow> int \<Rightarrow> employee \<Rightarrow> (bool \<times> employee) option" where
  "conn_round J inp fd s =
     (if cni_select inp = Sel_failed then Some (False, s)
      else do {
        (goes_on, s) \<leftarrow> (if cni_select inp = Sel_readable then employer_message J inp fd s else Some (True, s));
        if \<not> goes_on then Some (False, s)
        else do { s \<leftarrow> send_one_result J fd s; Some (True, s) }
      })"

section \<open>All threads together\<close>

text \<open>What happens next: the schedule of a run. \<open>Ev_conn\<close> is an iteration of
  \<open>handle_persistent_connection\<close>, \<open>Ev_thread n\<close> runs the \<open>n\<close>-th detached thread.\<close>

record ('j, 'd) emp_env =
  ev_json :: "'j json_ops"
  ev_double :: "'d double_ops"
  ev_show2 :: "'d \<Rightarrow> string"
  ev_kernel :: cg_kernel
  ev_ip :: "char list"

datatype 'd emp_event =
    Ev_conn conn_input
  | Ev_worker worker_input
  | Ev_thread nat "string \<Rightarrow> bool" "(nat \<Rightarrow> int) option" int
  | Ev_broadcast proc_files "'d cpu_core_usage_s list option" int
  | Ev_signal

text \<open>While the connection \<open>fd\<close> is served; the flag says that its loop goes on.\<close>

definition emp_event :: "('j, 'd) emp_env \<Rightarrow> int \<Rightarrow> 'd emp_event \<Rightarrow> employee \<Rightarrow> (bool \<times> employee) option" where
  "emp_event E fd ev s =
     (case ev of
        Ev_conn inp \<Rightarrow> conn_round (ev_json E) inp fd s
      | Ev_worker inp \<Rightarrow> map_option (\<lambda>s. (True, s)) (worker_round (ev_json E) inp s)
      | Ev_thread n can_write pid_mem pid \<Rightarrow>
          (if length (em_threads s) \<le> n then Some (True, s)
           else
             (let s' = s\<lparr>em_threads := take n (em_threads s) @ drop (Suc n) (em_threads s)\<rparr>
              in map_option (\<lambda>s. (True, s))
                   (case em_threads s ! n of
                      Save_file args \<Rightarrow> save_file_thread can_write args s'
                    | Start_node args \<Rightarrow> start_node_thread (ev_kernel E) pid_mem pid s')))
      | Ev_broadcast p mem now \<Rightarrow>
          map_option (\<lambda>s. (True, s)) (broadcast_round (ev_double E) (ev_show2 E) (ev_ip E) p mem now s)
      | Ev_signal \<Rightarrow> Some (True, s\<lparr>em_running := False\<rparr>))"

text \<open>\<open>handle_persistent_connection\<close>: a run of the events ends with a \<open>break\<close>, with the signal, or
  with the last event (the signal comes then); the descriptor is closed.\<close>

fun connection_loop :: "('j, 'd) emp_env \<Rightarrow> int \<Rightarrow> 'd emp_event list \<Rightarrow> employee \<Rightarrow> employee option" where
  "connection_loop E fd [] s = Some (s\<lparr>em_running := False\<rparr>)"
| "connection_loop E fd (ev # evs) s =
     (if \<not> em_running s then Some s
      else do {
        (goes_on, s) \<leftarrow> emp_event E fd ev s;
        if goes_on then connection_loop E fd evs s else Some s
      })"

definition close_fd :: "int \<Rightarrow> employee \<Rightarrow> employee" where
  "close_fd fd s = s\<lparr>em_unix := (em_unix s)\<lparr>unix_os := sys_close fd (unix_os (em_unix s))\<rparr>\<rparr>"

definition handle_persistent_connection ::
    "('j, 'd) emp_env \<Rightarrow> int \<Rightarrow> 'd emp_event list \<Rightarrow> employee \<Rightarrow> employee option" where
  "handle_persistent_connection E fd evs s = do {
     s \<leftarrow> connection_loop E fd evs (s\<lparr>em_node_started := False\<rparr>);
     Some (close_fd fd s)
   }"

section \<open>Employee mode\<close>

text \<open>What \<open>run_employee_mode\<close> sets up, up to the listening socket: the return value of an early exit,
  or the descriptor. \<open>buf_mem\<close>, \<open>res_mem\<close>: the blocks of the buffer and the queue; \<open>threads_ok\<close>:
  whether the two \<open>pthread_create\<close> succeed.\<close>

record startup =
  su_buf_mem :: "received_task_t list ptr"
  su_res_mem :: "result_info_t list ptr"
  su_cgroup_v2 :: bool
  su_pids :: "(nat \<Rightarrow> int) option"
  su_children :: "(nat \<Rightarrow> cgroup_info_s) option"
  su_strdup :: bool
  su_threads :: "bool \<times> bool"

definition employee_config :: config_s where
  "employee_config = \<lparr>cf_mem_config = \<lparr>mc_allocated_memory_size_max = 1024 * 1024 * 1024,
       mc_allocated_memory_size_high = 800 * 1024 * 1024, mc_allocated_swap_memory_size_max = 0,
       mc_allocated_swap_memory_size_high = 0, mc_memory_oom_protection = 0\<rparr>,
     cf_cpu_config = \<lparr>cc_allocated_logical_processors = 2, cc_allocated_cpu_share = 80\<rparr>\<rparr>"

text \<open>\<open>cleanup_task_buffer(&data_chunk_buffer)\<close>.\<close>

definition drop_buffer :: "employee \<Rightarrow> employee option" where
  "drop_buffer s = do { b \<leftarrow> cleanup_task_buffer (Some (em_buffer s)); b \<leftarrow> b; Some (s\<lparr>em_buffer := b\<rparr>) }"

definition employee_startup ::
    "cg_kernel \<Rightarrow> startup \<Rightarrow> employer \<Rightarrow> employee \<Rightarrow> (int \<times> int \<times> employee) option" where
  "employee_startup K su ep s =
     (case init_agent AGENT_MODE_EMPLOYEE ep of (r, ep) \<Rightarrow>
      if r \<noteq> 0 then Some (-1, -1, s)
      else (case init_task_buffer (Some (em_buffer s)) 50 (su_buf_mem su) of (r, buf) \<Rightarrow>
      let s = s\<lparr>em_buffer := the buf\<rparr> in
      if r \<noteq> 0 then Some (-1, -1, s)
      else (case init_result_queue (Some (em_results s)) 10 (su_res_mem su) of (r, q) \<Rightarrow>
      let s = s\<lparr>em_results := the q\<rparr> in
      if r \<noteq> 0 then do { s \<leftarrow> drop_buffer s; Some (-1, -1, s) }
      else do {
        (r, m) \<leftarrow> volcom_rcsmngr_init (su_cgroup_v2 su) (su_pids su) (su_children su) (em_manager s) (Some ''volcom'');
        let s = s\<lparr>em_manager := m\<rparr> in
        if r \<noteq> 0 then Some (1, -1, s)
        else do {
          (r, m, fs) \<leftarrow> volcom_create_main_cgroup K (su_strdup su) (em_manager s) employee_config (em_cgfs s);
          let s = s\<lparr>em_manager := m, em_cgfs := fs\<rparr> in
          if r \<noteq> 0 then do { m \<leftarrow> volcom_rcsmngr_cleanup (em_manager s); Some (1, -1, s\<lparr>em_manager := m\<rparr>) }
          else
            (let s = s\<lparr>em_running := True, em_status := (get_agent_status ep)\<lparr>ag_is_active := True\<rparr>\<rparr> in
             if \<not> fst (su_threads su) then do { s \<leftarrow> drop_buffer (s\<lparr>em_running := False\<rparr>); Some (-1, -1, s) }
             else if \<not> snd (su_threads su) then do { s \<leftarrow> drop_buffer (s\<lparr>em_running := False\<rparr>); Some (-1, -1, s) }
             else (case start_tcp_server EMPLOYEE_PORT (unix_os (em_unix s)) of (server_fd, w) \<Rightarrow>
               let s = s\<lparr>em_unix := (em_unix s)\<lparr>unix_os := w\<rparr>\<rparr> in
               if server_fd < 0 then do { s \<leftarrow> drop_buffer (s\<lparr>em_running := False\<rparr>); Some (-1, -1, s) }
               else Some (0, server_fd, s)))
        }
      })))"

text \<open>One iteration of the accept loop: \<open>meminfo\<close> decides whether the employer is served.\<close>

definition accept_round ::
    "('j, 'd) emp_env \<Rightarrow> string option \<Rightarrow> 'd emp_event list \<Rightarrow> employee \<Rightarrow> employee option" where
  "accept_round E meminfo evs s =
     (case sys_open (unix_os (em_unix s)) of (employer_fd, w) \<Rightarrow>
      let s = s\<lparr>em_unix := (em_unix s)\<lparr>unix_os := w\<rparr>\<rparr> in
      if employer_fd < 0 then Some s
      else if d_gt (ev_double E) (RESOURCE_THRESHOLD (ev_double E)) (get_current_memory_percent (ev_double E) meminfo)
      then handle_persistent_connection E employer_fd evs s
      else (let w = snd (sys_send employer_fd ''REJECT:HIGH_RESOURCE_USAGE'' (unix_os (em_unix s)))
            in Some (close_fd employer_fd (s\<lparr>em_unix := (em_unix s)\<lparr>unix_os := w\<rparr>\<rparr>))))"

text \<open>The loop: before each connection the other threads run for a while.\<close>

fun background :: "('j, 'd) emp_env \<Rightarrow> 'd emp_event list \<Rightarrow> employee \<Rightarrow> employee option" where
  "background E [] s = Some s"
| "background E (ev # evs) s =
     (case ev of
        Ev_conn _ \<Rightarrow> background E evs s
      | _ \<Rightarrow> do { (_, s) \<leftarrow> emp_event E (-1) ev s; background E evs s })"

fun accept_loop ::
    "('j, 'd) emp_env \<Rightarrow> ('d emp_event list \<times> string option \<times> 'd emp_event list) list \<Rightarrow> employee \<Rightarrow> employee option" where
  "accept_loop E [] s = Some (s\<lparr>em_running := False\<rparr>)"
| "accept_loop E ((before, meminfo, evs) # rest) s =
     (if \<not> em_running s then Some s
      else do { s \<leftarrow> background E before s; s \<leftarrow> accept_round E meminfo evs s; accept_loop E rest s })"

definition employee_shutdown :: "int \<Rightarrow> employee \<Rightarrow> employee option" where
  "employee_shutdown server_fd s = do {
     let s = close_fd server_fd s;
         s = (if em_unix_connected s
              then s\<lparr>em_unix := unix_socket_client_cleanup (em_unix s), em_unix_connected := False\<rparr> else s)
     in do {
       s \<leftarrow> drop_buffer s;
       q \<leftarrow> cleanup_result_queue (Some (em_results s));
       q \<leftarrow> q;
       Some (s\<lparr>em_results := q\<rparr>)
     }
   }"

definition run_employee_mode ::
    "('j, 'd) emp_env \<Rightarrow> startup \<Rightarrow> ('d emp_event list \<times> string option \<times> 'd emp_event list) list \<Rightarrow> employer \<Rightarrow> employee \<Rightarrow> (int \<times> employee) option" where
  "run_employee_mode E su conns ep s = do {
     (r, server_fd, s) \<leftarrow> employee_startup (ev_kernel E) su ep s;
     if server_fd < 0 then Some (r, s)
     else do {
       s \<leftarrow> accept_loop E conns s;
       s \<leftarrow> employee_shutdown server_fd s;
       Some (0, s)
     }
   }"

definition run_hybrid_mode :: int where
  "run_hybrid_mode = -1"

end
