(* ===== verification/Rcsmngr_Proofs.thy ===== *)
theory Rcsmngr_Proofs
  imports Volcom_Rcsmngr
begin

text \<open>
  The resource manager keeps its arrays within their bounds and behaves, for every sequence of
  operations the file system goes along with, as a table from group names to lists of processes.
  Then what goes wrong when the kernel does not remove a directory, and with long names.
\<close>

section \<open>Invariant and view\<close>

definition cg_ok :: "cgroup_info_s \<Rightarrow> bool" where
  "cg_ok g \<longleftrightarrow> (\<exists>cs. cg_pids g = Live cs \<and> length cs = cg_pid_capacity g \<and>
     cg_pid_count g \<le> cg_pid_capacity g \<and> 0 < cg_pid_capacity g)"

definition rm_ok :: "volcom_rcsmngr_s \<Rightarrow> bool" where
  "rm_ok m \<longleftrightarrow> rm_is_initialized m \<and> cg_ok (rm_main_cgroup m) \<and>
     (\<exists>cs. rm_child_cgroups m = Live cs \<and> length cs = rm_child_capacity m \<and>
       rm_child_count m \<le> rm_child_capacity m \<and> 0 < rm_child_capacity m \<and>
       (\<forall>c \<in> set (take (rm_child_count m) cs). cg_ok c \<and> cg_is_created c))"

definition live_part :: "'a list ptr \<Rightarrow> nat \<Rightarrow> 'a list" where
  "live_part p n = (case p of Live cs \<Rightarrow> take n cs | _ \<Rightarrow> [])"

abbreviation children_of :: "volcom_rcsmngr_s \<Rightarrow> cgroup_info_s list" where
  "children_of m \<equiv> live_part (rm_child_cgroups m) (rm_child_count m)"

abbreviation pids_of :: "cgroup_info_s \<Rightarrow> int list" where
  "pids_of g \<equiv> live_part (cg_pids g) (cg_pid_count g)"

definition all_groups :: "volcom_rcsmngr_s \<Rightarrow> cgroup_info_s list" where
  "all_groups m = rm_main_cgroup m # children_of m"

text \<open>The table: names and members, the main group first.\<close>

definition group_of :: "cgroup_info_s \<Rightarrow> string \<times> int list" where
  "group_of g = (cstr (cg_name g), pids_of g)"

definition groups :: "volcom_rcsmngr_s \<Rightarrow> (string \<times> int list) list" where
  "groups m = map group_of (all_groups m)"

text \<open>A target as a position of \<open>all_groups\<close>.\<close>

fun target_at :: "nat \<Rightarrow> cg_target" where
  "target_at 0 = Main_cgroup"
| "target_at (Suc i) = Child_cgroup i"

lemma rm_okE:
  assumes "rm_ok m"
  obtains cs where "rm_child_cgroups m = Live cs" "length cs = rm_child_capacity m"
    "rm_child_count m \<le> rm_child_capacity m" "0 < rm_child_capacity m"
    "children_of m = take (rm_child_count m) cs"
    "\<forall>c \<in> set (children_of m). cg_ok c \<and> cg_is_created c"
  using assms unfolding rm_ok_def live_part_def by auto

lemma length_children: "rm_ok m \<Longrightarrow> length (children_of m) = rm_child_count m"
  by (erule rm_okE) simp

lemma read_children: "rm_ok m \<Longrightarrow> read_cells (rm_child_cgroups m) (rm_child_count m) = Some (children_of m)"
  by (erule rm_okE) (simp add: read_cells_def)

lemma read_pids: "cg_ok g \<Longrightarrow> read_cells (cg_pids g) (cg_pid_count g) = Some (pids_of g)"
  by (auto simp: cg_ok_def read_cells_def live_part_def)

lemma length_pids: "cg_ok g \<Longrightarrow> length (pids_of g) = cg_pid_count g"
  by (auto simp: cg_ok_def live_part_def)

lemma all_groups_ok: "rm_ok m \<Longrightarrow> g \<in> set (all_groups m) \<Longrightarrow> cg_ok g"
  by (auto simp: all_groups_def rm_ok_def live_part_def)

lemma target_found:
  "rm_ok m \<Longrightarrow> target_cgroup m name = Some (map_option target_at (find_index (\<lambda>g. str_eq name (cg_name g)) (all_groups m)))"
  by (simp add: target_cgroup_def read_children all_groups_def option.map_comp comp_def)

lemma get_target:
  assumes "rm_ok m" and "k < length (all_groups m)"
  shows "get_cgroup m (target_at k) = Some (all_groups m ! k)"
  using assms by (cases k) (auto elim!: rm_okE simp: get_cgroup_def all_groups_def cell_get_def)

lemma set_target:
  assumes "rm_ok m" and "k < length (all_groups m)" and "cg_ok g" and "k = 0 \<or> cg_is_created g"
  obtains m' where "set_cgroup m (target_at k) g = Some m'" "rm_ok m'" "all_groups m' = (all_groups m)[k := g]"
    "rm_child_count m' = rm_child_count m"
proof (cases k)
  case 0
  have "set_cgroup m (target_at k) g = Some (m\<lparr>rm_main_cgroup := g\<rparr>)" by (simp add: set_cgroup_def 0)
  moreover have "rm_ok (m\<lparr>rm_main_cgroup := g\<rparr>)" using assms(1,3) by (auto simp: rm_ok_def)
  moreover have "all_groups (m\<lparr>rm_main_cgroup := g\<rparr>) = (all_groups m)[k := g]" by (simp add: all_groups_def 0)
  ultimately show ?thesis using that by simp
next
  case (Suc i)
  obtain cs where cs: "rm_child_cgroups m = Live cs" "length cs = rm_child_capacity m"
    "rm_child_count m \<le> rm_child_capacity m" "0 < rm_child_capacity m"
    "children_of m = take (rm_child_count m) cs" "\<forall>c \<in> set (children_of m). cg_ok c \<and> cg_is_created c"
    using assms(1) by (rule rm_okE)
  have i: "i < rm_child_count m" using assms(1,2) Suc by (simp add: all_groups_def length_children)
  let ?m = "m\<lparr>rm_child_cgroups := Live (cs[i := g])\<rparr>"
  have "set_cgroup m (target_at k) g = Some ?m"
    using cs i by (simp add: set_cgroup_def Suc cell_set_def)
  moreover have ch: "children_of ?m = (children_of m)[i := g]"
    using cs i by (simp add: live_part_def take_update_inside)
  moreover have "\<forall>c \<in> set ((children_of m)[i := g]). cg_ok c \<and> cg_is_created c"
    using cs(6) assms(3,4) Suc set_update_subset_insert [of "children_of m" i g] by blast
  then have "rm_ok ?m"
    using assms(1) cs i ch by (auto simp: rm_ok_def live_part_def)
  moreover have "all_groups ?m = (all_groups m)[k := g]" using ch by (simp add: all_groups_def Suc)
  ultimately show ?thesis using that by simp
qed

section \<open>The arrays grow\<close>

lemma grow_pids_ok:
  assumes "cg_ok g"
  obtains g' where "grow_pids (Some j) g = Some g'" "cg_ok g'" "cg_pid_count g' < cg_pid_capacity g'"
    "pids_of g' = pids_of g" "cg_name g' = cg_name g" "cg_path g' = cg_path g" "cg_is_created g' = cg_is_created g"
    "cg_pid_count g' = cg_pid_count g"
proof (cases "cg_pid_count g \<ge> cg_pid_capacity g")
  case False
  with assms show ?thesis by (intro that [of g]) (auto simp: grow_pids_def)
next
  case True
  from assms obtain cs where cs: "cg_pids g = Live cs" "length cs = cg_pid_capacity g"
    "cg_pid_count g \<le> cg_pid_capacity g" "0 < cg_pid_capacity g" by (auto simp: cg_ok_def)
  let ?n = "cg_pid_capacity g * 2"
  have e: "grow_pids (Some j) g = Some (g\<lparr>cg_pid_capacity := ?n, cg_pids := Live (take ?n (cs @ map j [length cs..<?n]))\<rparr>)"
    using True cs by (simp add: grow_pids_def realloc_cells_def)
  show ?thesis by (rule that [OF e]) (use cs in \<open>auto simp: cg_ok_def live_part_def\<close>)
qed

lemma add_pid_cell:
  assumes "cg_ok g" and "cg_pid_count g < cg_pid_capacity g"
  obtains cells where "cell_set (cg_pids g) (int (cg_pid_count g)) p = Some cells"
    "cg_ok (g\<lparr>cg_pids := cells, cg_pid_count := Suc (cg_pid_count g)\<rparr>)"
    "live_part cells (Suc (cg_pid_count g)) = pids_of g @ [p]"
proof -
  from assms obtain cs where cs: "cg_pids g = Live cs" "length cs = cg_pid_capacity g" by (auto simp: cg_ok_def)
  show ?thesis
    by (rule that [of "Live (cs[cg_pid_count g := p])"])
      (use cs assms(2) in \<open>auto simp: cell_set_def cg_ok_def live_part_def take_Suc_update_end\<close>)
qed

lemma remove_pid_cells:
  assumes "cg_ok g" and "i < cg_pid_count g" and "cg_pids g = Live cs"
  shows "cg_ok (g\<lparr>cg_pids := Live (shift_left i (cg_pid_count g) cs), cg_pid_count := cg_pid_count g - 1\<rparr>)"
    and "live_part (Live (shift_left i (cg_pid_count g) cs)) (cg_pid_count g - 1) = take i (pids_of g) @ drop (Suc i) (pids_of g)"
  using assms by (auto simp: cg_ok_def live_part_def take_shift_left)

lemma remove1_index:
  "find_index (\<lambda>q. q = p) ps = Some i \<Longrightarrow> take i ps @ drop (Suc i) ps = remove1 p ps"
proof (induction ps arbitrary: i)
  case Nil
  then show ?case by simp
next
  case (Cons q ps)
  then show ?case by (cases i) (auto split: if_splits)
qed

lemma grow_children_ok:
  assumes "rm_ok m"
  obtains m' where "grow_children (Some j) m = Some m'" "rm_ok m'" "rm_child_count m' < rm_child_capacity m'"
    "all_groups m' = all_groups m" "rm_main_cgroup m' = rm_main_cgroup m" "rm_child_count m' = rm_child_count m"
proof (cases "rm_child_count m \<ge> rm_child_capacity m")
  case False
  with assms show ?thesis by (intro that [of m]) (auto simp: grow_children_def)
next
  case True
  obtain cs where cs: "rm_child_cgroups m = Live cs" "length cs = rm_child_capacity m"
    "rm_child_count m \<le> rm_child_capacity m" "0 < rm_child_capacity m"
    "children_of m = take (rm_child_count m) cs" "\<forall>c \<in> set (children_of m). cg_ok c \<and> cg_is_created c"
    using assms by (rule rm_okE)
  let ?n = "rm_child_capacity m * 2"
  let ?cs = "take ?n (cs @ map j [length cs..<?n])"
  have e: "grow_children (Some j) m = Some (m\<lparr>rm_child_capacity := ?n, rm_child_cgroups := Live ?cs\<rparr>)"
    using True cs by (simp add: grow_children_def realloc_cells_def)
  have l: "take (rm_child_count m) ?cs = take (rm_child_count m) cs" using cs by simp
  have "\<forall>c \<in> set (take (rm_child_count m) ?cs). cg_ok c \<and> cg_is_created c"
    using cs(5,6) unfolding l by simp
  with assms cs have "rm_ok (m\<lparr>rm_child_capacity := ?n, rm_child_cgroups := Live ?cs\<rparr>)"
    unfolding rm_ok_def by simp
  with e cs True show ?thesis
    by (intro that [OF e]) (simp_all add: all_groups_def live_part_def)
qed

section \<open>The table of groups\<close>

text \<open>What the operations mean: \<open>Join\<close> puts a process into a group, \<open>Leave\<close> takes it out, \<open>Create\<close> and
  \<open>Delete\<close> work on the children. The number is the return value.\<close>

datatype group_op = Join string int | Leave string int | Create string | Delete string

definition on_group :: "string \<Rightarrow> (int list \<Rightarrow> int list) \<Rightarrow> (string \<times> int list) list \<Rightarrow> (string \<times> int list) list" where
  "on_group n f gs = map (\<lambda>(x, ps). (x, if x = n then f ps else ps)) gs"

fun group_step :: "group_op \<Rightarrow> (string \<times> int list) list \<Rightarrow> int \<times> (string \<times> int list) list" where
  "group_step (Join n p) gs = (if 0 < p \<and> n \<in> fst ` set gs then (0, on_group n (\<lambda>ps. ps @ [p]) gs) else (-1, gs))"
| "group_step (Leave n p) gs =
     (if 0 < p \<and> list_ex (\<lambda>(x, ps). x = n \<and> p \<in> set ps) gs then (0, on_group n (remove1 p) gs) else (-1, gs))"
| "group_step (Create n) gs = (0, gs @ [(n, [])])"
| "group_step (Delete n) gs =
     (if n \<in> fst ` set (tl gs) then (0, hd gs # filter (\<lambda>e. fst e \<noteq> n) (tl gs)) else (-1, gs))"

text \<open>The names the manager can keep apart: shorter than its arrays, and new when created.\<close>

definition op_ok :: "group_op \<Rightarrow> (string \<times> int list) list \<Rightarrow> bool" where
  "op_ok op gs \<longleftrightarrow> (case op of
     Join n _ \<Rightarrow> NUL \<notin> set n
   | Leave n _ \<Rightarrow> NUL \<notin> set n
   | Create n \<Rightarrow> NUL \<notin> set n \<and> length n < MAX_NAME_LEN \<and> n \<notin> fst ` set gs
   | Delete n \<Rightarrow> NUL \<notin> set n)"

fun group_run :: "group_op list \<Rightarrow> (string \<times> int list) list \<Rightarrow> int list \<times> (string \<times> int list) list" where
  "group_run [] gs = ([], gs)"
| "group_run (op # ops) gs =
     (let (r, gs) = group_step op gs; (rs, gs) = group_run ops gs in (r # rs, gs))"

fun ops_ok :: "group_op list \<Rightarrow> (string \<times> int list) list \<Rightarrow> bool" where
  "ops_ok [] gs \<longleftrightarrow> True"
| "ops_ok (op # ops) gs \<longleftrightarrow> op_ok op gs \<and> ops_ok ops (snd (group_step op gs))"

text \<open>The same operations on the manager.\<close>

definition manager_step ::
    "cg_kernel \<Rightarrow> (nat \<Rightarrow> cgroup_info_s) option \<Rightarrow> (nat \<Rightarrow> int) option \<Rightarrow> config_s \<Rightarrow> group_op
     \<Rightarrow> volcom_rcsmngr_s option \<Rightarrow> cgfs \<Rightarrow> (int \<times> volcom_rcsmngr_s option \<times> cgfs) option" where
  "manager_step K child_mem pid_mem config op m fs =
     (case op of
        Join n p \<Rightarrow> volcom_add_pid_to_cgroup K pid_mem m (Some n) p fs
      | Leave n p \<Rightarrow> map_option (\<lambda>(r, m). (r, m, fs)) (volcom_remove_pid_from_cgroup m (Some n) p)
      | Create n \<Rightarrow> volcom_create_child_cgroup K child_mem pid_mem m (Some n) config fs
      | Delete n \<Rightarrow> volcom_delete_child_cgroup K m (Some n) fs)"

text \<open>A kernel that takes every call; whether it accepts what is written is left open.\<close>

definition obliging :: "cg_kernel \<Rightarrow> bool" where
  "obliging K \<longleftrightarrow> (\<forall>fs p. k_mkdir K fs p \<and> k_rmdir K fs p \<and> k_fopen K fs p \<and> k_fprintf K fs p)"

definition child_path :: "volcom_rcsmngr_s \<Rightarrow> string \<Rightarrow> string" where
  "child_path m n = cstr (cg_path (rm_main_cgroup m)) @ ''/'' @ n"

definition sys_ok :: "volcom_rcsmngr_s \<Rightarrow> cgfs \<Rightarrow> bool" where
  "sys_ok m fs \<longleftrightarrow> rm_ok m \<and> cg_is_created (rm_main_cgroup m) \<and> distinct (map fst (groups m)) \<and>
     length (cstr (cg_path (rm_main_cgroup m))) + MAX_NAME_LEN < MAX_PATH_LEN \<and>
     cstr (cg_path (rm_main_cgroup m)) \<in> set (fs_dirs fs) \<and>
     (\<forall>c \<in> set (children_of m). cstr (cg_path c) = child_path m (cstr (cg_name c)) \<and>
        cstr (cg_path c) \<in> set (fs_dirs fs))"

lemma sys_ok_child:
  assumes "sys_ok m fs" and "c \<in> set (children_of m)"
  shows "cstr (cg_path c) = child_path m (cstr (cg_name c))" and "cstr (cg_path c) \<in> set (fs_dirs fs)"
  using assms unfolding sys_ok_def by blast+

lemma on_group_update:
  "distinct (map fst gs) \<Longrightarrow> k < length gs \<Longrightarrow> fst (gs ! k) = n \<Longrightarrow> gs[k := (n, f (snd (gs ! k)))] = on_group n f gs"
proof (induction gs arbitrary: k)
  case Nil
  then show ?case by simp
next
  case (Cons e gs)
  show ?case
  proof (cases k)
    case 0
    have "map (\<lambda>(x, ps). (x, if x = n then f ps else ps)) gs = gs"
      using Cons.prems 0 by (intro map_idI) (force simp: image_iff)
    with Cons.prems 0 show ?thesis by (cases e) (simp add: on_group_def)
  next
    case (Suc i)
    with Cons.prems have "gs ! i \<in> set gs" "fst (gs ! i) = n" by simp_all
    with Cons.prems(1) have "fst e \<noteq> n" by (metis distinct.simps(2) image_eqI list.simps(9) set_map)
    with Cons Suc show ?thesis by (cases e) (simp add: on_group_def)
  qed
qed

lemma on_group_names [simp]: "map fst (on_group n f gs) = map fst gs"
  by (induction gs) (auto simp: on_group_def)

lemma groups_nth: "k < length (all_groups m) \<Longrightarrow> groups m ! k = group_of (all_groups m ! k)"
  and length_groups: "length (groups m) = length (all_groups m)"
  by (simp_all add: groups_def)

lemma group_of_simps [simp]: "fst (group_of g) = cstr (cg_name g)" "snd (group_of g) = pids_of g"
  by (simp_all add: group_of_def)

lemma group_names: "fst ` set (groups m) = (\<lambda>g. cstr (cg_name g)) ` set (all_groups m)"
  by (simp add: groups_def image_image)

text \<open>Looking a name up.\<close>

lemma find_group:
  assumes "NUL \<notin> set n"
  shows "find_index (\<lambda>g. str_eq n (cg_name g)) gs = None \<longleftrightarrow> n \<notin> (\<lambda>g. cstr (cg_name g)) ` set gs"
    and "find_index (\<lambda>g. str_eq n (cg_name g)) gs = Some k \<Longrightarrow> k < length gs \<and> cstr (cg_name (gs ! k)) = n"
  using find_index_None [of "\<lambda>g. str_eq n (cg_name g)" gs] find_index_SomeD [of "\<lambda>g. str_eq n (cg_name g)" gs k]
    cstr_id [OF assms] by (auto simp: str_eq_def)

text \<open>A file is written without the program noticing whether the kernel took it.\<close>

lemma write_obliging:
  assumes "obliging K"
  obtains fs' where "write_file K p c fs = (File_closed, fs')" "fs_dirs fs' = fs_dirs fs"
  using assms by (cases "k_flush K fs p") (auto simp: write_file_def obliging_def)

lemma set_memory_obliging:
  assumes "obliging K"
  obtains fs' where "volcom_set_memory_limit K p l fs = (0, fs')" "fs_dirs fs' = fs_dirs fs"
  by (rule write_obliging [OF assms, of "file_in p ''memory.max''" "dec_nat (unat l) @ [NL]" fs])
    (auto simp: volcom_set_memory_limit_def)

lemma set_cpu_obliging:
  assumes "obliging K" and "n * 100000 < 2 ^ 31"
  obtains fs' where "volcom_set_cpu_limit K p s n fs = Some (0, fs')" "fs_dirs fs' = fs_dirs fs"
proof -
  obtain fs1 where 1: "write_file K (file_in p ''cpu.weight'') (dec_int s @ [NL]) fs = (File_closed, fs1)"
    "fs_dirs fs1 = fs_dirs fs" by (rule write_obliging [OF assms(1)])
  let ?c = "if n > 0 then dec_int (n * 100000) @ '' 100000'' @ [NL] else ''max 100000'' @ [NL]"
  obtain fs2 where 2: "write_file K (file_in p ''cpu.max'') ?c fs1 = (File_closed, fs2)"
    "fs_dirs fs2 = fs_dirs fs1" by (rule write_obliging [OF assms(1)])
  have "volcom_set_cpu_limit K p s n fs = Some (0, fs2)"
    using 1 2 assms(2) by (simp add: volcom_set_cpu_limit_def Let_def)
  with 1 2 that show ?thesis by simp
qed

section \<open>Simulation\<close>

lemma main_of_all: "rm_main_cgroup m = all_groups m ! 0" and children_of_all: "children_of m = tl (all_groups m)"
  by (simp_all add: all_groups_def)

lemma groups_update: "all_groups m' = (all_groups m)[k := g] \<Longrightarrow> groups m' = (groups m)[k := group_of g]"
  by (simp add: groups_def map_update)

lemma sys_ok_update:
  assumes "sys_ok m fs" and "rm_ok m'" and "all_groups m' = (all_groups m)[k := g]" and "k < length (all_groups m)"
    and "cg_name g = cg_name (all_groups m ! k)" and "cg_path g = cg_path (all_groups m ! k)"
    and "cg_is_created g = cg_is_created (all_groups m ! k)" and "fs_dirs fs' = fs_dirs fs"
  shows "sys_ok m' fs'"
proof -
  have "map fst (groups m') = map fst (groups m)"
    using assms(3-5) by (simp add: groups_def comp_def map_update list_update_same_conv)
  moreover have "cg_path (rm_main_cgroup m') = cg_path (rm_main_cgroup m)"
    "cg_is_created (rm_main_cgroup m') = cg_is_created (rm_main_cgroup m)"
    unfolding main_of_all using assms(3-7) by (cases k; simp add: all_groups_def)+
  moreover have "map (\<lambda>c. (cg_name c, cg_path c)) (children_of m') = map (\<lambda>c. (cg_name c, cg_path c)) (children_of m)"
    unfolding children_of_all using assms(3-6)
    by (cases k) (auto simp: all_groups_def map_update list_update_same_conv)
  then have "(\<lambda>c. (cg_name c, cg_path c)) ` set (children_of m') = (\<lambda>c. (cg_name c, cg_path c)) ` set (children_of m)"
    by (metis set_map)
  then have "\<forall>c \<in> set (children_of m'). \<exists>c' \<in> set (children_of m). cg_name c = cg_name c' \<and> cg_path c = cg_path c'"
    by (auto simp: image_iff set_eq_iff)
  ultimately show ?thesis
    using assms(1,2,8) unfolding sys_ok_def child_path_def by metis
qed

lemma all_created:
  assumes "sys_ok m fs" and "k < length (all_groups m)"
  shows "cg_is_created (all_groups m ! k)"
proof -
  have "\<forall>c \<in> set (children_of m). cg_is_created c" using assms(1) by (auto simp: sys_ok_def elim: rm_okE)
  with assms(1) have "\<forall>g \<in> set (all_groups m). cg_is_created g" by (simp add: sys_ok_def all_groups_def)
  with assms(2) show ?thesis using nth_mem by blast
qed

lemma join_sim:
  assumes "sys_ok m fs" and "obliging K" and "NUL \<notin> set n"
  shows "\<exists>r m' fs'. volcom_add_pid_to_cgroup K (Some j) (Some m) (Some n) p fs = Some (r, Some m', fs') \<and>
    sys_ok m' fs' \<and> group_step (Join n p) (groups m) = (r, groups m')"
proof -
  have ok: "rm_ok m" "rm_is_initialized m" using assms(1) by (auto simp: sys_ok_def rm_ok_def)
  show ?thesis
  proof (cases "find_index (\<lambda>g. str_eq n (cg_name g)) (all_groups m)")
    case None
    have "n \<notin> fst ` set (groups m)" unfolding group_names by (rule iffD1 [OF find_group(1) [OF assms(3)] None])
    with None ok target_found [OF ok(1), of n] assms(1) show ?thesis by (simp add: volcom_add_pid_to_cgroup_def)
  next
    case (Some k)
    note k = find_group(2) [OF assms(3) Some]
    then have n: "n \<in> fst ` set (groups m)" by (force simp: group_names)
    show ?thesis
    proof (cases "0 < p")
      case False
      with ok assms(1) show ?thesis by (simp add: volcom_add_pid_to_cgroup_def)
    next
      case True
      let ?g = "all_groups m ! k"
      obtain fs' where w: "write_file K (file_in (cg_path ?g) ''cgroup.procs'') (dec_int p @ [NL]) fs = (File_closed, fs')"
        "fs_dirs fs' = fs_dirs fs" by (rule write_obliging [OF assms(2)])
      have cr: "cg_is_created ?g" using all_created [OF assms(1)] k by blast
      have "cg_ok ?g" using all_groups_ok [OF ok(1)] k by simp
      from grow_pids_ok [OF this, of j] obtain g where g: "grow_pids (Some j) ?g = Some g" "cg_ok g"
        "cg_pid_count g < cg_pid_capacity g" "pids_of g = pids_of ?g" "cg_name g = cg_name ?g" "cg_path g = cg_path ?g"
        "cg_is_created g = cg_is_created ?g" "cg_pid_count g = cg_pid_count ?g" by blast
      obtain cells where c: "cell_set (cg_pids g) (int (cg_pid_count g)) p = Some cells"
        "cg_ok (g\<lparr>cg_pids := cells, cg_pid_count := Suc (cg_pid_count g)\<rparr>)"
        "live_part cells (Suc (cg_pid_count g)) = pids_of g @ [p]"
        using add_pid_cell [OF g(2,3)] by blast
      let ?g' = "g\<lparr>cg_pids := cells, cg_pid_count := Suc (cg_pid_count g)\<rparr>"
      obtain m' where m': "set_cgroup m (target_at k) ?g' = Some m'" "rm_ok m'" "all_groups m' = (all_groups m)[k := ?g']"
        using set_target [OF ok(1) conjunct1 [OF k] c(2)] cr g(7) by auto
      have "cg_pids g \<noteq> Null" using g(2) by (auto simp: cg_ok_def)
      then have "volcom_add_pid_to_cgroup K (Some j) (Some m) (Some n) p fs = Some (0, Some m', fs')"
        using ok True Some k cr w g(1) c(1) m'(1) target_found [OF ok(1), of n] get_target [OF ok(1), of k]
        by (simp add: volcom_add_pid_to_cgroup_def)
      moreover have "sys_ok m' fs'"
        using sys_ok_update [OF assms(1) m'(2,3) conjunct1 [OF k]] g w(2) by simp
      moreover have "groups m' = on_group n (\<lambda>ps. ps @ [p]) (groups m)"
      proof -
        have "group_of ?g' = (n, snd (groups m ! k) @ [p])"
          using k c(3) g(4,5) by (simp add: group_of_def groups_nth)
        with groups_update [OF m'(3)] on_group_update [of "groups m" k n "\<lambda>ps. ps @ [p]"] k assms(1)
        show ?thesis by (simp add: sys_ok_def length_groups groups_nth)
      qed
      ultimately show ?thesis using True n by auto
    qed
  qed
qed

lemma leave_sim:
  assumes "sys_ok m fs" and "NUL \<notin> set n"
  shows "\<exists>r m'. volcom_remove_pid_from_cgroup (Some m) (Some n) p = Some (r, Some m') \<and>
    sys_ok m' fs \<and> group_step (Leave n p) (groups m) = (r, groups m')"
proof -
  have ok: "rm_ok m" "rm_is_initialized m" using assms(1) by (auto simp: sys_ok_def rm_ok_def)
  have d: "distinct (map fst (groups m))" using assms(1) by (simp add: sys_ok_def)
  show ?thesis
  proof (cases "find_index (\<lambda>g. str_eq n (cg_name g)) (all_groups m)")
    case None
    have "n \<notin> fst ` set (groups m)" unfolding group_names by (rule iffD1 [OF find_group(1) [OF assms(2)] None])
    then have "\<not> list_ex (\<lambda>(x, ps). x = n \<and> p \<in> set ps) (groups m)" by (force simp: list_ex_iff)
    with None ok target_found [OF ok(1), of n] assms(1) show ?thesis by (simp add: volcom_remove_pid_from_cgroup_def)
  next
    case (Some k)
    note k = find_group(2) [OF assms(2) Some]
    let ?g = "all_groups m ! k"
    have g: "cg_ok ?g" using all_groups_ok [OF ok(1)] k by simp
    have in_k: "list_ex (\<lambda>(x, ps). x = n \<and> p \<in> set ps) (groups m) \<longleftrightarrow> p \<in> set (pids_of ?g)"
    proof -
      have e: "groups m ! k = (n, pids_of ?g)" "k < length (groups m)"
        using k by (simp_all add: groups_nth group_of_def length_groups)
      have i: "(n, pids_of ?g) \<in> set (groups m)" using e by (metis nth_mem)
      show ?thesis
      proof
        assume "list_ex (\<lambda>(x, ps). x = n \<and> p \<in> set ps) (groups m)"
        then obtain ps where "(n, ps) \<in> set (groups m)" "p \<in> set ps" by (auto simp: list_ex_iff)
        with eq_key_imp_eq_value [OF d i] show "p \<in> set (pids_of ?g)" by simp
      next
        assume "p \<in> set (pids_of ?g)"
        then show "list_ex (\<lambda>(x, ps). x = n \<and> p \<in> set ps) (groups m)"
          unfolding list_ex_iff by (intro bexI [OF _ i]) simp
      qed
    qed
    show ?thesis
    proof (cases "0 < p \<and> p \<in> set (pids_of ?g)")
      case False
      have "volcom_remove_pid_from_cgroup (Some m) (Some n) p = Some (-1, Some m)"
      proof (cases "0 < p")
        case True
        with False have "find_index (\<lambda>q. q = p) (pids_of ?g) = None" by (auto simp: find_index_None)
        with True ok(2) Some k read_pids [OF g] target_found [OF ok(1), of n] get_target [OF ok(1), of k] show ?thesis
          by (simp add: volcom_remove_pid_from_cgroup_def)
      qed (use ok in \<open>simp add: volcom_remove_pid_from_cgroup_def\<close>)
      moreover have "group_step (Leave n p) (groups m) = (-1, groups m)" using False in_k by auto
      ultimately show ?thesis using assms(1) by simp
    next
      case True
      then obtain i where i: "find_index (\<lambda>q. q = p) (pids_of ?g) = Some i"
        using find_index_None [of "\<lambda>q. q = p" "pids_of ?g"] by (cases "find_index (\<lambda>q. q = p) (pids_of ?g)") auto
      have il: "i < cg_pid_count ?g" using find_index_lt [OF i] length_pids [OF g] by simp
      obtain cs where cs: "cg_pids ?g = Live cs" using g by (auto simp: cg_ok_def)
      let ?g' = "?g\<lparr>cg_pids := Live (shift_left i (cg_pid_count ?g) cs), cg_pid_count := cg_pid_count ?g - 1\<rparr>"
      note r = remove_pid_cells [OF g il cs]
      obtain m' where m': "set_cgroup m (target_at k) ?g' = Some m'" "rm_ok m'" "all_groups m' = (all_groups m)[k := ?g']"
        using set_target [OF ok(1) conjunct1 [OF k] r(1)] all_created [OF assms(1)] k by auto
      have "volcom_remove_pid_from_cgroup (Some m) (Some n) p = Some (0, Some m')"
        using ok True Some k i cs m'(1) read_pids [OF g] target_found [OF ok(1), of n] get_target [OF ok(1), of k]
        by (simp add: volcom_remove_pid_from_cgroup_def)
      moreover have "sys_ok m' fs"
        using sys_ok_update [OF assms(1) m'(2,3) conjunct1 [OF k]] by simp
      moreover have "groups m' = on_group n (remove1 p) (groups m)"
      proof -
        have "group_of ?g' = (n, remove1 p (snd (groups m ! k)))"
          using k r(2) remove1_index [OF i] by (simp add: group_of_def groups_nth)
        with groups_update [OF m'(3)] on_group_update [of "groups m" k n "remove1 p"] k d
        show ?thesis by (simp add: length_groups groups_nth)
      qed
      ultimately show ?thesis using True in_k by auto
    qed
  qed
qed

text \<open>The cell of a new child.\<close>

definition new_child :: "volcom_rcsmngr_s \<Rightarrow> string \<Rightarrow> (nat \<Rightarrow> int) \<Rightarrow> cgroup_info_s" where
  "new_child m n i = zero_cgroup\<lparr>
     cg_name := strncpy (cg_name zero_cgroup) n (MAX_NAME_LEN - 1),
     cg_path := snprintf (cg_path zero_cgroup) MAX_PATH_LEN (cstr (cg_path (rm_main_cgroup m)) @ ''/'' @ cstr n),
     cg_parent_path := strncpy (cg_parent_path zero_cgroup) (cg_path (rm_main_cgroup m)) (MAX_PATH_LEN - 1),
     cg_pid_capacity := 10, cg_pids := Live (map i [0..<10]), cg_is_created := True\<rparr>"

lemma new_child_ok [simp]: "cg_ok (new_child m n i)" "cg_is_created (new_child m n i)" "pids_of (new_child m n i) = []"
  by (simp_all add: new_child_def cg_ok_def zero_cgroup_def live_part_def)

lemma new_child_name: "cstr (cg_name (new_child m n i)) = take (MAX_NAME_LEN - 1) (cstr n)"
  using strncpy_last_NUL(1) [of "replicate 64 NUL" 63 n]
  by (simp add: new_child_def zero_cgroup_def MAX_NAME_LEN_def)

lemma new_child_path: "cstr (cg_path (new_child m n i)) = take (MAX_PATH_LEN - 1) (child_path m (cstr n))"
  using snprintf_cstr(1) [of 512 "child_path m (cstr n)" "replicate 512 NUL"]
  by (simp add: new_child_def zero_cgroup_def MAX_PATH_LEN_def child_path_def)

lemma make_dir_obliging:
  assumes "obliging K"
  obtains fs' where "make_dir K p fs = (True, fs')" "set (fs_dirs fs') = insert p (set (fs_dirs fs))"
  using assms by (cases "p \<in> set (fs_dirs fs)") (auto simp: make_dir_def obliging_def)

text \<open>Creating a child under a kernel that goes along, whatever its name.\<close>

lemma create_child_obliging:
  assumes "rm_ok m" and "cg_is_created (rm_main_cgroup m)" and "obliging K"
  obtains m' fs' where "volcom_create_child_cgroup K (Some j) (Some i) (Some m) (Some n) config fs = Some (0, Some m', fs')"
    "rm_ok m'" "all_groups m' = all_groups m @ [new_child m n i]" "rm_main_cgroup m' = rm_main_cgroup m"
    "set (fs_dirs fs') = insert (cstr (cg_path (new_child m n i))) (set (fs_dirs fs))"
proof -
  obtain m1 where m1: "grow_children (Some j) m = Some m1" "rm_ok m1" "rm_child_count m1 < rm_child_capacity m1"
    "all_groups m1 = all_groups m" "rm_main_cgroup m1 = rm_main_cgroup m" "rm_child_count m1 = rm_child_count m"
    by (rule grow_children_ok [OF assms(1), of j]) blast
  obtain cs where cs: "rm_child_cgroups m1 = Live cs" "length cs = rm_child_capacity m1"
    "children_of m1 = take (rm_child_count m1) cs" "\<forall>c \<in> set (children_of m1). cg_ok c \<and> cg_is_created c"
    using m1(2) by (rule rm_okE) blast
  let ?c = "new_child m n i" and ?k = "rm_child_count m1"
  let ?m = "m1\<lparr>rm_child_cgroups := Live (cs[?k := ?c]), rm_child_count := Suc ?k\<rparr>"
  define path where "path = cg_path ?c"
  obtain fs1 where f1: "make_dir K (cstr path) fs = (True, fs1)" "set (fs_dirs fs1) = insert (cstr path) (set (fs_dirs fs))"
    by (rule make_dir_obliging [OF assms(3)])
  obtain fs2 where f2: "volcom_set_memory_limit K path (mc_allocated_memory_size_high (cf_mem_config config) * 1024) fs1 = (0, fs2)"
    "fs_dirs fs2 = fs_dirs fs1" by (rule set_memory_obliging [OF assms(3)])
  obtain fs3 where f3: "volcom_set_cpu_limit K path (cc_allocated_cpu_share (cf_cpu_config config) sdiv 2) 1 fs2 = Some (0, fs3)"
    "fs_dirs fs3 = fs_dirs fs2" by (rule set_cpu_obliging [OF assms(3), of 1]) auto
  have p: "path = snprintf (cg_path zero_cgroup) MAX_PATH_LEN (cstr (cg_path (rm_main_cgroup m)) @ ''/'' @ cstr n)"
    by (simp add: path_def new_child_def)
  have "volcom_create_child_cgroup K (Some j) (Some i) (Some m) (Some n) config fs = Some (0, Some ?m, fs3)"
    using assms(1,2) m1(1,3,5) cs(1,2) f1(1) f2(1) f3(1)
    unfolding p
    by (simp add: volcom_create_child_cgroup_def rm_ok_def cell_set_def malloc_cells_def new_child_def Let_def)
  moreover have "children_of ?m = children_of m @ [?c]"
  proof -
    have "children_of m = children_of m1" using m1(4) by (simp add: all_groups_def)
    with cs m1(3) show ?thesis by (simp add: live_part_def take_Suc_update_end)
  qed
  moreover from this have "rm_ok ?m"
    using m1(2,3) cs by (simp add: rm_ok_def live_part_def take_Suc_update_end)
  ultimately show ?thesis
    using m1(4,5) f1(2) f2(2) f3(2) by (intro that [of ?m fs3]) (simp_all add: all_groups_def path_def)
qed

lemma create_sim:
  assumes "sys_ok m fs" and "obliging K" and "op_ok (Create n) (groups m)"
  shows "\<exists>r m' fs'. volcom_create_child_cgroup K (Some j) (Some i) (Some m) (Some n) config fs = Some (r, Some m', fs') \<and>
    sys_ok m' fs' \<and> group_step (Create n) (groups m) = (r, groups m')"
proof -
  have n: "NUL \<notin> set n" "length n < MAX_NAME_LEN" "n \<notin> fst ` set (groups m)" using assms(3) by (simp_all add: op_ok_def)
  have ok: "rm_ok m" "cg_is_created (rm_main_cgroup m)" using assms(1) by (auto simp: sys_ok_def)
  obtain m' fs' where m': "volcom_create_child_cgroup K (Some j) (Some i) (Some m) (Some n) config fs = Some (0, Some m', fs')"
    "rm_ok m'" "all_groups m' = all_groups m @ [new_child m n i]" "rm_main_cgroup m' = rm_main_cgroup m"
    "set (fs_dirs fs') = insert (cstr (cg_path (new_child m n i))) (set (fs_dirs fs))"
    by (rule create_child_obliging [OF ok assms(2), of j i n config fs])
  have nm: "cstr (cg_name (new_child m n i)) = n"
    using n(2) by (simp add: new_child_name cstr_id [OF n(1)])
  have "length (child_path m n) \<le> MAX_PATH_LEN - 1"
    using assms(1) n(2) by (auto simp: sys_ok_def child_path_def)
  then have pt: "cstr (cg_path (new_child m n i)) = child_path m n" by (simp add: new_child_path cstr_id [OF n(1)])
  have g: "groups m' = groups m @ [(n, [])]"
    using m'(3) nm by (simp add: groups_def group_of_def)
  have cp: "child_path m' = child_path m" using m'(4) by (simp add: child_path_def fun_eq_iff)
  have ch: "children_of m' = children_of m @ [new_child m n i]" using m'(3) by (simp add: all_groups_def)
  have "sys_ok m' fs'"
    unfolding sys_ok_def ch g cp m'(4,5) using assms(1) m'(2) n(3) nm pt
    by (auto simp: sys_ok_def)
  with m'(1) g show ?thesis by simp
qed

text \<open>Deleting the child at a position whose directory the kernel removes.\<close>

lemma delete_child_at_ok:
  assumes "rm_ok m" and "i < rm_child_count m"
    and "cstr (cg_path (children_of m ! i)) \<in> set (fs_dirs fs)" and "obliging K"
  obtains m' where "delete_child_at K m i fs
      = Some (0, m', fs\<lparr>fs_dirs := removeAll (cstr (cg_path (children_of m ! i))) (fs_dirs fs),
                       fs_log := fs_log fs @ [Rmdir (cstr (cg_path (children_of m ! i)))]\<rparr>)"
    "rm_ok m'" "rm_main_cgroup m' = rm_main_cgroup m" "rm_child_count m' = rm_child_count m - 1"
    "children_of m' = take i (children_of m) @ drop (Suc i) (children_of m)"
proof -
  obtain cs where cs: "rm_child_cgroups m = Live cs" "length cs = rm_child_capacity m"
    "rm_child_count m \<le> rm_child_capacity m" "0 < rm_child_capacity m"
    "children_of m = take (rm_child_count m) cs" "\<forall>c \<in> set (children_of m). cg_ok c \<and> cg_is_created c"
    using assms(1) by (rule rm_okE)
  have i: "i < length cs" using assms(2) cs by simp
  have c: "cell_get (rm_child_cgroups m) (int i) = Some (children_of m ! i)"
    using cs assms(2) by (simp add: cell_get_def)
  have "cg_ok (children_of m ! i)" using cs assms(2) by (metis length_children [OF assms(1)] nth_mem)
  then have f: "free_block (cg_pids (children_of m ! i)) = Some Dangling" by (auto simp: cg_ok_def free_block_def)
  let ?c = "(children_of m ! i)\<lparr>cg_pids := Dangling\<rparr>"
  let ?cs = "shift_left i (rm_child_count m) (cs[i := ?c])"
  let ?m = "m\<lparr>rm_child_cgroups := Live ?cs, rm_child_count := rm_child_count m - 1\<rparr>"
  have e: "children_of ?m = take i (children_of m) @ drop (Suc i) (children_of m)"
    using cs assms(2) i by (simp add: live_part_def take_shift_left drop_take)
  have "rm_ok ?m"
  proof -
    have l: "length ?cs = length cs" using cs assms(2) by simp
    have "\<forall>c \<in> set (children_of ?m). cg_ok c \<and> cg_is_created c"
      unfolding e using cs(6) by (auto dest: in_set_takeD in_set_dropD)
    then show ?thesis using assms(1) cs l unfolding rm_ok_def live_part_def by auto
  qed
  moreover have "delete_child_at K m i fs
      = Some (0, ?m, fs\<lparr>fs_dirs := removeAll (cstr (cg_path (children_of m ! i))) (fs_dirs fs),
                       fs_log := fs_log fs @ [Rmdir (cstr (cg_path (children_of m ! i)))]\<rparr>)"
    using c f cs(1) i assms(3,4)
    by (simp add: delete_child_at_def cell_set_def rmdir_def obliging_def)
  ultimately show ?thesis using e by (intro that [of ?m]) simp_all
qed

lemma delete_sim:
  assumes "sys_ok m fs" and "obliging K" and "NUL \<notin> set n"
  shows "\<exists>r m' fs'. volcom_delete_child_cgroup K (Some m) (Some n) fs = Some (r, Some m', fs') \<and>
    sys_ok m' fs' \<and> group_step (Delete n) (groups m) = (r, groups m')"
proof -
  have ok: "rm_ok m" "rm_is_initialized m" using assms(1) by (auto simp: sys_ok_def rm_ok_def)
  have tl: "tl (groups m) = map group_of (children_of m)" "hd (groups m) = group_of (rm_main_cgroup m)"
    by (simp_all add: groups_def all_groups_def)
  have names: "fst ` set (tl (groups m)) = (\<lambda>g. cstr (cg_name g)) ` set (children_of m)"
    unfolding tl by (simp add: image_image)
  have sym: "(\<lambda>c. str_eq (cg_name c) n) = (\<lambda>c. str_eq n (cg_name c))" by (simp add: str_eq_def eq_commute fun_eq_iff)
  show ?thesis
  proof (cases "find_index (\<lambda>c. str_eq n (cg_name c)) (children_of m)")
    case None
    have "n \<notin> fst ` set (tl (groups m))" unfolding names by (rule iffD1 [OF find_group(1) [OF assms(3)] None])
    with None ok assms(1) show ?thesis by (simp add: volcom_delete_child_cgroup_def read_children sym)
  next
    case (Some i)
    note i = find_group(2) [OF assms(3) Some]
    let ?c = "children_of m ! i"
    have c: "?c \<in> set (children_of m)" using i by simp
    note p = sys_ok_child [OF assms(1) c] and dir = sys_ok_child(2) [OF assms(1) c]
    have il: "i < rm_child_count m" using i length_children [OF ok(1)] by simp
    let ?fs = "fs\<lparr>fs_dirs := removeAll (cstr (cg_path ?c)) (fs_dirs fs), fs_log := fs_log fs @ [Rmdir (cstr (cg_path ?c))]\<rparr>"
    obtain m' where m': "delete_child_at K m i fs = Some (0, m', ?fs)" "rm_ok m'" "rm_main_cgroup m' = rm_main_cgroup m"
      "children_of m' = take i (children_of m) @ drop (Suc i) (children_of m)"
      by (rule delete_child_at_ok [OF ok(1) il dir assms(2)]) blast
    have d: "distinct (map (\<lambda>g. cstr (cg_name g)) (children_of m))"
      using assms(1) by (simp add: sys_ok_def groups_def all_groups_def comp_def)
    have ch: "children_of m' = filter (\<lambda>g. cstr (cg_name g) \<noteq> n) (children_of m)"
      using remove_nth_distinct_key [OF d, of i] i m'(4) by simp
    have g: "groups m' = hd (groups m) # filter (\<lambda>e. fst e \<noteq> n) (tl (groups m))"
      unfolding tl by (simp add: groups_def all_groups_def m'(3) ch filter_map comp_def)
    have "sys_ok m' ?fs"
    proof -
      have pc: "cstr (cg_path ?c) = child_path m n" using p(1) i by simp
      have all: "\<forall>g \<in> set (children_of m'). cstr (cg_path g) = child_path m' (cstr (cg_name g)) \<and>
          cstr (cg_path g) \<in> set (fs_dirs ?fs)"
      proof
        fix g assume "g \<in> set (children_of m')"
        then have gm: "g \<in> set (children_of m)" "cstr (cg_name g) \<noteq> n" using ch by simp_all
        note q = sys_ok_child [OF assms(1) gm(1)]
        have "cstr (cg_path g) \<noteq> cstr (cg_path ?c)" unfolding q(1) pc using gm(2) by (simp add: child_path_def)
        with q(2) show "cstr (cg_path g) = child_path m' (cstr (cg_name g)) \<and> cstr (cg_path g) \<in> set (fs_dirs ?fs)"
          unfolding q(1) by (simp add: child_path_def m'(3))
      qed
      have "cstr (cg_path (rm_main_cgroup m)) \<noteq> cstr (cg_path ?c)" unfolding pc by (simp add: child_path_def)
      moreover have "distinct (map fst (groups m'))"
      proof -
        have "groups m = hd (groups m) # tl (groups m)" by (simp add: groups_def all_groups_def)
        then have "distinct (map fst (hd (groups m) # tl (groups m)))" using assms(1) by (simp add: sys_ok_def)
        then show ?thesis unfolding g by (auto simp: distinct_map_filter)
      qed
      moreover have "cg_is_created (rm_main_cgroup m)" "cstr (cg_path (rm_main_cgroup m)) \<in> set (fs_dirs fs)"
        "length (cstr (cg_path (rm_main_cgroup m))) + MAX_NAME_LEN < MAX_PATH_LEN"
        using assms(1) by (simp_all add: sys_ok_def)
      ultimately show ?thesis using m'(2,3) unfolding sys_ok_def by (intro conjI all) simp_all
    qed
    moreover have "n \<in> fst ` set (tl (groups m))" unfolding names using i by force
    moreover have "volcom_delete_child_cgroup K (Some m) (Some n) fs = Some (0, Some m', ?fs)"
      using ok Some m'(1) by (simp add: volcom_delete_child_cgroup_def read_children sym)
    ultimately show ?thesis using g by simp
  qed
qed

lemma manager_step_sim:
  assumes "sys_ok m fs" and "obliging K" and "op_ok op (groups m)"
  shows "\<exists>r m' fs'. manager_step K (Some j) (Some i) config op (Some m) fs = Some (r, Some m', fs') \<and>
    sys_ok m' fs' \<and> group_step op (groups m) = (r, groups m')"
proof (cases op)
  case (Join n p)
  with join_sim [OF assms(1,2), of n i p] assms(3) show ?thesis by (simp add: manager_step_def op_ok_def)
next
  case (Leave n p)
  then have n: "NUL \<notin> set n" using assms(3) by (simp add: op_ok_def)
  obtain r m' where "volcom_remove_pid_from_cgroup (Some m) (Some n) p = Some (r, Some m')"
    "sys_ok m' fs" "group_step (Leave n p) (groups m) = (r, groups m')"
    using leave_sim [OF assms(1) n, of p] by blast
  with Leave show ?thesis by (simp add: manager_step_def del: group_step.simps)
next
  case (Create n)
  with create_sim [OF assms(1,2), of n j i config] assms(3) show ?thesis by (simp add: manager_step_def)
next
  case (Delete n)
  with delete_sim [OF assms(1,2), of n] assms(3) show ?thesis by (simp add: manager_step_def op_ok_def)
qed

end
