(* ===== verification/Control_Groups.thy ===== *)
theory Control_Groups
  imports Rcsmngr_Proofs
begin

text \<open>
  The interface of the resource manager to the main program and the employee, who put processes
  into groups: a state that behaves, operation by operation, as the table of groups. The manager of
  \<open>volcom_rcsmngr.c\<close> is an instance as long as the kernel takes its calls. Then how the manager is
  set up and torn down, and what happens when the kernel keeps a directory.
\<close>

section \<open>The interface\<close>

fun run_ops :: "('o \<Rightarrow> 's \<Rightarrow> ('r \<times> 's) option) \<Rightarrow> 'o list \<Rightarrow> 's \<Rightarrow> ('r list \<times> 's) option" where
  "run_ops step [] s = Some ([], s)"
| "run_ops step (op # ops) s = do {
     (r, s) \<leftarrow> step op s;
     (rs, s) \<leftarrow> run_ops step ops s;
     Some (r # rs, s)
   }"

lemma on_group_twice: "on_group n f (on_group n g gs) = on_group n (\<lambda>ps. f (g ps)) gs"
  by (induction gs) (auto simp: on_group_def)

lemma on_group_id: "(\<And>ps. (n, ps) \<in> set gs \<Longrightarrow> f ps = ps) \<Longrightarrow> on_group n f gs = gs"
  by (induction gs) (auto simp: on_group_def)

locale group_table =
  fixes valid :: "'s \<Rightarrow> bool"
    and table :: "'s \<Rightarrow> (string \<times> int list) list"
    and step :: "group_op \<Rightarrow> 's \<Rightarrow> (int \<times> 's) option"
  assumes step_sim: "valid s \<Longrightarrow> op_ok op (table s) \<Longrightarrow>
      \<exists>r s'. step op s = Some (r, s') \<and> valid s' \<and> group_step op (table s) = (r, table s')"
    and names: "valid s \<Longrightarrow> distinct (map fst (table s))"
begin

lemma run_sim:
  "valid s \<Longrightarrow> ops_ok ops (table s) \<Longrightarrow>
    \<exists>rs s'. run_ops step ops s = Some (rs, s') \<and> valid s' \<and> group_run ops (table s) = (rs, table s')"
proof (induction ops arbitrary: s)
  case Nil
  then show ?case by simp
next
  case (Cons op ops)
  obtain r s1 where 1: "step op s = Some (r, s1)" "valid s1" "group_step op (table s) = (r, table s1)"
    using step_sim [OF Cons.prems(1), of op] Cons.prems(2) by auto
  obtain rs s2 where "run_ops step ops s1 = Some (rs, s2)" "valid s2" "group_run ops (table s1) = (rs, table s2)"
    using Cons.IH [OF 1(2)] Cons.prems(2) 1(3) by auto
  with 1 show ?case by simp
qed

text \<open>A process that joins a known group is its last member, and leaving undoes joining.\<close>

lemma join_last:
  assumes "valid s" and "map_of (table s) n = Some ps" and "0 < p" and "NUL \<notin> set n"
  obtains s' where "step (Join n p) s = Some (0, s')" "valid s'" "map_of (table s') n = Some (ps @ [p])"
proof -
  obtain r s' where s': "step (Join n p) s = Some (r, s')" "valid s'" "group_step (Join n p) (table s) = (r, table s')"
    using step_sim [OF assms(1), of "Join n p"] assms(4) by (auto simp: op_ok_def)
  have "n \<in> fst ` set (table s)" using assms(2) by (metis map_of_eq_None_iff option.distinct(1))
  then have r: "r = 0" "table s' = on_group n (\<lambda>ps. ps @ [p]) (table s)" using s'(3) assms(3) by auto
  have "map_of (on_group n f gs) n = map_option f (map_of gs n)" for f gs
    by (induction gs) (auto simp: on_group_def)
  with r assms(2) have "map_of (table s') n = Some (ps @ [p])" by simp
  with s'(1,2) r(1) show ?thesis by (intro that [of s']) simp_all
qed

lemma join_leave:
  assumes "valid s" and "map_of (table s) n = Some ps" and "0 < p" and "NUL \<notin> set n" and "p \<notin> set ps"
  shows "\<exists>s'. run_ops step [Join n p, Leave n p] s = Some ([0, 0], s') \<and> valid s' \<and> table s' = table s"
proof -
  let ?add = "on_group n (\<lambda>ps. ps @ [p])"
  have d: "distinct (map fst (table s))" by (rule names [OF assms(1)])
  have n: "n \<in> fst ` set (table s)" using assms(2) by (metis map_of_eq_None_iff option.distinct(1))
  have mem: "(n, ps) \<in> set (table s)" using assms(2) by (rule map_of_SomeD)
  have undo: "on_group n (remove1 p) (?add (table s)) = table s"
  proof -
    have "\<And>qs. (n, qs) \<in> set (table s) \<Longrightarrow> qs = ps" using d mem by (metis eq_key_imp_eq_value)
    then have "on_group n (\<lambda>qs. remove1 p (qs @ [p])) (table s) = table s"
      using assms(5) by (intro on_group_id) (auto simp: remove1_append)
    then show ?thesis by (simp add: on_group_twice)
  qed
  have l: "list_ex (\<lambda>(x, ps). x = n \<and> p \<in> set ps) (?add (table s))"
    using mem by (force simp: list_ex_iff on_group_def)
  have "ops_ok [Join n p, Leave n p] (table s)" using assms(4) by (simp add: op_ok_def)
  from run_sim [OF assms(1) this] n l undo assms(3) show ?thesis by auto
qed

end

section \<open>The manager as a table of groups\<close>

definition manager_op ::
    "cg_kernel \<Rightarrow> (nat \<Rightarrow> cgroup_info_s) option \<Rightarrow> (nat \<Rightarrow> int) option \<Rightarrow> config_s \<Rightarrow> group_op
     \<Rightarrow> volcom_rcsmngr_s option \<times> cgfs \<Rightarrow> (int \<times> volcom_rcsmngr_s option \<times> cgfs) option" where
  "manager_op K child_mem pid_mem config op s = manager_step K child_mem pid_mem config op (fst s) (snd s)"

text \<open>The kernel, the memory and the configuration at hand.\<close>

record surroundings =
  su_kernel :: cg_kernel
  su_child_mem :: "nat \<Rightarrow> cgroup_info_s"
  su_pid_mem :: "nat \<Rightarrow> int"
  su_config :: config_s

definition sys_valid :: "surroundings \<times> volcom_rcsmngr_s option \<times> cgfs \<Rightarrow> bool" where
  "sys_valid s = (case s of (E, Some m, fs) \<Rightarrow> obliging (su_kernel E) \<and> sys_ok m fs | _ \<Rightarrow> False)"

definition sys_table :: "surroundings \<times> volcom_rcsmngr_s option \<times> cgfs \<Rightarrow> (string \<times> int list) list" where
  "sys_table s = (case s of (_, Some m, _) \<Rightarrow> groups m | _ \<Rightarrow> [])"

definition sys_step ::
    "group_op \<Rightarrow> surroundings \<times> volcom_rcsmngr_s option \<times> cgfs
     \<Rightarrow> (int \<times> surroundings \<times> volcom_rcsmngr_s option \<times> cgfs) option" where
  "sys_step op s = (case s of (E, m) \<Rightarrow>
     map_option (\<lambda>(r, m). (r, E, m))
       (manager_op (su_kernel E) (Some (su_child_mem E)) (Some (su_pid_mem E)) (su_config E) op m))"

interpretation cgroups: group_table sys_valid sys_table sys_step
proof
  fix s op assume v: "sys_valid s" and o: "op_ok op (sys_table s)"
  obtain E m fs where s: "s = (E, Some m, fs)" "obliging (su_kernel E)" "sys_ok m fs"
    using v by (auto simp: sys_valid_def split: prod.splits option.splits)
  from manager_step_sim [OF s(3,2), of op "su_child_mem E" "su_pid_mem E" "su_config E"] o s
  show "\<exists>r s'. sys_step op s = Some (r, s') \<and> sys_valid s' \<and> group_step op (sys_table s) = (r, sys_table s')"
    by (auto simp: sys_step_def sys_valid_def sys_table_def manager_op_def)
next
  fix s assume "sys_valid s"
  then show "distinct (map fst (sys_table s))"
    by (auto simp: sys_valid_def sys_table_def sys_ok_def split: prod.splits option.splits)
qed

lemma run_sys:
  "run_ops sys_step ops (E, s) = map_option (\<lambda>(rs, s). (rs, E, s))
     (run_ops (manager_op (su_kernel E) (Some (su_child_mem E)) (Some (su_pid_mem E)) (su_config E)) ops s)"
proof (induction ops arbitrary: s)
  case Nil
  then show ?case by simp
next
  case (Cons op ops)
  let ?op = "manager_op (su_kernel E) (Some (su_child_mem E)) (Some (su_pid_mem E)) (su_config E)"
  show ?case
  proof (cases "?op op s")
    case None
    then show ?thesis by (simp add: sys_step_def)
  next
    case (Some rs)
    obtain r s' where "rs = (r, s')" by (metis surj_pair)
    with Some Cons.IH [of s'] show ?thesis
      by (cases "run_ops ?op ops s'") (auto simp: sys_step_def)
  qed
qed

text \<open>Reading the members of a group.\<close>

lemma get_pids_table:
  assumes "sys_ok m fs" and "NUL \<notin> set n"
  shows "volcom_get_cgroup_pids True (Some m) (Some n) (Some out) (Some cnt)
    = (case map_of (groups m) n of
         None \<Rightarrow> Some (-1, Some out, Some cnt)
       | Some ps \<Rightarrow> Some (0, Some (if ps = [] then Null else Live ps), Some (length ps)))"
proof -
  have ok: "rm_ok m" "rm_is_initialized m" "distinct (map fst (groups m))"
    using assms(1) by (auto simp: sys_ok_def rm_ok_def)
  show ?thesis
  proof (cases "find_index (\<lambda>g. str_eq n (cg_name g)) (all_groups m)")
    case None
    have "n \<notin> fst ` set (groups m)" unfolding group_names by (rule iffD1 [OF find_group(1) [OF assms(2)] None])
    then have "map_of (groups m) n = None" by (simp add: map_of_eq_None_iff)
    with None ok target_found [OF ok(1), of n] show ?thesis by (simp add: volcom_get_cgroup_pids_def)
  next
    case (Some k)
    note k = find_group(2) [OF assms(2) Some]
    let ?g = "all_groups m ! k"
    have g: "cg_ok ?g" using all_groups_ok [OF ok(1)] k by simp
    have "(n, pids_of ?g) \<in> set (groups m)"
      using k by (metis group_of_def groups_nth length_groups nth_mem)
    then have "map_of (groups m) n = Some (pids_of ?g)" using ok(3) by simp
    moreover have "pids_of ?g = [] \<longleftrightarrow> cg_pid_count ?g = 0" using length_pids [OF g] by auto
    ultimately show ?thesis
      using ok Some k read_pids [OF g] length_pids [OF g] target_found [OF ok(1), of n] get_target [OF ok(1), of k]
      by (simp add: volcom_get_cgroup_pids_def)
  qed
qed


section \<open>Setting up\<close>

text \<open>A name is read up to its NUL, so the manager's own name finds its main group.\<close>

lemma target_by_contents: "target_cgroup m (cstr n) = target_cgroup m n"
  by (simp add: target_cgroup_def str_eq_def cstr_id)

lemma join_by_contents:
  "volcom_add_pid_to_cgroup K j (Some m) (Some (cstr n)) p fs = volcom_add_pid_to_cgroup K j (Some m) (Some n) p fs"
  by (simp add: volcom_add_pid_to_cgroup_def target_by_contents)

lemma join_main:
  assumes "sys_ok m fs" and "obliging K"
  shows "\<exists>r m' fs'. volcom_add_pid_to_cgroup K (Some j) (Some m) (Some (cg_name (rm_main_cgroup m))) p fs = Some (r, Some m', fs') \<and>
    sys_ok m' fs' \<and> group_step (Join (cstr (cg_name (rm_main_cgroup m))) p) (groups m) = (r, groups m')"
  using join_sim [OF assms, of "cstr (cg_name (rm_main_cgroup m))"] by (simp add: join_by_contents)

text \<open>A kernel that also accepts what is written.\<close>

definition accepting :: "cg_kernel \<Rightarrow> bool" where
  "accepting K \<longleftrightarrow> obliging K \<and> (\<forall>fs p. k_flush K fs p)"

lemma accepting_write:
  "accepting K \<Longrightarrow> write_file K p c fs = (File_closed, fs\<lparr>fs_log := fs_log fs @ [Wrote p c]\<rparr>)"
  by (simp add: accepting_def obliging_def write_file_def)

text \<open>What is written for the main group.\<close>

definition main_writes :: "string \<Rightarrow> config_s \<Rightarrow> cg_event list" where
  "main_writes p config =
     [Wrote (p @ ''/memory.max'') (dec_nat (unat (mc_allocated_memory_size_max (cf_mem_config config) * 1024)) @ [NL]),
      Wrote (p @ ''/cpu.weight'') (dec_int (cc_allocated_cpu_share (cf_cpu_config config)) @ [NL]),
      Wrote (p @ ''/cpu.max'')
        (if cc_allocated_logical_processors (cf_cpu_config config) > 0
         then dec_int (cc_allocated_logical_processors (cf_cpu_config config) * 100000) @ '' 100000'' @ [NL]
         else ''max 100000'' @ [NL]),
      Wrote (p @ ''/cgroup.subtree_control'') ''+memory'',
      Wrote (p @ ''/cgroup.subtree_control'') ''+cpu'']"

definition main_path :: "string \<Rightarrow> string" where
  "main_path n = CGROUP_V2_ROOT @ ''/'' @ n"

lemma init_state:
  assumes "NUL \<notin> set n" and "length n < MAX_NAME_LEN"
  obtains m where "volcom_rcsmngr_init True (Some i) (Some j) (Some m0) (Some n) = Some (0, Some m)" "rm_ok m"
    "groups m = [(n, [])]" "\<not> cg_is_created (rm_main_cgroup m)" "cstr (cg_path (rm_main_cgroup m)) = main_path n"
proof -
  have c: "cstr n = n" by (rule cstr_id [OF assms(1)])
  let ?root = "snprintf (replicate 512 NUL) 512 (main_path n)"
  have "NUL \<notin> set (main_path n)" using assms(1) by (simp add: main_path_def CGROUP_V2_ROOT_def)
  moreover have l: "length (main_path n) \<le> 511"
    using assms(2) by (simp add: main_path_def CGROUP_V2_ROOT_def MAX_NAME_LEN_def)
  ultimately have r: "cstr ?root = main_path n" using snprintf_cstr(1) [of 512 "main_path n"] by simp
  let ?g = "zero_cgroup\<lparr>cg_name := strncpy (replicate 64 NUL) n 63, cg_path := strncpy (replicate 512 NUL) ?root 511,
      cg_parent_path := strncpy (replicate 512 NUL) CGROUP_V2_ROOT 511, cg_is_created := False,
      cg_pid_capacity := 10, cg_pids := Live (map i [0..<10])\<rparr>"
  let ?m = "zero_manager\<lparr>rm_root_cgroup_path := ?root, rm_main_cgroup := ?g, rm_child_capacity := 5,
      rm_child_cgroups := Live (map j [0..<5]), rm_is_initialized := True\<rparr>"
  have e: "volcom_rcsmngr_init True (Some i) (Some j) (Some m0) (Some n) = Some (0, Some ?m)"
    using c by (simp add: volcom_rcsmngr_init_def volcom_check_cgroup_v2_support_def malloc_cells_def zero_cgroup_def
        zero_manager_def MAX_PATH_LEN_def MAX_NAME_LEN_def main_path_def Let_def)
  have nm: "cstr (cg_name ?g) = n"
    using strncpy_last_NUL(1) [of "replicate 64 NUL" 63 n] c assms(2) by (simp add: MAX_NAME_LEN_def)
  have "rm_ok ?m" by (simp add: rm_ok_def cg_ok_def zero_manager_def zero_cgroup_def)
  moreover have "groups ?m = [(n, [])]"
    using nm by (simp add: groups_def all_groups_def group_of_def live_part_def zero_manager_def zero_cgroup_def)
  moreover have "cstr (cg_path (rm_main_cgroup ?m)) = main_path n"
    using strncpy_last_NUL(1) [of "replicate 512 NUL" 511 ?root] r l by simp
  ultimately show ?thesis by (intro that [OF e]) simp_all
qed

lemma main_tokens: "tokens (CHR '' '') ''memory cpu'' = [''memory'', ''cpu'']"
  by (simp add: tokens.simps strtok_def Let_def)

text \<open>Creating the main group of a manager that was just initialised.\<close>

lemma create_main_effect:
  assumes "rm_ok m" and "\<not> cg_is_created (rm_main_cgroup m)" and "cstr (cg_path (rm_main_cgroup m)) = main_path n"
    and "length n < MAX_NAME_LEN" and "accepting K" and "cc_allocated_logical_processors (cf_cpu_config config) * 100000 < 2 ^ 31"
  obtains fs' where "volcom_create_main_cgroup K True (Some m) config fs
      = Some (0, Some (m\<lparr>rm_main_cgroup := (rm_main_cgroup m)\<lparr>cg_is_created := True\<rparr>\<rparr>), fs')"
    "fs_log fs' = fs_log fs @ (if main_path n \<in> set (fs_dirs fs) then [] else [Mkdir (main_path n)]) @
      main_writes (main_path n) config"
    "fs_dirs fs' = (if main_path n \<in> set (fs_dirs fs) then fs_dirs fs else main_path n # fs_dirs fs)"
proof -
  let ?p = "main_path n"
  let ?m' = "m\<lparr>rm_main_cgroup := (rm_main_cgroup m)\<lparr>cg_is_created := True\<rparr>\<rparr>"
  let ?fs1 = "if ?p \<in> set (fs_dirs fs) then fs else fs\<lparr>fs_dirs := ?p # fs_dirs fs, fs_log := fs_log fs @ [Mkdir ?p]\<rparr>"
  let ?fs' = "?fs1\<lparr>fs_log := fs_log ?fs1 @ main_writes ?p config\<rparr>"
  have l: "length ?p < 80" using assms(4) by (simp add: main_path_def CGROUP_V2_ROOT_def MAX_NAME_LEN_def)
  have f: "file_in (cg_path (rm_main_cgroup m)) ''memory.max'' = ?p @ ''/memory.max''"
    "file_in (cg_path (rm_main_cgroup m)) ''cpu.weight'' = ?p @ ''/cpu.weight''"
    "file_in (cg_path (rm_main_cgroup m)) ''cpu.max'' = ?p @ ''/cpu.max''"
    "file_in (cg_path (rm_main_cgroup m)) ''cgroup.subtree_control'' = ?p @ ''/cgroup.subtree_control''"
    using l by (simp_all add: file_in_def assms(3) MAX_PATH_LEN_def)
  have d: "make_dir K ?p fs = (True, ?fs1)"
    using assms(5) by (simp add: make_dir_def accepting_def obliging_def)
  have o: "\<And>fs p. k_fopen K fs p" using assms(5) by (simp add: accepting_def obliging_def)
  have i: "rm_is_initialized m" using assms(1) by (simp add: rm_ok_def)
  have "volcom_create_main_cgroup K True (Some m) config fs = Some (0, Some ?m', ?fs')"
    using assms(2,3,6) i d
    by (simp add: volcom_create_main_cgroup_def volcom_set_memory_limit_def volcom_set_cpu_limit_def
        volcom_enable_controllers_def accepting_write [OF assms(5)] f main_tokens cstr_def main_writes_def o Let_def)
  then show ?thesis by (rule that) auto
qed

lemma started_state:
  assumes "NUL \<notin> set n" and "length n < MAX_NAME_LEN" and "accepting K"
    and "cc_allocated_logical_processors (cf_cpu_config config) * 100000 < 2 ^ 31"
  shows "\<exists>m m' fs'. volcom_rcsmngr_init True (Some i) (Some j) (Some m0) (Some n) = Some (0, Some m) \<and>
    volcom_create_main_cgroup K True (Some m) config fs = Some (0, Some m', fs') \<and>
    sys_ok m' fs' \<and> groups m' = [(n, [])] \<and> cstr (cg_path (rm_main_cgroup m')) = main_path n \<and>
    fs_dirs fs' = (if main_path n \<in> set (fs_dirs fs) then fs_dirs fs else main_path n # fs_dirs fs) \<and>
    fs_log fs' = fs_log fs @ (if main_path n \<in> set (fs_dirs fs) then [] else [Mkdir (main_path n)]) @
      main_writes (main_path n) config \<and>
    volcom_create_main_cgroup K True (Some m') config fs' = Some (-1, Some m', fs')"
proof -
  obtain m where m: "volcom_rcsmngr_init True (Some i) (Some j) (Some m0) (Some n) = Some (0, Some m)" "rm_ok m"
    "groups m = [(n, [])]" "\<not> cg_is_created (rm_main_cgroup m)" "cstr (cg_path (rm_main_cgroup m)) = main_path n"
    by (rule init_state [OF assms(1,2), of i j m0])
  let ?m' = "m\<lparr>rm_main_cgroup := (rm_main_cgroup m)\<lparr>cg_is_created := True\<rparr>\<rparr>"
  obtain fs' where c: "volcom_create_main_cgroup K True (Some m) config fs = Some (0, Some ?m', fs')"
    "fs_log fs' = fs_log fs @ (if main_path n \<in> set (fs_dirs fs) then [] else [Mkdir (main_path n)]) @
      main_writes (main_path n) config"
    "fs_dirs fs' = (if main_path n \<in> set (fs_dirs fs) then fs_dirs fs else main_path n # fs_dirs fs)"
    by (rule create_main_effect [OF m(2,4,5) assms(2-4), of fs])
  have "length (main_path n) < 80" using assms(2) by (simp add: main_path_def CGROUP_V2_ROOT_def MAX_NAME_LEN_def)
  then have "sys_ok ?m' fs'"
    using m(2,3,5) c(3) by (auto simp: sys_ok_def rm_ok_def cg_ok_def groups_def all_groups_def group_of_def live_part_def
        MAX_PATH_LEN_def MAX_NAME_LEN_def)
  moreover have "groups ?m' = [(n, [])]"
    using m(3) by (simp add: groups_def all_groups_def group_of_def live_part_def)
  moreover have "volcom_create_main_cgroup K True (Some ?m') config fs' = Some (-1, Some ?m', fs')"
    using m(2) by (simp add: volcom_create_main_cgroup_def rm_ok_def)
  ultimately show ?thesis using m(1,5) c by (intro exI conjI) auto
qed

text \<open>starting the manager under a short name and creating its main group, with a kernel that goes
  along, gives a valid manager with one empty group, and the group's directory and files hold exactly
  the configured limits: the memory limit in bytes, the processor weight and quota, and the two
  controllers enabled, in this order.\<close>
theorem manager_started:
  assumes "NUL \<notin> set n" and "length n < MAX_NAME_LEN" and "accepting K"
    and "cc_allocated_logical_processors (cf_cpu_config config) * 100000 < 2 ^ 31"
  shows "\<exists>m m' fs'. volcom_rcsmngr_init True (Some i) (Some j) (Some m0) (Some n) = Some (0, Some m) \<and>
    volcom_create_main_cgroup K True (Some m) config fs = Some (0, Some m', fs') \<and>
    sys_ok m' fs' \<and> groups m' = [(n, [])] \<and>
    fs_log fs' = fs_log fs @ (if main_path n \<in> set (fs_dirs fs) then [] else [Mkdir (main_path n)]) @
      main_writes (main_path n) config \<and>
    volcom_create_main_cgroup K True (Some m') config fs' = Some (-1, Some m', fs')"
  using started_state [OF assms, of i j m0 fs] by blast

section \<open>Tearing down\<close>

text \<open>One round of the loop: the name of the first child finds the first child.\<close>

lemma delete_children_step:
  assumes "rm_is_initialized m" and "rm_child_cgroups m = Live cs" and "0 < rm_child_count m" and "rm_child_count m \<le> length cs"
  shows "delete_children K m fs = Option.bind (delete_child_at K m 0 fs) (\<lambda>(r, m', fs'). delete_children K m' fs')"
proof -
  obtain c cs' where cs: "cs = c # cs'" using assms(3,4) by (cases cs) auto
  obtain k where k: "rm_child_count m = Suc k" using assms(3) by (cases "rm_child_count m") auto
  have "volcom_delete_child_cgroup K (Some m) (Some (cg_name c)) fs
      = map_option (\<lambda>(r, m, fs). (r, Some m, fs)) (delete_child_at K m 0 fs)"
    using assms cs k by (cases "delete_child_at K m 0 fs") (auto simp: volcom_delete_child_cgroup_def read_cells_def)
  moreover have "cell_get (rm_child_cgroups m) 0 = Some c" using assms(2) cs by (simp add: cell_get_def)
  ultimately show ?thesis
    using assms(3) by (subst delete_children.simps) (cases "delete_child_at K m 0 fs"; auto)
qed

lemma delete_children_all:
  assumes "rm_ok m" and "obliging K" and "distinct (map (\<lambda>c. cstr (cg_path c)) (children_of m))"
    and "\<forall>c \<in> set (children_of m). cstr (cg_path c) \<in> set (fs_dirs fs)"
  shows "\<exists>m'. delete_children K m fs = Some (m', fs\<lparr>
      fs_dirs := filter (\<lambda>d. d \<notin> (\<lambda>c. cstr (cg_path c)) ` set (children_of m)) (fs_dirs fs),
      fs_log := fs_log fs @ map (\<lambda>c. Rmdir (cstr (cg_path c))) (children_of m)\<rparr>) \<and>
    rm_ok m' \<and> children_of m' = [] \<and> rm_main_cgroup m' = rm_main_cgroup m"
  using assms
proof (induction "rm_child_count m" arbitrary: m fs)
  case 0
  then have "children_of m = []" by (auto elim!: rm_okE)
  with 0 show ?case by (subst delete_children.simps) simp
next
  case (Suc k)
  obtain c cs where c: "children_of m = c # cs"
    using Suc.hyps(2) length_children [OF Suc.prems(1)] by (cases "children_of m") auto
  let ?p = "cstr (cg_path c)"
  let ?fs = "fs\<lparr>fs_dirs := removeAll ?p (fs_dirs fs), fs_log := fs_log fs @ [Rmdir ?p]\<rparr>"
  have "cstr (cg_path (children_of m ! 0)) \<in> set (fs_dirs fs)" using Suc.prems(4) c by simp
  from delete_child_at_ok [OF Suc.prems(1) _ this Suc.prems(2)] Suc.hyps(2) c
  obtain m1 where m1: "delete_child_at K m 0 fs = Some (0, m1, ?fs)" "rm_ok m1" "rm_main_cgroup m1 = rm_main_cgroup m"
    "rm_child_count m1 = k" "children_of m1 = cs"
    by (metis diff_Suc_1 drop_0 drop_Suc_Cons nth_Cons_0 self_append_conv2 take_0 zero_less_Suc)
  have "?p \<notin> (\<lambda>c. cstr (cg_path c)) ` set cs" using Suc.prems(3) c by simp
  then have np: "\<forall>ca \<in> set cs. cstr (cg_path ca) \<noteq> ?p" by (metis image_eqI)
  have "\<exists>m'. delete_children K m1 ?fs = Some (m', ?fs\<lparr>
      fs_dirs := filter (\<lambda>d. d \<notin> (\<lambda>c. cstr (cg_path c)) ` set (children_of m1)) (fs_dirs ?fs),
      fs_log := fs_log ?fs @ map (\<lambda>c. Rmdir (cstr (cg_path c))) (children_of m1)\<rparr>) \<and>
    rm_ok m' \<and> children_of m' = [] \<and> rm_main_cgroup m' = rm_main_cgroup m1"
    using Suc.prems c m1 np by (intro Suc.hyps(1)) auto
  then obtain m' where m': "delete_children K m1 ?fs = Some (m', ?fs\<lparr>
      fs_dirs := filter (\<lambda>d. d \<notin> (\<lambda>c. cstr (cg_path c)) ` set (children_of m1)) (fs_dirs ?fs),
      fs_log := fs_log ?fs @ map (\<lambda>c. Rmdir (cstr (cg_path c))) (children_of m1)\<rparr>)"
    "rm_ok m'" "children_of m' = []" "rm_main_cgroup m' = rm_main_cgroup m1" by blast
  obtain cells where cells: "rm_child_cgroups m = Live cells" "rm_child_count m \<le> length cells" "rm_is_initialized m"
    using Suc.prems(1) by (auto simp: rm_ok_def)
  have "delete_children K m fs = delete_children K m1 ?fs"
    using delete_children_step [OF cells(3,1) _ cells(2), of K fs] Suc.hyps(2) m1(1) by simp
  moreover have "filter (\<lambda>d. d \<notin> (\<lambda>c. cstr (cg_path c)) ` set cs) (removeAll ?p (fs_dirs fs))
      = filter (\<lambda>d. d \<notin> (\<lambda>c. cstr (cg_path c)) ` set (c # cs)) (fs_dirs fs)"
    unfolding removeAll_filter_not_eq filter_filter by (intro filter_cong) auto
  ultimately show ?case using m' m1(3,5) c by simp
qed

lemma deleted_state:
  assumes "sys_ok m fs" and "obliging K"
  shows "\<exists>m'. volcom_delete_main_cgroup K (Some m) fs = Some (0, Some m', fs\<lparr>
      fs_dirs := filter (\<lambda>d. d \<notin> (\<lambda>g. cstr (cg_path g)) ` set (all_groups m)) (fs_dirs fs),
      fs_log := fs_log fs @ map (\<lambda>c. Rmdir (cstr (cg_path c))) (children_of m) @ [Rmdir (cstr (cg_path (rm_main_cgroup m)))]\<rparr>) \<and>
    children_of m' = [] \<and> \<not> cg_is_created (rm_main_cgroup m') \<and> rm_ok m'"
proof -
  have ok: "rm_ok m" "cg_is_created (rm_main_cgroup m)" using assms(1) by (auto simp: sys_ok_def)
  have p: "map (\<lambda>c. cstr (cg_path c)) (children_of m) = map (\<lambda>c. child_path m (cstr (cg_name c))) (children_of m)"
    using sys_ok_child(1) [OF assms(1)] by simp
  have "inj (child_path m)" by (auto intro: injI simp: child_path_def)
  moreover have "distinct (map (\<lambda>c. cstr (cg_name c)) (children_of m))"
    using assms(1) by (simp add: sys_ok_def groups_def all_groups_def comp_def)
  ultimately have d: "distinct (map (\<lambda>c. cstr (cg_path c)) (children_of m))"
    unfolding p by (simp add: distinct_map inj_on_def inj_def)
  have "\<forall>c \<in> set (children_of m). cstr (cg_path c) \<in> set (fs_dirs fs)" using sys_ok_child(2) [OF assms(1)] by blast
  from delete_children_all [OF ok(1) assms(2) d this] obtain m' where m': "delete_children K m fs = Some (m', fs\<lparr>
      fs_dirs := filter (\<lambda>d. d \<notin> (\<lambda>c. cstr (cg_path c)) ` set (children_of m)) (fs_dirs fs),
      fs_log := fs_log fs @ map (\<lambda>c. Rmdir (cstr (cg_path c))) (children_of m)\<rparr>)"
    "rm_ok m'" "children_of m' = []" "rm_main_cgroup m' = rm_main_cgroup m" by blast
  let ?p = "cstr (cg_path (rm_main_cgroup m))"
  let ?cp = "(\<lambda>c. cstr (cg_path c)) ` set (children_of m)"
  have np: "?p \<notin> ?cp"
  proof
    assume "?p \<in> ?cp"
    then obtain c where c: "c \<in> set (children_of m)" "?p = cstr (cg_path c)" by blast
    from c(2) sys_ok_child(1) [OF assms(1) c(1)] have "?p = child_path m (cstr (cg_name c))" by (rule trans)
    then show False by (simp add: child_path_def)
  qed
  let ?fs = "fs\<lparr>fs_dirs := filter (\<lambda>d. d \<notin> ?cp) (fs_dirs fs),
      fs_log := fs_log fs @ map (\<lambda>c. Rmdir (cstr (cg_path c))) (children_of m)\<rparr>"
  have f: "removeAll ?p (filter (\<lambda>d. d \<notin> ?cp) (fs_dirs fs))
      = filter (\<lambda>d. d \<notin> (\<lambda>g. cstr (cg_path g)) ` set (all_groups m)) (fs_dirs fs)"
    unfolding removeAll_filter_not_eq filter_filter by (intro filter_cong) (auto simp: all_groups_def)
  have i: "?p \<in> set (fs_dirs fs)" "rm_is_initialized m" using assms(1) ok(1) by (auto simp: sys_ok_def rm_ok_def)
  have "rmdir K ?p ?fs = (True, fs\<lparr>
      fs_dirs := filter (\<lambda>d. d \<notin> (\<lambda>g. cstr (cg_path g)) ` set (all_groups m)) (fs_dirs fs),
      fs_log := fs_log fs @ map (\<lambda>c. Rmdir (cstr (cg_path c))) (children_of m) @ [Rmdir ?p]\<rparr>)"
  proof -
    have "?p \<in> set (fs_dirs ?fs)" using i(1) np by simp
    then show ?thesis using assms(2) by (simp add: rmdir_def obliging_def f [symmetric])
  qed
  moreover have "rm_ok (m'\<lparr>rm_main_cgroup := (rm_main_cgroup m')\<lparr>cg_is_created := False\<rparr>\<rparr>)"
    using m'(2) by (simp add: rm_ok_def cg_ok_def)
  ultimately show ?thesis using m' ok(2) i(2) by (simp add: volcom_delete_main_cgroup_def)
qed

text \<open>C23: tearing the manager down ends, and it removes the directories of all children in their order
  and the main directory last, nothing else, when the kernel removes the directories it is asked to.\<close>
theorem delete_main_total:
  assumes "sys_ok m fs" and "obliging K"
  shows "\<exists>m'. volcom_delete_main_cgroup K (Some m) fs = Some (0, Some m', fs\<lparr>
      fs_dirs := filter (\<lambda>d. d \<notin> (\<lambda>g. cstr (cg_path g)) ` set (all_groups m)) (fs_dirs fs),
      fs_log := fs_log fs @ map (\<lambda>c. Rmdir (cstr (cg_path c))) (children_of m) @ [Rmdir (cstr (cg_path (rm_main_cgroup m)))]\<rparr>) \<and>
    children_of m' = [] \<and> \<not> cg_is_created (rm_main_cgroup m')"
  using deleted_state [OF assms] by blast

text \<open>Every block of a valid manager can be freed.\<close>

lemma free_all_ok: "\<forall>c \<in> set cs. cg_ok c \<Longrightarrow> free_all cs = Some ()"
  by (induction cs) (auto simp: cg_ok_def free_block_def)

lemma cleanup_ok:
  assumes "rm_ok m"
  shows "volcom_rcsmngr_cleanup (Some m) = Some (Some zero_manager)"
proof -
  have "free_all (children_of m) = Some ()"
    using assms by (intro free_all_ok) (auto elim!: rm_okE)
  moreover have "free_block (cg_pids (rm_main_cgroup m)) = Some Dangling" "free_block (rm_child_cgroups m) = Some Dangling"
    using assms by (auto simp: rm_ok_def cg_ok_def free_block_def)
  ultimately show ?thesis using read_children [OF assms] by (simp add: volcom_rcsmngr_cleanup_def)
qed

section \<open>A directory the kernel keeps\<close>

lemma delete_dangling:
  "rm_child_cgroups m = Live cs \<Longrightarrow> i < length cs \<Longrightarrow> cg_pids (cs ! i) = Dangling \<Longrightarrow> delete_child_at K m i fs = None"
  by (simp add: delete_child_at_def cell_get_def free_block_def)

text \<open>With a child whose process array is freed already, the loop never gets to the end.\<close>

lemma dangling_stuck:
  assumes "rm_is_initialized m" and "rm_child_cgroups m = Live cs" and "rm_child_count m \<le> length cs"
    and "\<forall>c \<in> set (take (rm_child_count m) cs). cg_pids c \<noteq> Null"
    and "\<exists>c \<in> set (take (rm_child_count m) cs). cg_pids c = Dangling"
  shows "delete_children K m fs = None"
  using assms
proof (induction "rm_child_count m" arbitrary: m cs fs)
  case 0
  then show ?case by simp
next
  case (Suc k)
  obtain c cs' where cs: "cs = c # cs'" using Suc.prems(3) Suc.hyps(2) by (cases cs) auto
  have c: "rm_child_count m = Suc k" using Suc.hyps(2) by simp
  have step: "delete_children K m' fs' = Option.bind (delete_child_at K m' 0 fs') (\<lambda>(r, m', fs'). delete_children K m' fs')"
    if "rm_is_initialized m'" "rm_child_cgroups m' = Live cs''" "rm_child_count m' = Suc k" "Suc k \<le> length cs''" for m' cs'' fs'
    using that by (intro delete_children_step) auto
  note s = step [OF Suc.prems(1,2) c] Suc.prems(3) c
  show ?case
  proof (cases "cg_pids c = Dangling")
    case True
    with delete_dangling [OF Suc.prems(2), of 0] s cs show ?thesis by simp
  next
    case False
    with Suc.prems(4) cs c obtain ps where l: "cg_pids c = Live ps" by (cases "cg_pids c") auto
    let ?cs = "c\<lparr>cg_pids := Dangling\<rparr> # cs'"
    have f: "cell_get (rm_child_cgroups m) 0 = Some c" "free_block (cg_pids c) = Some Dangling"
      "cell_set (rm_child_cgroups m) 0 (c\<lparr>cg_pids := Dangling\<rparr>) = Some (Live ?cs)"
      using Suc.prems(2) cs l by (simp_all add: cell_get_def cell_set_def free_block_def)
    obtain ok fs' where r: "rmdir K (cstr (cg_path c)) fs = (ok, fs')" by fastforce
    show ?thesis
    proof (cases ok)
      case True
      let ?m = "m\<lparr>rm_child_cgroups := Live (shift_left 0 (Suc k) ?cs), rm_child_count := k\<rparr>"
      have d: "delete_child_at K m 0 fs = Some (0, ?m, fs')"
        using f r True c by (simp add: delete_child_at_def)
      have t: "take k (shift_left 0 (Suc k) ?cs) = take k cs'" using Suc.prems(3) cs c by (simp add: shift_left_def)
      have "delete_children K ?m fs' = None"
      proof (rule Suc.hyps(1))
        show "rm_child_cgroups ?m = Live (shift_left 0 (Suc k) ?cs)" by simp
        show "rm_child_count ?m \<le> length (shift_left 0 (Suc k) ?cs)" using Suc.prems(3) cs c by simp
        show "\<forall>c \<in> set (take (rm_child_count ?m) (shift_left 0 (Suc k) ?cs)). cg_pids c \<noteq> Null"
          "\<exists>c \<in> set (take (rm_child_count ?m) (shift_left 0 (Suc k) ?cs)). cg_pids c = Dangling"
          using Suc.prems(4,5) cs c False t by auto
      qed (use Suc.prems(1) in simp_all)
      with s d show ?thesis by simp
    next
      case False
      let ?m = "m\<lparr>rm_child_cgroups := Live ?cs\<rparr>"
      have d: "delete_child_at K m 0 fs = Some (-1, ?m, fs')"
        using f r False by (simp add: delete_child_at_def)
      have "delete_children K ?m fs' = Option.bind (delete_child_at K ?m 0 fs') (\<lambda>(r, m', fs'). delete_children K m' fs')"
        using Suc.prems(1,3) cs c by (intro step) auto
      also have "delete_child_at K ?m 0 fs' = None" by (rule delete_dangling [where cs = ?cs]) simp_all
      finally show ?thesis using s d by simp
    qed
  qed
qed

text \<open>C27: \<open>volcom_delete_child_cgroup\<close> frees the processes of the child before it asks the kernel to remove
  the directory, and keeps the entry when the kernel refuses (a group with a running process): from
  then on deleting that child again, tearing the manager down and its cleanup all free the array a
  second time. Tearing down runs into it by itself when the kernel keeps the first directory.\<close>
theorem kept_directory_double_free:
  assumes "rm_ok m" and "find_index (\<lambda>c. str_eq (cg_name c) n) (children_of m) = Some k"
    and "cstr (cg_path (children_of m ! k)) \<notin> set (fs_dirs fs) \<or> \<not> k_rmdir K fs (cstr (cg_path (children_of m ! k)))"
  shows "\<exists>m'. volcom_delete_child_cgroup K (Some m) (Some n) fs = Some (-1, Some m', fs) \<and>
    (\<forall>K' fs'. volcom_delete_child_cgroup K' (Some m') (Some n) fs' = None \<and>
              volcom_delete_main_cgroup K' (Some m') fs' = None) \<and>
    volcom_rcsmngr_cleanup (Some m') = None \<and>
    (k = 0 \<longrightarrow> volcom_delete_main_cgroup K (Some m) fs = None)"
proof -
  obtain cs where cs: "rm_child_cgroups m = Live cs" "length cs = rm_child_capacity m"
    "rm_child_count m \<le> rm_child_capacity m" "0 < rm_child_capacity m"
    "children_of m = take (rm_child_count m) cs" "\<forall>c \<in> set (children_of m). cg_ok c \<and> cg_is_created c"
    using assms(1) by (rule rm_okE)
  have i: "rm_is_initialized m" using assms(1) by (simp add: rm_ok_def)
  have k: "k < rm_child_count m" using find_index_lt [OF assms(2)] length_children [OF assms(1)] by simp
  then have c: "cell_get (rm_child_cgroups m) (int k) = Some (children_of m ! k)"
    using cs by (simp add: cell_get_def)
  have "cg_ok (children_of m ! k)" using cs(6) k by (metis length_children [OF assms(1)] nth_mem)
  then have f: "free_block (cg_pids (children_of m ! k)) = Some Dangling" by (auto simp: cg_ok_def free_block_def)
  let ?c = "(children_of m ! k)\<lparr>cg_pids := Dangling\<rparr>"
  let ?m = "m\<lparr>rm_child_cgroups := Live (cs[k := ?c])\<rparr>"
  have "cell_set (rm_child_cgroups m) (int k) ?c = Some (Live (cs[k := ?c]))" using cs k by (simp add: cell_set_def)
  with c f assms(3) have d: "delete_child_at K m k fs = Some (-1, ?m, fs)"
    by (auto simp: delete_child_at_def rmdir_def)
  have t: "take (rm_child_count m) (cs[k := ?c]) = (children_of m)[k := ?c]" using cs(5) k by (simp add: take_update_inside)
  have dang: "cs[k := ?c] ! k = ?c" using k cs by simp
  have mem: "?c \<in> set ((children_of m)[k := ?c])"
    using k length_children [OF assms(1)] by (intro set_update_memI) simp
  have again: "find_index (\<lambda>c. str_eq (cg_name c) n) ((children_of m)[k := ?c]) = Some k"
  proof (rule find_indexI)
    show "k < length ((children_of m)[k := ?c])" using k length_children [OF assms(1)] by simp
    show "str_eq (cg_name ((children_of m)[k := ?c] ! k)) n"
      using find_index_holds [OF assms(2)] k length_children [OF assms(1)] by simp
    show "\<not> str_eq (cg_name ((children_of m)[k := ?c] ! j)) n" if "j < k" for j
      using find_index_SomeD [OF assms(2)] that by simp
  qed
  have stuck: "delete_children K' ?m fs' = None" for K' fs'
  proof (rule dangling_stuck)
    have nn: "cg_pids c \<noteq> Null" if "c \<in> set (children_of m)" for c
    proof -
      have "cg_ok c" using cs(6) that by blast
      then show ?thesis by (auto simp: cg_ok_def)
    qed
    have "cg_pids c \<noteq> Null" if "c \<in> set ((children_of m)[k := ?c])" for c
    proof -
      have "c = ?c \<or> c \<in> set (children_of m)" using that set_update_subset_insert [of "children_of m" k ?c] by blast
      then show ?thesis
      proof
        assume "c = ?c"
        then show ?thesis by simp
      qed (rule nn)
    qed
    then show "\<forall>c \<in> set (take (rm_child_count ?m) (cs[k := ?c])). cg_pids c \<noteq> Null" using t by simp
    show "\<exists>c \<in> set (take (rm_child_count ?m) (cs[k := ?c])). cg_pids c = Dangling"
      using t mem by (intro bexI [of _ ?c]) simp_all
  qed (use i cs in simp_all)
  have "volcom_delete_child_cgroup K (Some m) (Some n) fs = Some (-1, Some ?m, fs)"
    using i assms(2) d by (simp add: volcom_delete_child_cgroup_def read_children [OF assms(1)])
  moreover have "volcom_delete_child_cgroup K' (Some ?m) (Some n) fs' = None" for K' fs'
    using i k cs again t dang delete_dangling [of ?m "cs[k := ?c]" k K' fs']
    by (simp add: volcom_delete_child_cgroup_def read_cells_def)
  moreover have "volcom_delete_main_cgroup K' (Some ?m) fs' = None" for K' fs'
    using i stuck by (simp add: volcom_delete_main_cgroup_def)
  moreover have "volcom_rcsmngr_cleanup (Some ?m) = None"
  proof -
    have "free_all gs = None" if "g \<in> set gs" "cg_pids g = Dangling" for g gs
      using that by (induction gs) (auto simp: free_block_def split: ptr.splits)
    from this [OF mem] have "free_all ((children_of m)[k := ?c]) = None" by simp
    then show ?thesis using k cs t by (simp add: volcom_rcsmngr_cleanup_def read_cells_def)
  qed
  moreover have "volcom_delete_main_cgroup K (Some m) fs = None" if "k = 0"
    using delete_children_step [OF i cs(1), of K fs] k cs(2,3) d that stuck i
    by (simp add: volcom_delete_main_cgroup_def)
  ultimately show ?thesis by blast
qed

section \<open>Long names\<close>

text \<open>a child created under a name of 64 characters or more gets its directory under the whole name,
  but is entered under the first 63 characters: no process can be put into the group under its name,
  and it cannot be deleted under it.\<close>
theorem long_child_name_lost:
  assumes "rm_ok m" and "cg_is_created (rm_main_cgroup m)" and "obliging K" and "NUL \<notin> set n" and "MAX_NAME_LEN \<le> length n"
    and "\<forall>g \<in> set (all_groups m). length (cstr (cg_name g)) < MAX_NAME_LEN"
    and "length (child_path m n) < MAX_PATH_LEN"
  shows "\<exists>m' fs'. volcom_create_child_cgroup K (Some j) (Some i) (Some m) (Some n) config fs = Some (0, Some m', fs') \<and>
    child_path m n \<in> set (fs_dirs fs') \<and>
    (\<forall>K' p fs''. volcom_add_pid_to_cgroup K' (Some i) (Some m') (Some n) p fs'' = Some (-1, Some m', fs'') \<and>
                volcom_delete_child_cgroup K' (Some m') (Some n) fs'' = Some (-1, Some m', fs''))"
proof -
  obtain m' fs' where m': "volcom_create_child_cgroup K (Some j) (Some i) (Some m) (Some n) config fs = Some (0, Some m', fs')"
    "rm_ok m'" "all_groups m' = all_groups m @ [new_child m n i]"
    "set (fs_dirs fs') = insert (cstr (cg_path (new_child m n i))) (set (fs_dirs fs))"
    by (rule create_child_obliging [OF assms(1-3), of j i n config fs]) blast
  have "cstr (cg_path (new_child m n i)) = child_path m n"
    using assms(7) by (simp add: new_child_path cstr_id [OF assms(4)])
  with m'(4) have dir: "child_path m n \<in> set (fs_dirs fs')" by simp
  have "length (cstr (cg_name g)) < MAX_NAME_LEN" if "g \<in> set (all_groups m')" for g
    using that assms(6) m'(3) by (auto simp: new_child_name MAX_NAME_LEN_def)
  then have ne: "\<not> str_eq n (cg_name g)" if "g \<in> set (all_groups m')" for g
    using that assms(5) cstr_id [OF assms(4)] by (fastforce simp: str_eq_def)
  then have "find_index (\<lambda>g. str_eq n (cg_name g)) (all_groups m') = None" by (simp add: find_index_None)
  then have a: "volcom_add_pid_to_cgroup K' (Some i) (Some m') (Some n) p fs'' = Some (-1, Some m', fs'')" for K' p fs''
    using m'(2) target_found [OF m'(2), of n] by (simp add: volcom_add_pid_to_cgroup_def)
  have "find_index (\<lambda>c. str_eq (cg_name c) n) (children_of m') = None"
    using ne by (auto simp: find_index_None all_groups_def str_eq_sym)
  then have "volcom_delete_child_cgroup K' (Some m') (Some n) fs'' = Some (-1, Some m', fs'')" for K' fs''
    using m'(2) by (simp add: volcom_delete_child_cgroup_def read_children)
  with a m'(1) dir show ?thesis by blast
qed

section \<open>A manager at work\<close>

definition demo_kernel :: cg_kernel where
  "demo_kernel = \<lparr>k_mkdir = \<lambda>_ _. True, k_rmdir = \<lambda>_ _. True, k_fopen = \<lambda>_ _. True, k_fprintf = \<lambda>_ _. True, k_flush = \<lambda>_ _. True\<rparr>"

definition demo_config :: config_s where
  "demo_config = zero_config\<lparr>cf_cpu_config := \<lparr>cc_allocated_logical_processors = 2, cc_allocated_cpu_share = 100\<rparr>\<rparr>"

definition demo_group :: "string \<Rightarrow> string \<Rightarrow> cgroup_info_s" where
  "demo_group n p = zero_cgroup\<lparr>cg_name := zbuf 64 n, cg_path := zbuf 512 p, cg_is_created := True,
     cg_pids := Live (replicate 10 0), cg_pid_capacity := 10\<rparr>"

text \<open>A main group \<open>v\<close> with one child \<open>c\<close>.\<close>

definition demo_manager :: volcom_rcsmngr_s where
  "demo_manager = zero_manager\<lparr>rm_main_cgroup := demo_group ''v'' ''/v'',
     rm_child_cgroups := Live (demo_group ''c'' ''/v/c'' # replicate 4 zero_cgroup),
     rm_child_count := 1, rm_child_capacity := 5, rm_is_initialized := True\<rparr>"

definition demo_fs :: cgfs where
  "demo_fs = \<lparr>fs_dirs = [''/v'', ''/v/c''], fs_log = []\<rparr>"

lemma demo_kernel_ok: "obliging demo_kernel" "accepting demo_kernel"
  by (simp_all add: demo_kernel_def obliging_def accepting_def)

lemma demo_group_simps [simp]:
  "NUL \<notin> set n \<Longrightarrow> length n < 64 \<Longrightarrow> cstr (cg_name (demo_group n p)) = n"
  "NUL \<notin> set p \<Longrightarrow> length p < 512 \<Longrightarrow> cstr (cg_path (demo_group n p)) = p"
  "cg_is_created (demo_group n p)" "cg_ok (demo_group n p)" "pids_of (demo_group n p) = []"
  by (simp_all add: demo_group_def cstr_zbuf cg_ok_def zero_cgroup_def live_part_def)

lemma demo_manager_children: "children_of demo_manager = [demo_group ''c'' ''/v/c'']"
  "rm_main_cgroup demo_manager = demo_group ''v'' ''/v''"
  by (simp_all add: demo_manager_def live_part_def)

lemma demo_all_groups: "all_groups demo_manager = [demo_group ''v'' ''/v'', demo_group ''c'' ''/v/c'']"
  by (simp add: all_groups_def demo_manager_children)

lemma demo_groups: "groups demo_manager = [(''v'', []), (''c'', [])]"
  by (simp add: groups_def demo_all_groups group_of_def)

lemma demo_manager_ok: "rm_ok demo_manager"
  by (simp add: rm_ok_def demo_manager_def)

lemma demo_sys_ok: "sys_ok demo_manager demo_fs"
  by (simp add: sys_ok_def demo_manager_ok demo_groups demo_manager_children demo_fs_def child_path_def
      MAX_PATH_LEN_def MAX_NAME_LEN_def)


theorem manager_started_witness:
  "\<exists>m m' fs'. volcom_rcsmngr_init True (Some (\<lambda>_. 0)) (Some (\<lambda>_. zero_cgroup)) (Some zero_manager) (Some ''v'') = Some (0, Some m) \<and>
    volcom_create_main_cgroup demo_kernel True (Some m) demo_config demo_fs = Some (0, Some m', fs') \<and> groups m' = [(''v'', [])]"
  using manager_started [of "''v''" demo_kernel demo_config "\<lambda>_. 0" "\<lambda>_. zero_cgroup" zero_manager demo_fs]
  by (auto simp: demo_kernel_ok demo_config_def MAX_NAME_LEN_def)

theorem delete_main_total_witness:
  "\<exists>m' fs'. volcom_delete_main_cgroup demo_kernel (Some demo_manager) demo_fs = Some (0, Some m', fs') \<and>
    fs_dirs fs' = [] \<and> fs_log fs' = [Rmdir ''/v/c'', Rmdir ''/v'']"
  using delete_main_total [OF demo_sys_ok demo_kernel_ok(1)]
  by (auto simp: demo_all_groups demo_manager_children demo_fs_def)

theorem kept_directory_double_free_witness:
  "\<exists>m'. volcom_delete_child_cgroup (demo_kernel\<lparr>k_rmdir := \<lambda>_ _. False\<rparr>) (Some demo_manager) (Some ''c'') demo_fs = Some (-1, Some m', demo_fs) \<and>
    volcom_delete_child_cgroup demo_kernel (Some m') (Some ''c'') demo_fs = None"
proof -
  have "find_index (\<lambda>c. str_eq (cg_name c) ''c'') (children_of demo_manager) = Some 0"
    by (simp add: demo_manager_children str_eq_def cstr_id)
  from kept_directory_double_free [OF demo_manager_ok this, of demo_fs "demo_kernel\<lparr>k_rmdir := \<lambda>_ _. False\<rparr>"]
  show ?thesis by auto
qed

theorem long_child_name_lost_witness:
  "\<exists>m' fs'. volcom_create_child_cgroup demo_kernel (Some (\<lambda>_. zero_cgroup)) (Some (\<lambda>_. 0)) (Some demo_manager)
      (Some (replicate 64 CHR ''x'')) demo_config demo_fs = Some (0, Some m', fs') \<and>
    volcom_add_pid_to_cgroup demo_kernel (Some (\<lambda>_. 0)) (Some m') (Some (replicate 64 CHR ''x'')) 7 fs' = Some (-1, Some m', fs')"
  using long_child_name_lost [OF demo_manager_ok, of demo_kernel "replicate 64 CHR ''x''" "\<lambda>_. zero_cgroup" "\<lambda>_. 0" demo_config demo_fs]
  by (auto simp: demo_manager_children demo_all_groups demo_kernel_ok child_path_def MAX_NAME_LEN_def MAX_PATH_LEN_def)

end
