(* ===== verification/Read_Frame.thy ===== *)
theory Read_Frame
  imports Employee
begin

text \<open>
  What the receiving functions leave alone: whatever they return, nothing is sent on the connection
  and the calls they make come off the front of the kernel's plan for it.
\<close>

definition reads :: "conn \<Rightarrow> conn \<Rightarrow> bool" where
  "reads c c' \<longleftrightarrow> tx c' = tx c \<and> set (plan c') \<subseteq> set (plan c)"

lemma reads_refl [simp]: "reads c c"
  by (simp add: reads_def)

lemma reads_trans [trans]: "reads c d \<Longrightarrow> reads d e \<Longrightarrow> reads c e"
  by (auto simp: reads_def)

lemma set_tl: "set (tl xs) \<subseteq> set xs"
  by (cases xs) auto

lemma reads_read: "sk_read n c = (k, bs, c') \<Longrightarrow> reads c c'"
  and reads_peek: "sk_peek n c = (k, bs, c') \<Longrightarrow> reads c c'"
  and reads_waitall: "sk_waitall n c = (k, bs, c') \<Longrightarrow> reads c c'"
  using set_tl [of "plan c"]
  by (auto simp: sk_read_def sk_peek_def sk_waitall_def reads_def split: option.splits)

lemma reads_recv_loop: "recv_loop len buf c = (r, c') \<Longrightarrow> reads c c'"
proof (induction len buf c rule: recv_loop.induct)
  case (1 len buf c)
  obtain n bs c1 where r: "sk_read (len - length buf) c = (n, bs, c1)" by (rule prod_cases3)
  note c1 = reads_read [OF r]
  show ?case
  proof (cases "length buf < len \<and> \<not> n \<le> 0")
    case True
    with "1.prems" r have "recv_loop len (buf @ bs) c1 = (r, c')" by (simp add: recv_loop.simps [of len buf c])
    with "1.IH" [OF _ r [symmetric] refl] True have "reads c1 c'" by simp
    with c1 show ?thesis by (rule reads_trans)
  next
    case False
    with "1.prems" r c1 show ?thesis by (auto simp: recv_loop.simps [of len buf c] split: if_splits)
  qed
qed

lemma reads_recv_content: "recv_content blk sz got c = (r, ok, c') \<Longrightarrow> reads c c'"
proof (induction blk sz got c rule: recv_content.induct)
  case (1 b sz got c)
  let ?n = "if length got + b > sz then sz - length got else b"
  obtain n bs c1 where r: "sk_read ?n c = (n, bs, c1)" by (rule prod_cases3)
  note c1 = reads_read [OF r]
  show ?case
  proof (cases "length got < sz \<and> \<not> n \<le> 0")
    case True
    with "1.prems" r have "recv_content b sz (got @ bs) c1 = (r, ok, c')"
      by (simp add: recv_content.simps [of b sz got c] Let_def)
    with "1.IH" [OF _ refl r [symmetric] refl] True have "reads c1 c'" by simp
    with c1 show ?thesis by (rule reads_trans)
  next
    case False
    with "1.prems" r c1 show ?thesis by (auto simp: recv_content.simps [of b sz got c] Let_def split: if_splits)
  qed
qed

lemmas reads_steps = reads_read reads_peek reads_waitall reads_recv_loop reads_recv_content

lemma reads_recv_json: "recv_json J mem c = (st, j, c') \<Longrightarrow> reads c c'"
  by (auto simp: recv_json_def Let_def intro: reads_trans dest!: reads_steps
      split: prod.splits if_splits option.splits)

lemma reads_recv_json_peek: "recv_json_peek J mem out c = (st, j, c') \<Longrightarrow> reads c c'"
  by (auto simp: recv_json_peek_def Let_def intro: reads_trans dest!: reads_steps
      split: prod.splits if_splits option.splits)

lemma reads_sized:
  assumes "sk_waitall 4 c = (n, hdr, c1)" and "recv_content blk sz [] c1 = (got, ok, c2)"
  shows "reads c c2"
  using reads_waitall [OF assms(1)] reads_recv_content [OF assms(2)] by (rule reads_trans)

lemma reads_receive_task:
  assumes "receive_task_from_employer J jm dm can_write now task files c = (r, t, files', c')"
  shows "reads c c'"
proof -
  obtain st j c1 where j: "recv_json J jm c = (st, j, c1)" by (rule prod_cases3)
  obtain n hdr c2 where h: "sk_waitall 4 c1 = (n, hdr, c2)" by (rule prod_cases3)
  obtain got ok c3 where d: "recv_content 4096 (of_be32 hdr) [] c2 = (got, ok, c3)" by (rule prod_cases3)
  have "c' \<in> {c, c1, c2, c3}"
    using assms j h d
    by (auto simp: receive_task_from_employer_def Let_def
        split: option.splits protocol_status_t.splits if_splits)
  with reads_recv_json [OF j] reads_waitall [OF h] reads_sized [OF h d] show ?thesis
    by (auto intro: reads_trans)
qed

text \<open>A connection on which every call is served up to the largest message with its length.\<close>

definition generous :: "conn \<Rightarrow> bool" where
  "generous c \<longleftrightarrow> (\<forall>k \<in> set (plan c). 65540 \<le> k)"

lemma generous_reads: "generous c \<Longrightarrow> reads c c' \<Longrightarrow> generous c'"
  by (auto simp: generous_def reads_def)

lemma generous_patient: "generous c \<Longrightarrow> patient c"
  and generous_full_sends: "generous c \<Longrightarrow> full_sends c"
  by (auto simp: generous_def patient_def full_sends_def)

lemma generous_serves: "generous c \<Longrightarrow> n \<le> 65540 \<Longrightarrow> serves n c"
  by (cases "plan c") (auto simp: generous_def serves_def)

lemma generous_tl: "generous c \<Longrightarrow> plan d = tl (plan c) \<Longrightarrow> generous d"
  using set_tl [of "plan c"] by (auto simp: generous_def)

end
