(* ===== verification/Employee_Proofs.thy ===== *)
theory Employee_Proofs
  imports Task_Delivery Employee_Run Control_Groups Read_Frame
begin

text \<open>
  The running employee: a data chunk travels from the employer's file into the buffer, from the
  buffer through the node script into a result file and its queue, and back. Then what every
  schedule keeps, and where the threads get in each other's way.
\<close>

section \<open>Descriptors\<close>

lemma set_conn_simps [simp]:
  "em_running (set_conn fd c s) = em_running s" "em_buffer (set_conn fd c s) = em_buffer s"
  "em_results (set_conn fd c s) = em_results s" "em_status (set_conn fd c s) = em_status s"
  "em_node_started (set_conn fd c s) = em_node_started s" "em_unix_connected (set_conn fd c s) = em_unix_connected s"
  "em_files (set_conn fd c s) = em_files s" "em_threads (set_conn fd c s) = em_threads s"
  "em_manager (set_conn fd c s) = em_manager s" "em_cgfs (set_conn fd c s) = em_cgfs s" "em_lost (set_conn fd c s) = em_lost s"
  by (simp_all add: set_conn_def)

lemma conn_of_set_conn [simp]: "conn_of fd (set_conn fd c s) = c"
  by (simp add: conn_of_def set_conn_def)

lemma conn_of_simps [simp]:
  "conn_of fd (s\<lparr>em_buffer := b\<rparr>) = conn_of fd s" "conn_of fd (s\<lparr>em_results := q\<rparr>) = conn_of fd s"
  "conn_of fd (s\<lparr>em_files := f\<rparr>) = conn_of fd s" "conn_of fd (s\<lparr>em_status := st\<rparr>) = conn_of fd s"
  "conn_of fd (s\<lparr>em_threads := t\<rparr>) = conn_of fd s"
  by (simp_all add: conn_of_def)

section \<open>A message and its file\<close>

text \<open>What the employee makes of any message with the four texts, followed by a sized file.\<close>

lemma receive_task_frame:
  assumes "json_text J j s" and "length s \<le> 65536" and "patient d"
    and "rx d = frame s @ be32 (length content) @ content @ rest" and "0 < length content" and "length content \<le> 100 * 1024 * 1024"
    and "j_string J j ''task_id'' = Some tid" and "j_string J j ''chunk_filename'' = Some f"
    and "j_string J j ''sender_id'' = Some ip" and "j_string J j ''message_type'' = Some mt"
    and "NUL \<notin> set tid" and "length tid \<le> 254" and "NUL \<notin> set ip" and "length ip \<le> 62"
  shows "\<exists>t d' files'. receive_task_from_employer J True True can_write now (Some zero_task) files d = (0, Some t, files', d') \<and>
    rt_data t = Live content \<and> unat (rt_data_size t) = length content \<and> cstr (rt_task_id t) = tid \<and>
    cstr (rt_sender_id t) = ip \<and> rx d' = rest"
proof -
  have small: "length content < 2 ^ 32" using assms(6) by simp
  from recv_json_frame [OF assms(1-4)] obtain d1 where
    d1: "recv_json J True d = (PROTOCOL_OK, Some j, d1)" "rx d1 = be32 (length content) @ content @ rest" "patient d1"
    by blast
  from receive_sized [OF d1(3,2) small, of 4096] obtain d2 d3 where
    d: "sk_waitall 4 d1 = (4, be32 (length content), d2)" "recv_content 4096 (length content) [] d2 = (content, True, d3)"
      "rx d3 = rest" by auto
  have id: "cstr (strncpy (rt_task_id zero_task) tid 255) = tid"
    using assms(11,12) strncpy_fits(1) [of tid 255 "replicate 256 NUL"] by (simp add: cstr_id zero_task_def)
  have ip: "cstr (strncpy (rt_sender_id zero_task) ip 63) = ip"
    using assms(13,14) strncpy_fits(1) [of ip 63 "replicate 64 NUL"] by (simp add: cstr_id zero_task_def)
  have w: "unat (word_of_nat (length content) :: u64) = length content"
    using small by (simp add: unat_of_nat)
  let ?p = "take 511 (''/tmp/employee_task_'' @ cstr (strncpy (rt_task_id zero_task) tid 255))"
  show ?thesis
    using d1(1) d assms(5-10) small id ip w
    by (cases "can_write ?p") (simp_all add: receive_task_from_employer_def Let_def)
qed

text \<open>The peek that comes first sees the same message and leaves it there, when the kernel hands
  over the whole frame at once.\<close>

definition peeks_whole :: "nat \<Rightarrow> conn \<Rightarrow> bool" where
  "peeks_whole n d \<longleftrightarrow> serves 4 d \<and> serves (4 + n) (d\<lparr>plan := tl (plan d)\<rparr>) \<and> patient (d\<lparr>plan := tl (tl (plan d))\<rparr>)"

lemma peek_frame:
  assumes "json_text J j s" and "length s \<le> 65536" and "peeks_whole (length s) d" and "rx d = frame s @ rest"
  shows "\<exists>d'. recv_json_peek J True True d = (PROTOCOL_OK, Some j, d') \<and> rx d' = rx d \<and> patient d'"
proof -
  have s: "cstr s = s" "j_parse J s = Some j" using assms(1) by (auto simp: json_text_def cstr_id)
  let ?d1 = "d\<lparr>plan := tl (plan d)\<rparr>"
  have "sk_peek 4 d = (4, be32 (length s), ?d1)"
    using sk_peek_serves [of 4 d] assms(3,4) by (simp add: frame_def peeks_whole_def)
  moreover have "sk_peek (4 + length s) ?d1 = (int (4 + length s), frame s, ?d1\<lparr>plan := tl (plan ?d1)\<rparr>)"
    using sk_peek_serves [of "4 + length s" ?d1] assms(3,4) by (simp add: frame_def peeks_whole_def)
  ultimately show ?thesis
    using s assms(2,3) by (simp add: recv_json_peek_def Let_def MAX_JSON_SIZE_def frame_def peeks_whole_def)
qed

section \<open>From the employer into the buffer\<close>

lemma send_no_result:
  "result_queue_inv (em_results s) \<Longrightarrow> result_queue_items (em_results s) = [] \<Longrightarrow> send_one_result J fd s = Some s"
  using result_queue_count [of "em_results s"]
  by (simp add: send_one_result_def is_result_queue_empty_def result_queue_inv_Unlocked)

lemma chunk_arrives:
  assumes "json_text J j s" and "length s \<le> 65536" and "peeks_whole (length s) (conn_of fd e)"
    and "rx (conn_of fd e) = frame s @ be32 (length content) @ content @ rest" and "0 < length content"
    and "length content \<le> 100 * 1024 * 1024"
    and "j_string J j ''task_id'' = Some tid" and "j_string J j ''chunk_filename'' = Some f"
    and "j_string J j ''sender_id'' = Some ip" and "j_string J j ''message_type'' = Some ''data_chunk''"
    and "NUL \<notin> set tid" and "length tid \<le> 254" and "NUL \<notin> set ip" and "length ip \<le> 62"
    and "task_buffer_inv (em_buffer e)" and "int (length (task_buffer_items (em_buffer e))) < tb_capacity (em_buffer e)"
    and "result_queue_inv (em_results e)" and "result_queue_items (em_results e) = []"
    and "cni_select inp = Sel_readable" and "cni_peek_mem inp" and "cni_json_mem inp" and "cni_data_mem inp"
  shows "\<exists>d files b t. conn_round J inp fd e = Some (True, (set_conn fd d e)\<lparr>em_files := files, em_buffer := b\<rparr>) \<and>
    reads (conn_of fd e) d \<and> rx d = rest \<and> task_buffer_inv b \<and>
    task_buffer_items b = task_buffer_items (em_buffer e) @ [t] \<and>
    rt_data t = Live content \<and> unat (rt_data_size t) = length content \<and> cstr (rt_task_id t) = tid \<and>
    cstr (rt_sender_id t) = ip"
proof -
  from peek_frame [OF assms(1-4)] obtain d1 where
    d1: "recv_json_peek J True True (conn_of fd e) = (PROTOCOL_OK, Some j, d1)" "rx d1 = rx (conn_of fd e)" "patient d1"
    by blast
  from receive_task_frame [OF assms(1,2) d1(3) _ assms(5-14), of rest "cni_can_write inp" "cni_now inp" "em_files e"]
    d1(2) assms(4) obtain t d' files' where
    t: "receive_task_from_employer J True True (cni_can_write inp) (cni_now inp) (Some zero_task) (em_files e) d1 = (0, Some t, files', d')"
      "rt_data t = Live content" "unat (rt_data_size t) = length content" "cstr (rt_task_id t) = tid"
      "cstr (rt_sender_id t) = ip" "rx d' = rest" by auto
  have "tb_count (em_buffer e) < tb_capacity (em_buffer e)" using task_buffer_count [OF assms(15)] assms(16) by simp
  from add_task_room [OF assms(15) this, of t] obtain b where
    b: "add_task_to_buffer (em_buffer e) t = Some (0, b)" "task_buffer_inv b"
      "task_buffer_items b = task_buffer_items (em_buffer e) @ [t]" by blast
  let ?e = "(set_conn fd d' e)\<lparr>em_files := files', em_buffer := b\<rparr>"
  have "employer_message J inp fd e = Some (True, ?e)"
    using d1(1) t(1) b(1) assms(10,20-22) by (simp add: employer_message_def Let_def set_conn_def)
  moreover have "send_one_result J fd ?e = Some ?e" using assms(17,18) by (intro send_no_result) simp_all
  ultimately have "conn_round J inp fd e = Some (True, ?e)" using assms(19) by (simp add: conn_round_def)
  moreover have "reads (conn_of fd e) d'"
    using reads_recv_json_peek [OF d1(1)] reads_receive_task [OF t(1)] by (rule reads_trans)
  ultimately show ?thesis using b t by blast
qed


section \<open>From the buffer through the node script\<close>

lemma client_send:
  assumes "client_ready u" and "serves (length (cstr bs)) (client_conn u)"
  shows "\<exists>u'. unix_socket_client_send_message (Some bs) u = (True, u') \<and> client_ready u' \<and>
    rx (client_conn u') = rx (client_conn u) \<and> tx (client_conn u') = tx (client_conn u) @ cstr bs"
proof -
  let ?fd = "unix_client_sockfd u"
  let ?c = "os_conn (unix_os u) ?fd"
  let ?c' = "?c\<lparr>tx := tx ?c @ cstr bs, plan := tl (plan ?c)\<rparr>"
  let ?u = "u\<lparr>unix_os := (unix_os u)\<lparr>os_conn := (os_conn (unix_os u))(?fd := ?c')\<rparr>\<rparr>"
  have "sk_write (cstr bs) ?c = (int (length (cstr bs)), ?c')"
    using assms(2) by (intro sk_write_serves) (simp add: client_conn_def)
  then have "unix_socket_client_send_message (Some bs) u = (True, ?u)"
    using assms(1) by (simp add: unix_socket_client_send_message_def send_text_def sys_send_def client_ready_def)
  moreover have "willing ?c'"
    using assms(1) by (cases "plan ?c") (simp_all add: client_ready_def client_conn_def willing_def)
  ultimately show ?thesis using assms(1) by (intro exI [of _ ?u]) (simp add: client_ready_def client_conn_def)
qed

lemma receive_keeps_tx:
  assumes "unix_socket_client_receive_message b n u = Some (k, b', u')"
  shows "tx (client_conn u') = tx (client_conn u) \<and> unix_client_sockfd u' = unix_client_sockfd u"
proof -
  obtain r bs c where r: "sk_read (n - 1) (os_conn (unix_os u) (unix_client_sockfd u)) = (r, bs, c)" by (rule prod_cases3)
  have "tx c = tx (os_conn (unix_os u) (unix_client_sockfd u))"
    using r by (auto simp: sk_read_def split: option.splits)
  with assms r show ?thesis
    by (auto simp: unix_socket_client_receive_message_def receive_text_def sys_recv_def client_conn_def
        split: option.splits if_splits)
qed

text \<open>What no receive changes, the JSON reader does not change.\<close>

lemma json_loop_frame:
  assumes "\<And>u k b u'. unix_socket_client_receive_message (Some (replicate 1024 NUL)) 1023 u = Some (k, b, u') \<Longrightarrow> f u' = f u"
  shows "json_loop n sc got u = Some (k, got', u') \<Longrightarrow> f u' = f u"
proof (induction n sc got u rule: json_loop.induct)
  case (1 n sc got u)
  show ?case
  proof (cases "length got < n - 1")
    case False
    with "1.prems" show ?thesis by (simp add: json_loop.simps [of n sc got u])
  next
    case True
    obtain k1 tmp u1 where r: "unix_socket_client_receive_message (Some (replicate 1024 NUL)) 1023 u = Some (k1, tmp, u1)"
      using "1.prems" True by (auto simp: json_loop.simps [of n sc got u] split: option.splits)
    note t = assms [OF r]
    show ?thesis
    proof (cases "k1 \<le> 0")
      case True
      with "1.prems" \<open>length got < n - 1\<close> r t show ?thesis
        by (auto simp: json_loop.simps [of n sc got u] split: if_splits)
    next
      case False
      let ?chunk = "take (if length got + nat k1 \<ge> n then n - length got - 1 else nat k1) (the tmp)"
      obtain sc' fin where s: "scan_chunk sc ?chunk = (sc', fin)" by fastforce
      show ?thesis
      proof (cases fin)
        case True
        with "1.prems" \<open>length got < n - 1\<close> r t False s show ?thesis
          by (auto simp: json_loop.simps [of n sc got u] Let_def)
      next
        case nf: False
        have "json_loop n sc' (got @ ?chunk) u1 = Some (k, got', u')"
          using "1.prems" True r False s nf by (simp add: json_loop.simps [of n sc got u] Let_def)
        from "1.IH" [OF True r refl refl False refl refl s [symmetric] nf this] t show ?thesis by simp
      qed
    qed
  qed
qed

lemma json_loop_keeps_tx: "json_loop n sc got u = Some (k, got', u') \<Longrightarrow> tx (client_conn u') = tx (client_conn u)"
  by (rule json_loop_frame [where f = "\<lambda>u. tx (client_conn u)"]) (simp_all add: receive_keeps_tx)

text \<open>Every connection but the node script's, with the descriptor that names it.\<close>

definition others :: "unix_sockets \<Rightarrow> int \<times> (int \<Rightarrow> conn option)" where
  "others u = (unix_client_sockfd u, \<lambda>fd. if fd = unix_client_sockfd u then None else Some (os_conn (unix_os u) fd))"

lemma others_conn:
  assumes "others u' = others u" and "fd \<noteq> unix_client_sockfd u"
  shows "os_conn (unix_os u') fd = os_conn (unix_os u) fd" and "unix_client_sockfd u' = unix_client_sockfd u"
proof -
  show fd: "unix_client_sockfd u' = unix_client_sockfd u" using assms(1) by (simp add: others_def)
  have "snd (others u') fd = snd (others u) fd" using assms(1) by simp
  with fd assms(2) show "os_conn (unix_os u') fd = os_conn (unix_os u) fd" by (simp add: others_def)
qed

lemma client_send_others: "unix_socket_client_send_message m u = (r, u') \<Longrightarrow> others u' = others u"
  by (auto simp: unix_socket_client_send_message_def send_text_def sys_send_def others_def
      split: option.splits if_splits prod.splits)

lemma client_receive_others: "unix_socket_client_receive_message b n u = Some (k, b', u') \<Longrightarrow> others u' = others u"
  by (auto simp: unix_socket_client_receive_message_def receive_text_def sys_recv_def others_def
      split: option.splits if_splits prod.splits)

lemma read_response_others:
  assumes "read_response u = Some (k, text, u')"
  shows "others u' = others u"
proof -
  obtain n got u1 where j: "receive_complete_json_response True (RESPONSE_SIZE - 1) u = Some (n, got, u1)"
    using assms by (auto simp: read_response_def split: Option.bind_splits)
  have "others u1 = others u"
    using j json_loop_frame [where f = others, OF client_receive_others]
    by (auto simp: receive_complete_json_response_def split: if_splits)
  with assms j client_receive_others show ?thesis
    by (fastforce simp: read_response_def split: Option.bind_splits if_splits)
qed

lemma response_read:
  assumes "object_text js" and "length js < RESPONSE_SIZE - 1" and "NUL \<notin> set js"
    and "client_ready u" and "rx (client_conn u) = js"
  shows "\<exists>u'. read_response u = Some (int (length js), js, u') \<and> 0 < length js \<and> tx (client_conn u') = tx (client_conn u)"
proof -
  have js: "js \<noteq> []" using assms(1) by (auto simp: object_text_def)
  with json_loop_complete [of "[]" js "RESPONSE_SIZE - 1" u scan_start] assms obtain u' where
    u': "json_loop (RESPONSE_SIZE - 1) scan_start [] u = Some (int (length js), js, u')" by auto
  have "RESPONSE_SIZE - 1 \<noteq> 0" by (simp add: RESPONSE_SIZE_def)
  with u' js assms(3) json_loop_keeps_tx [OF u'] show ?thesis
    by (simp add: read_response_def receive_complete_json_response_def cstr_id)
qed

definition result_path :: "string \<Rightarrow> string" where
  "result_path tid = ''/tmp/node_result_'' @ tid @ ''.json''"

definition node_result :: "received_task_t \<Rightarrow> result_info_t" where
  "node_result t = zero_result\<lparr>
     ri_task_id := strncpy (ri_task_id zero_result) (rt_task_id t) 255,
     ri_employer_ip := strncpy (ri_employer_ip zero_result) (rt_sender_id t) 15,
     ri_result_filepath := strncpy (ri_result_filepath zero_result) (result_path (cstr (rt_task_id t))) 255\<rparr>"

lemma node_result_fields:
  assumes "length (cstr (rt_task_id t)) \<le> 230"
  shows "cstr (ri_task_id (node_result t)) = cstr (rt_task_id t)"
    "cstr (ri_employer_ip (node_result t)) = take 15 (cstr (rt_sender_id t))"
    "cstr (ri_result_filepath (node_result t)) = result_path (cstr (rt_task_id t))"
proof -
  have "NUL \<notin> set (result_path (cstr (rt_task_id t)))" by (simp add: result_path_def)
  with assms strncpy_fits(1) [of "rt_task_id t" 255 "replicate 256 NUL"]
    strncpy_last_NUL(1) [of "replicate 16 NUL" 15 "rt_sender_id t"]
    strncpy_fits(1) [of "result_path (cstr (rt_task_id t))" 255 "replicate 256 NUL"]
  show "cstr (ri_task_id (node_result t)) = cstr (rt_task_id t)"
    "cstr (ri_employer_ip (node_result t)) = take 15 (cstr (rt_sender_id t))"
    "cstr (ri_result_filepath (node_result t)) = result_path (cstr (rt_task_id t))"
    by (simp_all add: node_result_def zero_result_def cstr_id result_path_def)
qed

text \<open>Work on a chunk that is sent and answered.\<close>

lemma work_answered:
  assumes "rt_data t = Live bs" and "NUL \<in> set bs"
    and "unix_socket_client_send_message (Some bs) (em_unix s) = (True, u1)"
    and "read_response u1 = Some (int (length js), js, u2)" and "0 < length js"
    and "skip_blanks js = js" and "j_parse J js = Some j" and "j_string J j ''status'' = Some st"
    and "wi_malloc inp" and "wi_can_write inp (result_path (cstr (rt_task_id t)))" and "length (cstr (rt_task_id t)) \<le> 230"
    and "add_result_to_queue (em_results s) (node_result t) = Some (0, q)" and "object_text js"
  shows "work_on J inp t s =
    Some (False, s\<lparr>em_unix := u2, em_files := (em_files s)(result_path (cstr (rt_task_id t)) \<mapsto> js), em_results := q\<rparr>)"
proof -
  have "''/tmp/node_result_'' @ cstr (rt_task_id t) @ ''.json'' = result_path (cstr (rt_task_id t))"
    "take 511 (result_path (cstr (rt_task_id t))) = result_path (cstr (rt_task_id t))"
    using assms(11) by (simp_all add: result_path_def)
  with assms show ?thesis
    by (simp add: work_on_def block_text_def handle_response_def zero_result_def Let_def node_result_def)
qed

lemma chunk_answered:
  assumes "em_node_started s" and "em_unix_connected s" and "task_buffer_inv (em_buffer s)"
    and "task_buffer_items (em_buffer s) = t # ts" and "rt_data t = Live bs" and "NUL \<in> set bs"
    and "client_ready (em_unix s)" and "serves (length (cstr bs)) (client_conn (em_unix s))"
    and "rx (client_conn (em_unix s)) = js" and "object_text js" and "length js < RESPONSE_SIZE - 1" and "NUL \<notin> set js"
    and "skip_blanks js = js" and "j_parse J js = Some j" and "j_string J j ''status'' = Some st"
    and "wi_malloc inp" and "wi_can_write inp (result_path (cstr (rt_task_id t)))" and "length (cstr (rt_task_id t)) \<le> 230"
    and "result_queue_inv (em_results s)" and "int (length (result_queue_items (em_results s))) < rq_capacity (em_results s)"
  shows "\<exists>b u q. worker_round J inp s = Some (s\<lparr>em_buffer := b, em_unix := u,
      em_files := (em_files s)(result_path (cstr (rt_task_id t)) \<mapsto> js), em_results := q\<rparr>) \<and>
    task_buffer_inv b \<and> task_buffer_items b = ts \<and> others u = others (em_unix s) \<and>
    tx (client_conn u) = tx (client_conn (em_unix s)) @ cstr bs \<and> result_queue_inv q \<and>
    result_queue_items q = result_queue_items (em_results s) @ [node_result t]"
proof -
  let ?id = "cstr (rt_task_id t)"
  have "tb_count (em_buffer s) \<noteq> 0" using task_buffer_count [OF assms(3)] assms(4) by auto
  from get_task_some [OF assms(3) this] assms(4) obtain b where
    b: "get_task_from_buffer (em_buffer s) = Some (0, Some t, b)" "task_buffer_inv b" "task_buffer_items b = ts" by auto
  from client_send [OF assms(7,8)] obtain u1 where
    u1: "unix_socket_client_send_message (Some bs) (em_unix s) = (True, u1)" "client_ready u1"
      "rx (client_conn u1) = js" "tx (client_conn u1) = tx (client_conn (em_unix s)) @ cstr bs" using assms(9) by auto
  from response_read [OF assms(10,11,12) u1(2,3)] obtain u2 where
    u2: "read_response u1 = Some (int (length js), js, u2)" "0 < length js" "tx (client_conn u2) = tx (client_conn u1)" by blast
  have "rq_count (em_results s) < rq_capacity (em_results s)" using result_queue_count [OF assms(19)] assms(20) by simp
  from add_result_room [OF assms(19) this, of "node_result t"] obtain q where
    q: "add_result_to_queue (em_results s) (node_result t) = Some (0, q)" "result_queue_inv q"
      "result_queue_items q = result_queue_items (em_results s) @ [node_result t]" by blast
  let ?s = "s\<lparr>em_buffer := b, em_unix := u2, em_files := (em_files s)(result_path ?id \<mapsto> js), em_results := q\<rparr>"
  have "work_on J inp t (s\<lparr>em_buffer := b\<rparr>) = Some (False, ?s)"
    using work_answered [OF assms(5,6) _ u2(1,2) assms(13-18) _ assms(10), of "s\<lparr>em_buffer := b\<rparr>" q] u1(1) q(1) by simp
  then have "worker_round J inp s = Some ?s"
    using assms(1,2) b by (simp add: worker_round_def is_task_buffer_empty_def task_buffer_inv_Unlocked)
  moreover have "others u2 = others (em_unix s)"
    using client_send_others [OF u1(1)] read_response_others [OF u2(1)] by simp
  ultimately show ?thesis using b(2,3) u1(4) u2(3) q(2,3)
    by (intro exI [of _ b] exI [of _ u2] exI [of _ q]) simp
qed


section \<open>Every schedule\<close>

definition emp_inv :: "employee \<Rightarrow> bool" where
  "emp_inv s \<longleftrightarrow> task_buffer_inv (em_buffer s) \<and> result_queue_inv (em_results s)"

definition emp_open :: "employee \<Rightarrow> int list" where
  "emp_open s = os_open (unix_os (em_unix s))"

lemma add_task_keeps:
  "task_buffer_inv b \<Longrightarrow> add_task_to_buffer b t = Some (r, b') \<Longrightarrow> task_buffer_inv b' \<and> tb_capacity b' = tb_capacity b"
  using add_task_room [of b t] add_task_full [of b t] task_buffer_bounds [of b]
  by (cases "tb_count b < tb_capacity b") auto

lemma add_result_inv:
  "result_queue_inv q \<Longrightarrow> add_result_to_queue q t = Some (r, q') \<Longrightarrow> result_queue_inv q' \<and> rq_capacity q' = rq_capacity q"
  using add_result_room [of q t] add_result_full [of q t] result_queue_bounds [of q]
  by (cases "rq_count q < rq_capacity q") auto

lemma get_task_inv:
  "task_buffer_inv b \<Longrightarrow> get_task_from_buffer b = Some (r, t, b') \<Longrightarrow> task_buffer_inv b' \<and> tb_capacity b' = tb_capacity b"
  using get_task_some [of b] get_task_empty [of b] by (cases "tb_count b = 0") auto

lemma is_task_empty: "task_buffer_inv b \<Longrightarrow> is_task_buffer_empty b = Some (tb_count b = 0, b)"
  and is_result_empty: "result_queue_inv q \<Longrightarrow> is_result_queue_empty q = Some (rq_count q = 0, q)"
  by (simp_all add: is_task_buffer_empty_def is_result_queue_empty_def task_buffer_inv_Unlocked result_queue_inv_Unlocked)

text \<open>Sending one result: the first of the queue, which goes to its end when it cannot be sent.\<close>

lemma send_one_result_cases:
  assumes "result_queue_inv (em_results s)" and "send_one_result J fd s = Some s'"
  shows "result_queue_inv (em_results s') \<and> em_buffer s' = em_buffer s \<and> emp_open s' = emp_open s \<and> em_lost s' = em_lost s \<and>
    (case result_queue_items (em_results s) of
       [] \<Rightarrow> s' = s
     | r # rs \<Rightarrow>
         (if fst (send_result_to_employer J (em_files s) fd (Some r) (conn_of fd s)) = 0
          then result_queue_items (em_results s') = rs \<and>
            ag_tasks_completed (em_status s') = ag_tasks_completed (em_status s) + 1
          else result_queue_items (em_results s') = rs @ [r] \<and>
            ag_tasks_failed (em_status s') = ag_tasks_failed (em_status s) + 1))"
proof (cases "rq_count (em_results s) = 0")
  case True
  with assms result_queue_count [OF assms(1)] show ?thesis
    by (auto simp: send_one_result_def is_result_empty)
next
  case False
  from get_result_some [OF assms(1) False] obtain r q where
    q: "get_result_from_queue (em_results s) = Some (0, Some r, q)" "result_queue_inv q"
      "result_queue_items (em_results s) = r # result_queue_items q" "rq_capacity q = rq_capacity (em_results s)" by blast
  obtain k c where k: "send_result_to_employer J (em_files s) fd (Some r) (conn_of fd s) = (k, c)" by fastforce
  have "rq_count q < rq_capacity q"
    using q result_queue_count [OF q(2)] result_queue_count [OF assms(1)] result_queue_bounds [OF assms(1)] by simp
  from add_result_room [OF q(2) this, of r] obtain q' where
    q': "add_result_to_queue q r = Some (0, q')" "result_queue_inv q'" "result_queue_items q' = result_queue_items q @ [r]" by blast
  have e: "is_result_queue_empty (em_results s) = Some (False, em_results s)"
    using False assms(1) by (simp add: is_result_empty)
  show ?thesis
    using assms(2) q q' k e by (auto simp: send_one_result_def emp_open_def set_conn_def conn_of_def Let_def split: if_splits)
qed

lemma set_conn_open [simp]: "emp_open (set_conn fd c s) = emp_open s"
  by (simp add: emp_open_def set_conn_def)

lemma emp_open_simps [simp]:
  "emp_open (s\<lparr>em_buffer := b\<rparr>) = emp_open s" "emp_open (s\<lparr>em_results := q\<rparr>) = emp_open s"
  "emp_open (s\<lparr>em_files := f\<rparr>) = emp_open s" "emp_open (s\<lparr>em_threads := t\<rparr>) = emp_open s"
  "emp_open (s\<lparr>em_lost := l\<rparr>) = emp_open s" "emp_open (s\<lparr>em_running := b'\<rparr>) = emp_open s"
  "emp_open (s\<lparr>em_node_started := n\<rparr>) = emp_open s"
  by (simp_all add: emp_open_def)

lemma employer_message_keeps:
  assumes "emp_inv s" and "employer_message J inp fd s = Some (b, s')"
  shows "emp_inv s' \<and> emp_open s' = emp_open s"
proof -
  obtain st j c where p: "recv_json_peek J (cni_peek_mem inp) True (conn_of fd s) = (st, j, c)" by (rule prod_cases3)
  obtain r t fl c' where t: "receive_task_from_employer J (cni_json_mem inp) (cni_data_mem inp) (cni_can_write inp) (cni_now inp)
      (Some zero_task) (em_files s) c = (r, t, fl, c')" by (metis surj_pair)
  obtain x y c'' where u: "recv_json J (cni_json_mem inp) c = (x, y, c'')" by (rule prod_cases3)
  have a: "task_buffer_inv b'" if "add_task_to_buffer (em_buffer s) (the t) = Some (r', b')" for r' b'
    using add_task_keeps [OF _ that] assms(1) by (simp add: emp_inv_def)
  from assms p t u a show ?thesis
    by (auto simp: employer_message_def start_config_def emp_inv_def Let_def split: if_splits option.splits)
qed

lemma handle_response_keeps:
  assumes "emp_inv s" and "handle_response J inp t k text s = Some s'"
  shows "emp_inv s' \<and> emp_open s' = emp_open s"
proof -
  have a: "result_queue_inv q" if "add_result_to_queue (em_results s) r = Some (r', q)" for r r' q
    using add_result_inv [OF _ that] assms(1) by (simp add: emp_inv_def)
  from assms a show ?thesis
    by (auto simp: handle_response_def emp_inv_def Let_def split: if_splits option.splits)
qed

lemma client_calls_open:
  "unix_socket_client_send_message m u = (b, u') \<Longrightarrow> os_open (unix_os u') = os_open (unix_os u)"
  "unix_socket_client_receive_message m' n u = Some (k, b', u') \<Longrightarrow> os_open (unix_os u') = os_open (unix_os u)"
  by (auto simp: unix_socket_client_send_message_def unix_socket_client_receive_message_def receive_text_def
      dest: send_text_open sys_recv_open split: prod.splits option.splits if_splits)

lemma json_loop_open: "json_loop n sc got u = Some (k, got', u') \<Longrightarrow> os_open (unix_os u') = os_open (unix_os u)"
  by (rule json_loop_frame [where f = "\<lambda>u. os_open (unix_os u)"]) (simp_all add: client_calls_open)

lemma read_response_open: "read_response u = Some (k, text, u') \<Longrightarrow> os_open (unix_os u') = os_open (unix_os u)"
  by (auto simp: read_response_def receive_complete_json_response_def bind_eq_Some_conv RESPONSE_SIZE_def
      dest!: json_loop_open client_calls_open split: if_splits)

lemma emp_unix_simps [simp]:
  "emp_open (s\<lparr>em_unix := u\<rparr>) = os_open (unix_os u)" "emp_inv (s\<lparr>em_unix := u\<rparr>) = emp_inv s"
  "emp_inv (s\<lparr>em_lost := n\<rparr>) = emp_inv s" "emp_inv (s\<lparr>em_files := f\<rparr>) = emp_inv s"
  "emp_inv (s\<lparr>em_threads := t\<rparr>) = emp_inv s" "emp_inv (s\<lparr>em_running := r\<rparr>) = emp_inv s"
  "emp_inv (s\<lparr>em_node_started := n'\<rparr>) = emp_inv s" "emp_inv (s\<lparr>em_manager := m\<rparr>) = emp_inv s"
  "emp_inv (s\<lparr>em_cgfs := g\<rparr>) = emp_inv s" "emp_inv (s\<lparr>em_unix_connected := c\<rparr>) = emp_inv s"
  by (simp_all add: emp_open_def emp_inv_def)

lemma work_on_keeps:
  assumes "emp_inv s" and "work_on J inp t s = Some (b, s')"
  shows "emp_inv s' \<and> emp_open s' = emp_open s"
proof -
  obtain m where m: "block_text (rt_data t) = Some m" using assms(2) by (auto simp: work_on_def bind_eq_Some_conv)
  obtain sent u where u: "unix_socket_client_send_message m (em_unix s) = (sent, u)" by fastforce
  note o = client_calls_open(1) [OF u]
  show ?thesis
  proof (cases sent)
    case False
    with assms(2) m u obtain r buf where
      "add_task_to_buffer (em_buffer s) (if rt_data t = Null then t else t\<lparr>rt_data := Dangling\<rparr>) = Some (r, buf)"
      "s' = s\<lparr>em_unix := u, em_buffer := buf\<rparr>"
      by (auto simp: work_on_def bind_eq_Some_conv)
    with add_task_keeps assms(1) o show ?thesis by (auto simp: emp_inv_def emp_open_def)
  next
    case True
    show ?thesis
    proof (cases "wi_malloc inp")
      case False
      with assms m u True o show ?thesis by (auto simp: work_on_def emp_open_def)
    next
      case malloc: True
      with assms(2) m u True obtain k answer u2 where r: "read_response u = Some (k, answer, u2)"
        "if k > 0 then handle_response J inp t k answer (s\<lparr>em_unix := u2\<rparr>) = Some s'
         else s' = s\<lparr>em_unix := u2, em_lost := em_lost s + 1\<rparr>"
        by (auto simp: work_on_def bind_eq_Some_conv Let_def split: if_splits)
      note o2 = read_response_open [OF r(1)]
      show ?thesis
      proof (cases "k > 0")
        case True
        with r(2) handle_response_keeps [of "s\<lparr>em_unix := u2\<rparr>" J inp t k answer s'] assms(1) o o2 show ?thesis
          by (simp add: emp_open_def)
      next
        case False
        with r(2) assms(1) o o2 show ?thesis by (simp add: emp_open_def)
      qed
    qed
  qed
qed

lemma worker_round_keeps:
  assumes "emp_inv s" and "worker_round J inp s = Some s'"
  shows "emp_inv s' \<and> emp_open s' = emp_open s"
proof (cases "em_node_started s \<and> em_unix_connected s")
  case False
  with assms show ?thesis by (auto simp: worker_round_def)
next
  case True
  with assms(2) obtain r t buf where g: "get_task_from_buffer (em_buffer s) = Some (r, t, buf)"
    by (auto simp: worker_round_def bind_eq_Some_conv)
  have i: "emp_inv (s\<lparr>em_buffer := buf\<rparr>)" using get_task_inv [OF _ g] assms(1) by (simp add: emp_inv_def)
  have rest: "emp_inv s'" "emp_open s' = emp_open s1"
    if "emp_inv s1" and "s' = s1 \<or> (\<exists>e buf. is_task_buffer_empty (em_buffer s1) = Some (e, buf) \<and> s' = s1\<lparr>em_buffer := buf\<rparr>)" for s1
    using that by (auto simp: emp_inv_def is_task_empty)
  show ?thesis
  proof (cases t)
    case None
    with assms(2) True g rest [OF i] show ?thesis
      by (auto simp: worker_round_def bind_eq_Some_conv split: if_splits)
  next
    case (Some task)
    with assms(2) True g obtain again s1 where w: "work_on J inp task (s\<lparr>em_buffer := buf\<rparr>) = Some (again, s1)"
      "s' = s1 \<or> (\<exists>e buf. is_task_buffer_empty (em_buffer s1) = Some (e, buf) \<and> s' = s1\<lparr>em_buffer := buf\<rparr>)"
      by (auto simp: worker_round_def bind_eq_Some_conv split: if_splits)
    from work_on_keeps [OF i w(1)] rest [OF _ w(2)] show ?thesis by simp
  qed
qed

lemma conn_round_keeps:
  assumes "emp_inv s" and "conn_round J inp fd s = Some (b, s')"
  shows "emp_inv s' \<and> emp_open s' = emp_open s"
proof (cases "cni_select inp = Sel_failed")
  case True
  with assms show ?thesis by (simp add: conn_round_def)
next
  case False
  with assms(2) obtain g s1 where 1: "(if cni_select inp = Sel_readable then employer_message J inp fd s else Some (True, s)) = Some (g, s1)"
    "if g then send_one_result J fd s1 = Some s' else s' = s1"
    by (auto simp: conn_round_def bind_eq_Some_conv split: if_splits)
  have i: "emp_inv s1 \<and> emp_open s1 = emp_open s"
    using 1(1) assms(1) by (auto dest: employer_message_keeps split: if_splits)
  show ?thesis
  proof (cases g)
    case True
    with 1(2) i send_one_result_cases [of s1 J fd s'] show ?thesis by (simp add: emp_inv_def)
  qed (use 1(2) i in simp)
qed

lemma start_node_keeps:
  assumes "emp_inv s" and "start_node_thread K pm pid s = Some s'"
  shows "emp_inv s'"
proof -
  have "emp_inv (connect_loop n s) = emp_inv s" for n s
    by (induction n s rule: connect_loop.induct) (auto split: prod.splits)
  with assms show ?thesis
    by (auto simp: start_node_thread_def bind_eq_Some_conv Let_def split: if_splits prod.splits)
qed

lemma save_file_keeps: "save_file_thread cw args s = Some s' \<Longrightarrow> emp_inv s' = emp_inv s \<and> emp_open s' = emp_open s"
  by (auto simp: save_file_thread_def Let_def split: ptr.splits if_splits)

lemma broadcast_keeps:
  assumes "broadcast_round D sh ip p mem now s = Some s'"
  shows "emp_inv s' = emp_inv s \<and> emp_open s' = emp_open s"
  using assms setup_leaks_no_descriptor
  by (auto simp: broadcast_round_def emp_open_def Let_def split: if_splits)

lemma emp_event_keeps:
  assumes "emp_inv s" and "emp_event E fd ev s = Some (b, s')"
  shows "emp_inv s' \<and> ((\<forall>n cw pm pid. ev \<noteq> Ev_thread n cw pm pid) \<longrightarrow> emp_open s' = emp_open s)"
proof (cases ev)
  case (Ev_conn inp)
  with assms show ?thesis by (auto simp: emp_event_def dest: conn_round_keeps)
next
  case (Ev_worker inp)
  with assms show ?thesis by (auto simp: emp_event_def dest: worker_round_keeps)
next
  case (Ev_thread n cw pm pid)
  show ?thesis
  proof (cases "length (em_threads s) \<le> n")
    case True
    with assms Ev_thread show ?thesis by (simp add: emp_event_def)
  next
    case False
    let ?s = "s\<lparr>em_threads := take n (em_threads s) @ drop (Suc n) (em_threads s)\<rparr>"
    have "emp_inv ?s" using assms(1) by simp
    with assms(2) Ev_thread False start_node_keeps [of ?s] save_file_keeps [of cw _ ?s] show ?thesis
      by (cases "em_threads s ! n") (auto simp: emp_event_def)
  qed
next
  case (Ev_broadcast p mem now)
  with assms show ?thesis by (auto simp: emp_event_def dest: broadcast_keeps)
next
  case Ev_signal
  with assms show ?thesis by (auto simp: emp_event_def)
qed

lemma connection_loop_keeps:
  assumes "emp_inv s" and "connection_loop E fd evs s = Some s'"
  shows "emp_inv s' \<and> ((\<forall>n cw pm pid. Ev_thread n cw pm pid \<notin> set evs) \<longrightarrow> emp_open s' = emp_open s)"
  using assms
proof (induction evs arbitrary: s)
  case Nil
  then show ?case by auto
next
  case (Cons ev evs)
  show ?case
  proof (cases "em_running s")
    case False
    with Cons.prems show ?thesis by auto
  next
    case True
    with Cons.prems(2) obtain g s1 where 1: "emp_event E fd ev s = Some (g, s1)"
      "if g then connection_loop E fd evs s1 = Some s' else s' = s1"
      by (auto simp: bind_eq_Some_conv split: if_splits)
    note k = emp_event_keeps [OF Cons.prems(1) 1(1)]
    show ?thesis
    proof (cases g)
      case False
      with 1(2) k show ?thesis by auto
    next
      case g: True
      with 1(2) have "connection_loop E fd evs s1 = Some s'" by simp
      from Cons.IH [OF conjunct1 [OF k] this] k show ?thesis by auto
    qed
  qed
qed



section \<open>Where the threads get in each other's way\<close>

lemma front_chunk:
  assumes "task_buffer_inv b" and "task_buffer_items b = t # ts"
  obtains b' where "get_task_from_buffer b = Some (0, Some t, b')" "task_buffer_inv b'" "task_buffer_items b' = ts"
    "tb_count b' < tb_capacity b'"
proof -
  have "tb_count b \<noteq> 0" using task_buffer_count [OF assms(1)] assms(2) by auto
  from get_task_some [OF assms(1) this] assms(2) obtain b' where
    b: "get_task_from_buffer b = Some (0, Some t, b')" "task_buffer_inv b'" "task_buffer_items b' = ts" "tb_capacity b' = tb_capacity b"
    by auto
  with task_buffer_count [OF b(2)] task_buffer_count [OF assms(1)] task_buffer_bounds [OF assms(1)] assms(2) show ?thesis
    by (intro that) auto
qed

lemma unreadable_chunk:
  assumes "em_node_started s" and "em_unix_connected s" and "task_buffer_inv (em_buffer s)"
    and "task_buffer_items (em_buffer s) = t # ts" and "block_text (rt_data t) = None"
  shows "worker_round J inp s = None"
proof -
  obtain b where "get_task_from_buffer (em_buffer s) = Some (0, Some t, b)" by (rule front_chunk [OF assms(3,4)])
  with assms(1,2,5) show ?thesis by (simp add: worker_round_def work_on_def)
qed

text \<open>C32: a chunk that cannot be sent to the node script is put back into the buffer and then freed all the
  same: its entry points to freed memory, and the iteration of the worker that takes it out again
  has no defined result.\<close>
theorem requeued_chunk_is_freed:
  assumes "em_node_started s" and "em_unix_connected s" and "task_buffer_inv (em_buffer s)"
    and "task_buffer_items (em_buffer s) = [t]" and "rt_data t = Live bs" and "NUL \<in> set bs"
    and "unix_socket_client_send_message (Some bs) (em_unix s) = (False, u)"
  shows "\<exists>s'. worker_round J inp s = Some s' \<and> task_buffer_items (em_buffer s') = [t\<lparr>rt_data := Dangling\<rparr>] \<and>
    (\<forall>inp'. worker_round J inp' s' = None)"
proof -
  obtain b where b: "get_task_from_buffer (em_buffer s) = Some (0, Some t, b)" "task_buffer_inv b"
    "task_buffer_items b = []" "tb_count b < tb_capacity b"
    by (rule front_chunk [OF assms(3,4)])
  from add_task_room [OF b(2,4), of "t\<lparr>rt_data := Dangling\<rparr>"] b(3) obtain b' where
    b': "add_task_to_buffer b (t\<lparr>rt_data := Dangling\<rparr>) = Some (0, b')" "task_buffer_inv b'"
      "task_buffer_items b' = [t\<lparr>rt_data := Dangling\<rparr>]" by auto
  let ?s = "s\<lparr>em_buffer := b', em_unix := u\<rparr>"
  have "worker_round J inp s = Some ?s"
    using assms(1,2,5-7) b(1) b'(1,2) by (simp add: worker_round_def work_on_def block_text_def is_task_empty)
  moreover have "worker_round J inp' ?s = None" for inp'
    using assms(1,2) b'(2,3) by (intro unreadable_chunk) (auto simp: block_text_def)
  ultimately show ?thesis using b'(3) by (intro exI [of _ ?s]) simp
qed

text \<open>the data of a chunk is a block of exactly the size the employer sent, and the worker hands it to
  the node script as a C string: a chunk without a NUL byte in it, such as any text file, is read past
  the end of its block.\<close>
theorem chunk_read_past_end:
  assumes "em_node_started s" and "em_unix_connected s" and "task_buffer_inv (em_buffer s)"
    and "task_buffer_items (em_buffer s) = t # ts" and "rt_data t = Live bs" and "NUL \<notin> set bs"
  shows "worker_round J inp s = None"
  using assms by (intro unreadable_chunk) (auto simp: block_text_def)

lemma connect_loop_connected: "em_unix_connected s \<Longrightarrow> connect_loop n s = s"
  by (cases n) simp_all

lemma start_node_result:
  assumes "start_node_thread K pm pid s = Some s'" and "0 < pid"
  obtains m fs ok u where "unix_socket_client_init (Some client_socket_config) (em_unix s) = (ok, u)"
    "s' = (if ok then connect_loop 15 (s\<lparr>em_manager := m, em_cgfs := fs, em_node_started := True, em_unix := u\<rparr>)
           else s\<lparr>em_manager := m, em_cgfs := fs, em_node_started := True, em_unix := u\<rparr>)"
proof -
  obtain m fs where r: "run_node_in_cgroup K pm pid (em_manager s) (em_cgfs s) = Some (0, m, fs)"
    using assms by (auto simp: start_node_thread_def run_node_in_cgroup_def bind_eq_Some_conv)
  obtain ok u where u: "unix_socket_client_init (Some client_socket_config) (em_unix s) = (ok, u)" by fastforce
  show ?thesis
    by (rule that [OF u]) (use assms(1) r u in \<open>auto simp: start_node_thread_def Let_def\<close>)
qed


text \<open>the thread that starts the node does not wait for the thread that saves its configuration: the
  node can be running while the file is not there.\<close>
theorem node_starts_before_its_file:
  assumes "em_threads s = [Save_file a, Start_node n]" and "0 < pid"
    and "emp_event E fd (Ev_thread 1 cw pm pid) s = Some (b, s')"
  shows "em_node_started s' \<and> em_files s' = em_files s \<and> em_threads s' = [Save_file a]"
proof -
  let ?s = "s\<lparr>em_threads := [Save_file a]\<rparr>"
  have t: "start_node_thread (ev_kernel E) pm pid ?s = Some s'"
    using assms(1,3) by (auto simp: emp_event_def)
  have "em_files (connect_loop k v) = em_files v \<and> em_threads (connect_loop k v) = em_threads v \<and>
      em_node_started (connect_loop k v) = em_node_started v" for k v
    by (induction k v rule: connect_loop.induct) (auto split: prod.splits)
  moreover obtain m fs ok u where
    "s' = (if ok then connect_loop 15 (?s\<lparr>em_manager := m, em_cgfs := fs, em_node_started := True, em_unix := u\<rparr>)
           else ?s\<lparr>em_manager := m, em_cgfs := fs, em_node_started := True, em_unix := u\<rparr>)"
    by (rule start_node_result [OF t assms(2)])
  ultimately show ?thesis by (cases ok) simp_all
qed

text \<open>the id of a configuration may have up to 254 characters, but it is copied into 128 bytes: one of
  128 or more overflows them.\<close>
theorem config_id_overflows:
  assumes "json_text J j s" and "length s \<le> 65536" and "peeks_whole (length s) (conn_of fd e)"
    and "rx (conn_of fd e) = frame s @ be32 (length content) @ content @ rest" and "0 < length content"
    and "length content \<le> 100 * 1024 * 1024"
    and "j_string J j ''task_id'' = Some tid" and "j_string J j ''chunk_filename'' = Some f"
    and "j_string J j ''sender_id'' = Some ip" and "j_string J j ''message_type'' = Some ''initial_config''"
    and "NUL \<notin> set tid" and "length tid \<le> 254" and "NUL \<notin> set ip" and "length ip \<le> 62"
    and "cni_select inp = Sel_readable" and "cni_peek_mem inp" and "cni_json_mem inp" and "cni_data_mem inp" and "cni_args_mem inp"
  shows "if length tid < 128
    then \<exists>e' a n. employer_message J inp fd e = Some (True, e') \<and> em_threads e' = em_threads e @ [Save_file a, Start_node n] \<and>
      sa_data a = Live content \<and> unat (sa_data_size a) = length content \<and> sa_filepath a = ''/tmp/config_'' @ tid @ ''.js'' \<and>
      na_config_filepath n = sa_filepath a \<and> rx (conn_of fd e') = rest
    else conn_round J inp fd e = None"
proof -
  from peek_frame [OF assms(1-4)] obtain d1 where
    d1: "recv_json_peek J True True (conn_of fd e) = (PROTOCOL_OK, Some j, d1)" "rx d1 = rx (conn_of fd e)" "patient d1"
    by blast
  from receive_task_frame [OF assms(1,2) d1(3) _ assms(5-14), of rest "cni_can_write inp" "cni_now inp" "em_files e"]
    d1(2) assms(4) obtain t d' files' where
    t: "receive_task_from_employer J True True (cni_can_write inp) (cni_now inp) (Some zero_task) (em_files e) d1 = (0, Some t, files', d')"
      "rt_data t = Live content" "unat (rt_data_size t) = length content" "cstr (rt_task_id t) = tid" "rx d' = rest" by auto
  have m: "employer_message J inp fd e
      = map_option (\<lambda>s. (True, s)) (start_config inp t (set_conn fd d' ((set_conn fd d1 e)\<lparr>em_files := files'\<rparr>)))"
    using d1(1) t(1) assms(10,16-18) by (simp add: employer_message_def Let_def)
  show ?thesis
  proof (cases "length tid < 128")
    case True
    with m t assms(12,19) show ?thesis by (simp add: start_config_def Let_def)
  next
    case False
    with m t assms(15) show ?thesis by (simp add: start_config_def conn_round_def Let_def)
  qed
qed

section \<open>Start-up\<close>

text \<open>Whenever the start gets as far as the main group, the limits of the employee are written.\<close>

lemma startup_writes:
  assumes "accepting K" and "su_cgroup_v2 su" and "su_pids su = Some i" and "su_children su = Some j" and "su_strdup su"
    and "em_manager s = Some m0" and "su_buf_mem su \<noteq> Null" and "su_res_mem su \<noteq> Null"
    and "employee_startup K su ep s = Some (r, fd, s')"
  shows "fs_log (em_cgfs s') = fs_log (em_cgfs s) @
      (if main_path ''volcom'' \<in> set (fs_dirs (em_cgfs s)) then [] else [Mkdir (main_path ''volcom'')]) @
      main_writes (main_path ''volcom'') employee_config \<and>
    (r = 0 \<longleftrightarrow> 0 \<le> fd) \<and> (0 \<le> fd \<longrightarrow> em_running s' \<and> fd \<in> set (emp_open s'))"
proof -
  have n: "NUL \<notin> set ''volcom''" "length ''volcom'' < MAX_NAME_LEN" by (simp_all add: MAX_NAME_LEN_def)
  obtain m where m: "volcom_rcsmngr_init True (Some i) (Some j) (Some m0) (Some ''volcom'') = Some (0, Some m)" "rm_ok m"
    "\<not> cg_is_created (rm_main_cgroup m)" "cstr (cg_path (rm_main_cgroup m)) = main_path ''volcom''"
    by (rule init_state [OF n, of i j m0])
  have c: "cc_allocated_logical_processors (cf_cpu_config employee_config) * 100000 < 2 ^ 31" by (simp add: employee_config_def)
  let ?m' = "m\<lparr>rm_main_cgroup := (rm_main_cgroup m)\<lparr>cg_is_created := True\<rparr>\<rparr>"
  obtain fs' where fs': "volcom_create_main_cgroup K True (Some m) employee_config (em_cgfs s) = Some (0, Some ?m', fs')"
    "fs_log fs' = fs_log (em_cgfs s) @ (if main_path ''volcom'' \<in> set (fs_dirs (em_cgfs s)) then [] else [Mkdir (main_path ''volcom'')]) @
      main_writes (main_path ''volcom'') employee_config"
    by (rule create_main_effect [OF m(2,3,4) n(2) assms(1) c, of "em_cgfs s"])
  have t: "start_tcp_server EMPLOYEE_PORT w0 = (fd0, w1) \<Longrightarrow> 0 \<le> fd0 \<Longrightarrow> fd0 \<in> set (os_open w1)" for w0 fd0 w1
    using start_tcp_server_open [where port = EMPLOYEE_PORT and w = w0] by auto
  have cg: "em_cgfs s1 = em_cgfs s0" if "drop_buffer s0 = Some s1" for s0 s1
    using that by (auto simp: drop_buffer_def bind_eq_Some_conv)
  have "em_cgfs s' = fs' \<and> (r = 0 \<longleftrightarrow> 0 \<le> fd) \<and> (0 \<le> fd \<longrightarrow> em_running s' \<and> fd \<in> set (emp_open s'))"
    using assms(2-9) m(1) fs'(1) t cg
    by (auto simp: employee_startup_def init_agent_def init_task_buffer_def init_result_queue_def bind_eq_Some_conv Let_def emp_open_def
        split: if_splits prod.splits option.splits)
  with fs'(2) show ?thesis by simp
qed

text \<open>the employee's default limit is written as 1 GB but counted in kB: whenever it gets as far as the
  main group, its memory limit is set to 1024 to the fourth bytes, one TiB.\<close>
theorem employee_limit_is_a_tebibyte:
  assumes "accepting K" and "su_cgroup_v2 su" and "su_pids su = Some i" and "su_children su = Some j" and "su_strdup su"
    and "em_manager s = Some m0" and "su_buf_mem su \<noteq> Null" and "su_res_mem su \<noteq> Null"
    and "employee_startup K su ep s = Some (r, fd, s')"
  shows "Wrote ''/sys/fs/cgroup/volcom/memory.max'' (dec_nat (1024 ^ 4) @ [NL]) \<in> set (fs_log (em_cgfs s')) \<and>
    (r = 0 \<longleftrightarrow> 0 \<le> fd) \<and> (0 \<le> fd \<longrightarrow> em_running s' \<and> fd \<in> set (emp_open s'))"
  using startup_writes [OF assms]
  by (simp add: main_writes_def employee_config_def main_path_def CGROUP_V2_ROOT_def)

section \<open>An employee at work\<close>

definition demo_tasks :: "received_task_t list \<Rightarrow> task_buffer_t" where
  "demo_tasks ts = \<lparr>tb_tasks = Live (ts @ replicate (4 - length ts) (demo_received 0)), tb_capacity = 4,
     tb_head = int (length ts), tb_tail = 0, tb_count = int (length ts), tb_mutex = Unlocked\<rparr>"

definition demo_results :: "result_info_t list \<Rightarrow> result_queue_t" where
  "demo_results rs = \<lparr>rq_results = Live (rs @ replicate (4 - length rs) (demo_result ''z'')), rq_capacity = 4,
     rq_head = int (length rs), rq_tail = 0, rq_count = int (length rs), rq_mutex = Unlocked\<rparr>"

definition demo_emp :: "received_task_t list \<Rightarrow> result_info_t list \<Rightarrow> conn \<Rightarrow> employee" where
  "demo_emp ts rs c = \<lparr>em_running = True, em_buffer = demo_tasks ts, em_results = demo_results rs,
     em_status = \<lparr>ag_agent_id = [], ag_mode = AGENT_MODE_EMPLOYEE, ag_ip_address = [], ag_port = 0, ag_start_time = 0,
       ag_is_active = True, ag_tasks_completed = 0, ag_tasks_failed = 0\<rparr>,
     em_node_started = True, em_unix_connected = True,
     em_unix = (demo_unix 4 [])\<lparr>unix_client_sockfd := 3, unix_os := demo_os\<lparr>os_conn := (\<lambda>_. c)\<rparr>\<rparr>,
     em_files = (\<lambda>_. None), em_threads = [], em_manager = Some demo_manager, em_cgfs = demo_fs, em_lost = 0\<rparr>"

definition demo_worker_input :: worker_input where
  "demo_worker_input = \<lparr>wi_malloc = True, wi_can_write = \<lambda>_. True\<rparr>"

definition demo_conn_input :: conn_input where
  "demo_conn_input = \<lparr>cni_select = Sel_readable, cni_peek_mem = True, cni_json_mem = True, cni_data_mem = True,
     cni_args_mem = True, cni_can_write = \<lambda>_. True, cni_now = 9\<rparr>"

definition demo_env :: "((string \<times> json_item) list, int) emp_env" where
  "demo_env = \<lparr>ev_json = demo_task_json, ev_double = int_double, ev_show2 = \<lambda>_. ''0.00'', ev_kernel = demo_kernel,
     ev_ip = zbuf 64 ''h''\<rparr>"

lemma demo_tasks_ok [simp]: "length ts \<le> 3 \<Longrightarrow> task_buffer_inv (demo_tasks ts)"
    "length ts \<le> 3 \<Longrightarrow> task_buffer_items (demo_tasks ts) = ts" "tb_capacity (demo_tasks ts) = 4"
  by (auto simp: demo_tasks_def task_management_defs ring_ok_def ring_list_def ring_items_def nth_append intro!: nth_equalityI)

lemma demo_results_ok [simp]: "length rs \<le> 3 \<Longrightarrow> result_queue_inv (demo_results rs)"
    "length rs \<le> 3 \<Longrightarrow> result_queue_items (demo_results rs) = rs" "rq_capacity (demo_results rs) = 4"
  by (auto simp: demo_results_def task_management_defs ring_ok_def ring_list_def ring_items_def nth_append intro!: nth_equalityI)

lemma demo_emp_simps [simp]:
  "em_buffer (demo_emp ts rs c) = demo_tasks ts" "em_results (demo_emp ts rs c) = demo_results rs"
  "em_node_started (demo_emp ts rs c)" "em_unix_connected (demo_emp ts rs c)" "conn_of fd (demo_emp ts rs c) = c"
  "client_conn (em_unix (demo_emp ts rs c)) = c" "em_files (demo_emp ts rs c) = (\<lambda>_. None)"
  "client_ready (em_unix (demo_emp ts rs c)) = willing c"
  by (simp_all add: demo_emp_def conn_of_def client_conn_def client_ready_def demo_unix_def demo_os_def)


definition demo_chunk :: "bytes \<Rightarrow> received_task_t" where
  "demo_chunk bs = (demo_received 1)\<lparr>rt_data := Live bs\<rparr>"

text \<open>A node script that answers with an object with a status.\<close>

definition demo_status_json :: "(string \<times> json_item) list json_ops" where
  "demo_status_json = list_json [(''status'', Item_string ''ok'')] [CHR ''{'', CHR ''}'']"




theorem requeued_chunk_is_freed_witness:
  "\<exists>s'. worker_round demo_task_json demo_worker_input (demo_emp [demo_chunk [CHR ''x'', NUL]] [] (demo_conn [] [-1])) = Some s' \<and>
     worker_round demo_task_json demo_worker_input s' = None"
proof -
  let ?s = "demo_emp [demo_chunk [CHR ''x'', NUL]] [] (demo_conn [] [-1])"
  have "\<exists>u. unix_socket_client_send_message (Some [CHR ''x'', NUL]) (em_unix ?s) = (False, u)"
    by (simp add: unix_socket_client_send_message_def send_text_def sys_send_def sk_write_def demo_emp_def demo_os_def demo_conn_def)
  then obtain u where u: "unix_socket_client_send_message (Some [CHR ''x'', NUL]) (em_unix ?s) = (False, u)" by blast
  from requeued_chunk_is_freed [of ?s "demo_chunk [CHR ''x'', NUL]" "[CHR ''x'', NUL]" u demo_task_json demo_worker_input] u
  show ?thesis by (auto simp: demo_chunk_def)
qed

theorem chunk_read_past_end_witness:
  "worker_round demo_task_json demo_worker_input (demo_emp [demo_chunk ''abc''] [] (demo_conn [] [])) = None"
  by (rule chunk_read_past_end [of _ "demo_chunk ''abc''" "[]" "''abc''"]) (simp_all add: demo_chunk_def)


definition demo_config_json :: "nat \<Rightarrow> (string \<times> json_item) list json_ops" where
  "demo_config_json n = list_json [(''task_id'', Item_string (replicate n CHR ''t'')), (''chunk_filename'', Item_string ''f''),
     (''sender_id'', Item_string ''h''), (''message_type'', Item_string ''initial_config'')] ''m''"

theorem config_id_overflows_witness:
  "conn_round (demo_config_json 128) demo_conn_input 3 (demo_emp [] [] (demo_conn (frame ''m'' @ be32 3 @ ''abc'') [])) = None"
proof -
  let ?j = "[(''task_id'', Item_string (replicate 128 CHR ''t'')), (''chunk_filename'', Item_string ''f''),
     (''sender_id'', Item_string ''h''), (''message_type'', Item_string ''initial_config'')]"
  have "if length (replicate 128 CHR ''t'') < 128
    then \<exists>e' a n. employer_message (demo_config_json 128) demo_conn_input 3 (demo_emp [] [] (demo_conn (frame ''m'' @ be32 3 @ ''abc'') [])) = Some (True, e') \<and>
      em_threads e' = em_threads (demo_emp [] [] (demo_conn (frame ''m'' @ be32 3 @ ''abc'') [])) @ [Save_file a, Start_node n] \<and>
      sa_data a = Live ''abc'' \<and> unat (sa_data_size a) = length ''abc'' \<and> sa_filepath a = ''/tmp/config_'' @ replicate 128 CHR ''t'' @ ''.js'' \<and>
      na_config_filepath n = sa_filepath a \<and> rx (conn_of 3 e') = []
    else conn_round (demo_config_json 128) demo_conn_input 3 (demo_emp [] [] (demo_conn (frame ''m'' @ be32 3 @ ''abc'') [])) = None"
    by (rule config_id_overflows [where j = ?j and s = "''m''" and f = "''f''" and ip = "''h''"])
      (simp_all add: demo_config_json_def list_json_def json_text_def demo_conn_def peeks_whole_def serves_def patient_def demo_conn_input_def numeral_3_eq_3)
  then show ?thesis by simp
qed

end
