(* ===== verification/Result_Round.thy ===== *)
theory Result_Round
  imports Task_Delivery
begin

text \<open>
  One iteration of the employer's main loop in which one result is ready: what the other steps of the
  iteration leave of it, and when the loop ends.
\<close>

section \<open>Files and connections\<close>

lemma send_files_kept [simp]:
  "ep_files (snd (send_pending_tasks J s)) = ep_files s" "ep_files (snd (handle_task_timeouts now s)) = ep_files s"
  "ep_files (assign_tasks now s) = ep_files s" "ep_files (remove_stale_employees now s) = ep_files s"
  by (simp_all add: send_pending_tasks_def handle_task_timeouts_def assign_tasks_def remove_stale_employees_def
      split: prod.splits)

lemma configs_files_kept [simp]: "ep_files (configs_step J i n s) = ep_files s"
  by (induction n arbitrary: i s) (auto simp: Let_def drop_connection_def split: prod.splits)

lemma map_update_same: "f e = f (es ! i) \<Longrightarrow> map f (es[i := e]) = map f es"
  by (cases "i < length es") (auto simp: map_update list_update_same_conv not_less list_update_beyond)

lemma result_effect_sockets:
  assumes "result_effect now i s s'"
  shows "map en_sockfd (ep_employees s') = map en_sockfd (ep_employees s)"
  using assms
proof cases
  case (completed w tid as e f)
  then have "en_sockfd e = en_sockfd (ep_employees s ! i)" using complete_assignment_ok by blast
  with completed(1) show ?thesis by (simp add: map_update_same)
qed simp_all

text \<open>No two employees have the same connection, and none has the discovery socket.\<close>

lemma in_fds: "e \<in> set es \<Longrightarrow> 0 \<le> en_sockfd e \<Longrightarrow> en_sockfd e \<in># fds es"
  by (auto simp: fds_def node_fd_def)

lemma owns_distinct:
  assumes "owns B es w" and "i < length es" and "0 \<le> en_sockfd (es ! i)"
  shows "en_sockfd (es ! i) \<notin># B"
    and "j < length es \<Longrightarrow> j \<noteq> i \<Longrightarrow> en_sockfd (es ! j) \<noteq> en_sockfd (es ! i)"
proof -
  let ?x = "en_sockfd (es ! i)"
  let ?rest = "take i es @ drop (Suc i) es"
  have m: "mset (os_open w) = add_mset ?x (B + fds ?rest)"
    using assms fds_nth [OF assms(2)] by (simp add: owns_def node_fd_def)
  have d: "distinct (os_open w)" using assms(1) by (simp add: owns_def)
  have "count (mset (os_open w)) ?x \<le> 1" using d [unfolded distinct_count_atmost_1] by simp
  with m have n: "?x \<notin># B + fds ?rest" by (auto simp: count_eq_zero_iff [symmetric])
  then show "?x \<notin># B" by simp
  assume j: "j < length es" "j \<noteq> i"
  have "es ! j \<in> set ?rest"
    using j assms(2) by (cases "j < i") (auto simp: in_set_conv_nth intro: exI [of _ j] exI [of _ "j - Suc i"])
  with n in_fds [of "es ! j" ?rest] assms(3) show "en_sockfd (es ! j) \<noteq> ?x" by auto
qed

section \<open>The results step with one result\<close>

lemma results_step_append:
  "results_step J inp i (m + n) s = results_step J inp (i + m) n (results_step J inp i m s)"
  by (induction m arbitrary: i s) (simp_all add: Let_def)

lemma results_step_idle:
  "(\<And>j. i \<le> j \<Longrightarrow> j < i + n \<Longrightarrow> en_sockfd (ep_employees s ! j) \<notin> set (in_ready inp)) \<Longrightarrow>
     results_step J inp i n s = s"
proof (induction n arbitrary: i)
  case (Suc n)
  from Suc.prems [of i] Suc.IH [of "Suc i"] Suc.prems show ?case by (simp add: Let_def)
qed simp

lemma results_step_one:
  assumes "owns B (ep_employees s) (ep_os s)" and "i < length (ep_employees s)"
    and "0 \<le> en_sockfd (ep_employees s ! i)" and "in_ready inp = [en_sockfd (ep_employees s ! i)]"
    and "receive_result_from_employee J (in_json_mem inp) (in_junk inp) (in_can_write inp) (in_now inp) i s = (0, s')"
  shows "results_step J inp 0 (length (ep_employees s)) s = s'"
proof -
  note other = owns_distinct(2) [OF assms(1-3)]
  have "length (ep_employees s) = i + (Suc 0 + (length (ep_employees s) - Suc i))" using assms(2) by simp
  then have "results_step J inp 0 (length (ep_employees s)) s =
      results_step J inp (Suc i) (length (ep_employees s) - Suc i) (results_step J inp i (Suc 0) (results_step J inp 0 i s))"
    by (metis results_step_append add_0 add_Suc_right add_0_right)
  moreover have "results_step J inp 0 i s = s"
    using other assms(2,4) by (intro results_step_idle) simp
  moreover have "results_step J inp i (Suc 0) s = s'" using assms(3-5) by simp
  moreover have "results_step J inp (Suc i) (length (ep_employees s) - Suc i) s' = s'"
  proof (rule results_step_idle)
    fix j assume j: "Suc i \<le> j" "j < Suc i + (length (ep_employees s) - Suc i)"
    have m: "map en_sockfd (ep_employees s') = map en_sockfd (ep_employees s)"
      by (rule result_effect_sockets [OF receive_result_effect [OF assms(5)]])
    then have "length (ep_employees s') = length (ep_employees s)" by (metis length_map)
    with m j have "en_sockfd (ep_employees s' ! j) = en_sockfd (ep_employees s ! j)"
      by (metis nth_map less_diff_conv2 add.commute le_add_diff_inverse Suc_leI assms(2))
    with other [of j] j assms(4) show "en_sockfd (ep_employees s' ! j) \<notin> set (in_ready inp)" by simp
  qed
  ultimately show ?thesis by simp
qed


section \<open>When the loop ends\<close>

definition all_done :: "employer \<Rightarrow> bool" where
  "all_done s \<longleftrightarrow> ep_assignments s \<noteq> [] \<and> list_all ta_is_completed (ep_assignments s)"

lemma count_completed: "count_completed_tasks s = int (length (filter ta_is_completed (ep_assignments s)))"
proof -
  have "foldl (\<lambda>completed a. if ta_is_completed a then completed + 1 else completed) n as
      = n + int (length (filter ta_is_completed as))" for n :: int and as :: "task_assignment_t list"
    by (induction as arbitrary: n) auto
  then show ?thesis by (simp add: count_completed_tasks_def)
qed

lemma all_completed: "int (length as) \<le> int (length (filter ta_is_completed as)) \<longleftrightarrow> list_all ta_is_completed as"
  using length_filter_less [of _ as ta_is_completed] by (auto simp: list_all_iff not_less [symmetric])

lemma discover_step_status [simp]: "ep_status (discover_step J fd inp s) = ep_status s"
  by (auto simp: discover_step_def split: option.splits)

text \<open>An iteration from the results on: the files stay, the assignments are kept, and the agent stops when
  all of them are completed.\<close>

lemma employer_round_rest:
  assumes "employer_ok B s" and "s1 = discover_step J fd inp s" and "s2 = results_step J inp 0 (length (ep_employees s1)) s1"
    and "s' = employer_round J fd inp s"
  shows "ep_files s' = ep_files s2" and "all_kept (ep_assignments s2) (ep_assignments s')"
    and "ag_is_active (ep_status s') \<longleftrightarrow> ag_is_active (ep_status s) \<and> \<not> all_done s'"
proof -
  define s3 where "s3 = configs_step J 0 (length (ep_employees s2)) s2"
  define s4 where "s4 = assign_tasks (in_now inp) s3"
  define s5 where "s5 = snd (send_pending_tasks J s4)"
  define s6 where "s6 = snd (handle_task_timeouts (in_now inp) s5)"
  define s7 where "s7 = remove_stale_employees (in_now inp) s6"
  have 1: "employer_ok B s1" "ep_status s1 = ep_status s"
    using discover_step_ok [OF assms(1), of J fd inp] by (simp_all add: assms(2))
  have 2: "employer_ok B s2" "ep_status s2 = ep_status s1"
    using results_step_ok [OF 1(1), of 0] by (auto simp: assms(3))
  have 3: "employer_ok B s3" "ep_assignments s3 = ep_assignments s2" "ep_status s3 = ep_status s2"
    using configs_step_ok [OF 2(1), of 0] by (auto simp: s3_def)
  have 4: "employer_ok B s4" "all_kept (ep_assignments s3) (ep_assignments s4)" "ep_status s4 = ep_status s3"
    using assign_tasks_ok [OF 3(1)] by (auto simp: s4_def)
  have 5: "employer_ok B s5" "all_kept (ep_assignments s4) (ep_assignments s5)" "ep_status s5 = ep_status s4"
    using send_pending_ok [OF 4(1)] by (auto simp: s5_def)
  have 6: "all_kept (ep_assignments s5) (ep_assignments s6)" "ep_status s6 = ep_status s5"
    using timeouts_ok [OF 5(1)] by (auto simp: s6_def)
  have f: "ep_files s7 = ep_files s2" by (simp add: s7_def s6_def s5_def s4_def s3_def)
  have k: "all_kept (ep_assignments s2) (ep_assignments s7)"
    using 3(2) 4(2) 5(2) 6(1) by (simp add: s7_def) (metis all_kept_trans)
  have st: "ep_status s7 = ep_status s" using 1(2) 2(2) 3(3) 4(3) 5(3) 6(2) by (simp add: s7_def)
  have r: "s' = (if all_done s7 then s7\<lparr>ep_status := (ep_status s7)\<lparr>ag_is_active := False\<rparr>\<rparr> else s7)"
    unfolding assms(4) employer_round_def Let_def assms(2) [symmetric] assms(3) [symmetric] s3_def [symmetric]
      s4_def [symmetric] s5_def [symmetric] s6_def [symmetric] s7_def [symmetric] count_completed
    by (simp add: all_done_def all_completed [symmetric])
  from f show "ep_files s' = ep_files s2" by (simp add: r)
  from k show "all_kept (ep_assignments s2) (ep_assignments s')" by (simp add: r)
  from st show "ag_is_active (ep_status s') \<longleftrightarrow> ag_is_active (ep_status s) \<and> \<not> all_done s'"
    by (simp add: r all_done_def)
qed

text \<open>C18: the main loop stops exactly when all is done: after any number of iterations of an active
  employer in which \<open>select\<close> works, the employer is inactive if and only if it has assignments and
  all of them are completed; from then on the loop changes nothing any more.\<close>
theorem employer_stops_when_done:
  assumes "employer_ok B s" and "ag_is_active (ep_status s)" and "inps \<noteq> []"
    and "\<forall>inp \<in> set inps. \<not> in_select_failed inp"
  shows "let s' = employer_rounds J fd inps s in
    (ag_is_active (ep_status s') \<longleftrightarrow> \<not> all_done s') \<and> (all_done s' \<longrightarrow> employer_rounds J fd further s' = s')"
proof -
  have "ag_is_active (ep_status (employer_rounds J fd inps s)) \<longleftrightarrow> \<not> all_done (employer_rounds J fd inps s)"
    using assms
  proof (induction inps arbitrary: s)
    case (Cons inp inps)
    let ?s = "employer_round J fd inp s"
    have ok: "employer_ok B ?s" using employer_round_ok [OF Cons.prems(1)] by blast
    have r: "ag_is_active (ep_status ?s) \<longleftrightarrow> \<not> all_done ?s"
      using employer_round_rest(3) [OF Cons.prems(1) refl refl refl] Cons.prems(2) by simp
    have e: "employer_rounds J fd (inp # inps) s = employer_rounds J fd inps ?s" using Cons.prems by simp
    show ?case
    proof (cases "inps = [] \<or> \<not> ag_is_active (ep_status ?s)")
      case True
      then have "employer_rounds J fd inps ?s = ?s" by (cases inps) auto
      with e r show ?thesis by simp
    next
      case False
      with Cons.IH [OF ok] Cons.prems(4) e show ?thesis by simp
    qed
  qed simp
  moreover have "employer_rounds J fd further t = t" if "\<not> ag_is_active (ep_status t)" for t
    using that by (cases further) simp_all
  ultimately show ?thesis by (simp add: Let_def)
qed

section \<open>The iteration that receives a result\<close>

text \<open>The employer waits for the result of \<open>tid\<close> from its employee \<open>i\<close> with assignment \<open>k\<close>.\<close>

definition awaits_result :: "employer \<Rightarrow> nat \<Rightarrow> nat \<Rightarrow> string \<Rightarrow> bool" where
  "awaits_result m i k tid \<longleftrightarrow> i < length (ep_employees m) \<and> k < length (ep_assignments m) \<and>
     \<not> ta_is_completed (ep_assignments m ! k) \<and> cstr (ta_task_id (ep_assignments m ! k)) = tid \<and>
     list_all (\<lambda>a. ta_is_completed a \<or> cstr (ta_task_id a) \<noteq> tid) (take k (ep_assignments m)) \<and>
     patient (os_conn (ep_os m) (en_sockfd (ep_employees m ! i)))"

lemma result_stored:
  assumes "json_object J" and "json_text J (result_metadata J tid (length js)) s" and "length s \<le> 65536"
    and "length js < 2 ^ 32" and "NUL \<notin> set tid" and "length tid \<le> 230"
    and "awaits_result m i k tid" and "can_write (''./results/result_'' @ tid)" and "length junk = 256"
    and "rx (os_conn (ep_os m) (en_sockfd (ep_employees m ! i))) = frame s @ be32 (length js) @ js"
  shows "case receive_result_from_employee J True junk can_write now i m of (r, m') \<Rightarrow>
    r = 0 \<and> ep_files m' (''./results/result_'' @ tid) = Some js \<and> ta_is_completed (ep_assignments m' ! k) \<and>
    rx (os_conn (ep_os m') (en_sockfd (ep_employees m ! i))) = []"
proof -
  note a = assms(7) [unfolded awaits_result_def]
  then have before: "\<forall>l < k. ta_is_completed (ep_assignments m ! l) \<or> cstr (ta_task_id (ep_assignments m ! l)) \<noteq> tid"
    by (auto simp: list_all_length)
  from a assms(6) have "length tid \<le> 254" "i < length (ep_employees m)" "k < length (ep_assignments m)"
    "\<not> ta_is_completed (ep_assignments m ! k)" "cstr (ta_task_id (ep_assignments m ! k)) = tid"
    "patient (os_conn (ep_os m) (en_sockfd (ep_employees m ! i)))" by simp_all
  with result_received [OF assms(1-5) _ assms(9), of m i "[]" can_write k now] assms(8,10) before show ?thesis
    by (auto simp: Let_def split: prod.splits)
qed

lemma round_stores_result:
  assumes "json_object J" and "json_text J (result_metadata J tid (length js)) s" and "length s \<le> 65536"
    and "length js < 2 ^ 32" and "NUL \<notin> set tid" and "length tid \<le> 230"
    and "awaits_result m i k tid" and "in_can_write inp (''./results/result_'' @ tid)" and "length (in_junk inp) = 256"
    and "rx (os_conn (ep_os m) (en_sockfd (ep_employees m ! i))) = frame s @ be32 (length js) @ js"
    and "employer_ok B m" and "fd \<in># B" and "0 \<le> en_sockfd (ep_employees m ! i)"
    and "in_ready inp = [en_sockfd (ep_employees m ! i)]" and "in_json_mem inp"
  shows "let m' = employer_round J fd inp m in
    ep_files m' (''./results/result_'' @ tid) = Some js \<and> ta_is_completed (ep_assignments m' ! k) \<and>
    (ag_is_active (ep_status m') \<longleftrightarrow> ag_is_active (ep_status m) \<and> \<not> all_done m')"
proof -
  let ?m = "employer_round J fd inp m"
  obtain r m1 where r: "receive_result_from_employee J True (in_junk inp) (in_can_write inp) (in_now inp) i m = (r, m1)"
    by fastforce
  from result_stored [where can_write = "in_can_write inp", OF assms(1-10), of "in_now inp"] r
  have m1: "r = 0" "ep_files m1 (''./results/result_'' @ tid) = Some js" "ta_is_completed (ep_assignments m1 ! k)" by auto
  have o: "owns B (ep_employees m) (ep_os m)" using assms(11) by (simp add: employer_ok_def)
  have i: "i < length (ep_employees m)" "k < length (ep_assignments m)" using assms(7) by (simp_all add: awaits_result_def)
  have "discover_step J fd inp m = m"
    using owns_distinct(1) [OF o i(1) assms(13)] assms(12,14) by (auto simp: discover_step_def)
  moreover have "results_step J inp 0 (length (ep_employees m)) m = m1"
    using r m1(1) assms(15) by (intro results_step_one [OF o i(1) assms(13,14)]) simp
  ultimately have f: "ep_files ?m = ep_files m1" "all_kept (ep_assignments m1) (ep_assignments ?m)"
    "ag_is_active (ep_status ?m) \<longleftrightarrow> ag_is_active (ep_status m) \<and> \<not> all_done ?m"
    using employer_round_rest [OF assms(11) refl refl refl, where J = J and fd = fd and inp = inp] by simp_all
  have "all_kept (ep_assignments m) (ep_assignments m1)"
    using result_effect_ok [OF receive_result_effect [OF r] assms(11) i(1)] by blast
  then have "k < length (ep_assignments m1)" using all_kept_length i(2) by metis
  with f(2) have "kept (ep_assignments m1 ! k) (ep_assignments ?m ! k)"
    unfolding all_kept_def by (rule list_all2_nthD)
  with m1(3) have "ta_is_completed (ep_assignments ?m ! k)" by (simp add: kept_def)
  with f(1,3) m1(2) show ?thesis by (simp add: Let_def)
qed

definition demo_done :: employer where
  "demo_done = (demo_employer [demo_assignment ''t'' True True] [])
     \<lparr>ep_status := demo_agent\<lparr>ag_is_active := True\<rparr>\<rparr>"

theorem employer_stops_when_done_witness:
  "\<not> ag_is_active (ep_status (employer_rounds demo_result_json 2 [demo_round\<lparr>in_ready := []\<rparr>] demo_done))"
proof -
  let ?s = "employer_rounds demo_result_json 2 [demo_round\<lparr>in_ready := []\<rparr>] demo_done"
  have "employer_ok {#0, 1, 2, 3#} demo_done"
    by (simp add: employer_ok_def owns_def demo_done_def demo_defs MAX_EMPLOYEES_def MAX_TASK_ASSIGNMENTS_def)
  from employer_stops_when_done [OF this, of "[demo_round\<lparr>in_ready := []\<rparr>]" demo_result_json 2 "[]"]
  have "ag_is_active (ep_status ?s) \<longleftrightarrow> \<not> all_done ?s"
    by (simp add: demo_done_def demo_round_def Let_def del: employer_rounds.simps)
  moreover have "all_done ?s"
  proof -
    have "all_kept (ep_assignments demo_done) (ep_assignments ?s)"
      using employer_rounds_ok [OF \<open>employer_ok {#0, 1, 2, 3#} demo_done\<close>] by blast
    then show ?thesis
      by (auto simp: all_kept_def list_all2_Cons1 kept_def all_done_def demo_done_def demo_employer_def demo_assignment_def)
  qed
  ultimately show ?thesis by simp
qed

end
