(* ===== verification/Chunk_Journey.thy ===== *)
theory Chunk_Journey
  imports Employee_Proofs Result_Round
begin

text \<open>
  One chunk from the employer's file to the employer's result: two iterations of the employee's
  connection loop with one of its worker in between, and the employer that receives what came back.
\<close>

section \<open>The result goes\<close>

lemma generous_send_json:
  assumes "json_text J j s" and "length s \<le> 65536" and "generous c"
  shows "\<exists>c'. send_json J j c = (PROTOCOL_OK, c') \<and> generous c'"
proof -
  have s: "j_print J j = Some s" "cstr s = s" using assms(1) by (auto simp: json_text_def cstr_id)
  let ?c1 = "c\<lparr>tx := tx c @ be32 (length s), plan := tl (plan c)\<rparr>"
  let ?c2 = "?c1\<lparr>tx := tx ?c1 @ s, plan := tl (plan ?c1)\<rparr>"
  have w: "sk_write (be32 (length s)) c = (4, ?c1)"
    using sk_write_serves [of "be32 (length s)" c] generous_serves [OF assms(3)] by simp
  have g: "generous ?c1" using generous_tl [OF assms(3)] by simp
  have v: "sk_write s ?c1 = (int (length s), ?c2)"
    using generous_serves [OF g] assms(2) by (intro sk_write_serves) simp
  have "generous ?c2" using generous_tl [OF g] by simp
  with s w v assms(2) show ?thesis by (simp add: send_json_def)
qed

lemma result_goes:
  assumes "result_queue_inv (em_results e)" and "result_queue_items (em_results e) = [res]" and "0 \<le> fd"
    and "em_files e (cstr (ri_result_filepath res)) = Some content"
    and "json_text J (result_metadata J (cstr (ri_task_id res)) (length content)) s" and "length s \<le> 65536"
    and "length content < 2 ^ 32" and "generous (conn_of fd e)"
  shows "\<exists>c q. send_one_result J fd e = Some ((set_conn fd c e)\<lparr>em_results := q,
      em_status := (em_status e)\<lparr>ag_tasks_completed := ag_tasks_completed (em_status e) + 1\<rparr>\<rparr>) \<and>
    send_result_to_employer J (em_files e) fd (Some res) (conn_of fd e) = (0, c) \<and>
    tx c = tx (conn_of fd e) @ frame s @ be32 (length content) @ content \<and> rx c = rx (conn_of fd e) \<and>
    result_queue_inv q \<and> result_queue_items q = []"
proof -
  have ne: "rq_count (em_results e) \<noteq> 0" using result_queue_count [OF assms(1)] assms(2) by auto
  from get_result_some [OF assms(1) ne] assms(2) obtain q where
    q: "get_result_from_queue (em_results e) = Some (0, Some res, q)" "result_queue_inv q" "result_queue_items q = []" by auto
  from generous_send_json [OF assms(5,6,8)] obtain c1 where
    c1: "send_json J (result_metadata J (cstr (ri_task_id res)) (length content)) (conn_of fd e) = (PROTOCOL_OK, c1)"
      "generous c1" by blast
  from send_sized_all [OF generous_full_sends [OF c1(2)] assms(7)] obtain c2 where
    c2: "send_sized content c1 = (True, c2)" "rx c2 = rx c1" by blast
  have sent: "send_result_to_employer J (em_files e) fd (Some res) (conn_of fd e) = (0, c2)"
    using assms(3,4) c1(1) c2(1) by (simp add: send_result_to_employer_def result_metadata_def [symmetric] Let_def)
  have rx: "rx c2 = rx (conn_of fd e)" using c2(2) send_json_OK [OF c1(1) assms(5)] assms(6) by simp
  from send_result_sent [OF sent assms(4,5,6) generous_full_sends [OF assms(8)] assms(7)]
  have tx: "tx c2 = tx (conn_of fd e) @ frame s @ be32 (length content) @ content" .
  have "send_one_result J fd e = Some ((set_conn fd c2 e)\<lparr>em_results := q,
      em_status := (em_status e)\<lparr>ag_tasks_completed := ag_tasks_completed (em_status e) + 1\<rparr>\<rparr>)"
    using assms(1) ne q(1) sent
    by (simp add: send_one_result_def is_result_empty set_conn_def)
  with sent tx rx q(2,3) show ?thesis by blast
qed


section \<open>There and back\<close>

text \<open>The employee between two chunks, with the employer at \<open>fd\<close> and the node script connected.\<close>

definition between_chunks :: "int \<Rightarrow> employee \<Rightarrow> bool" where
  "between_chunks fd e \<longleftrightarrow> em_running e \<and> em_node_started e \<and> em_unix_connected e \<and>
     task_buffer_inv (em_buffer e) \<and> task_buffer_items (em_buffer e) = [] \<and>
     result_queue_inv (em_results e) \<and> result_queue_items (em_results e) = [] \<and>
     0 \<le> fd \<and> fd \<noteq> unix_client_sockfd (em_unix e) \<and> client_ready (em_unix e) \<and> generous (conn_of fd e)"

text \<open>An answer of the node script: one object that parses and has a status.\<close>

definition status_answer :: "'j json_ops \<Rightarrow> string \<Rightarrow> bool" where
  "status_answer J js \<longleftrightarrow> object_text js \<and> length js < RESPONSE_SIZE - 1 \<and> NUL \<notin> set js \<and> skip_blanks js = js \<and>
     (case j_parse J js of None \<Rightarrow> False | Some j \<Rightarrow> j_string J j ''status'' \<noteq> None)"

lemma generous_peeks:
  assumes "generous c" and "n \<le> 65536"
  shows "peeks_whole n c"
proof -
  have g: "generous (c\<lparr>plan := tl (plan c)\<rparr>)" using generous_tl [OF assms(1)] by simp
  have "generous (c\<lparr>plan := tl (tl (plan c))\<rparr>)" using generous_tl [OF g] by simp
  with generous_serves [OF assms(1)] generous_serves [OF g] generous_patient assms(2) show ?thesis
    by (simp add: peeks_whole_def)
qed

lemma chunk_worked_on:
  assumes "json_object J" and "json_text J (task_metadata J tid path ip) s" and "length s \<le> 65536"
    and "0 < length content" and "length content \<le> 100 * 1024 * 1024" and "NUL \<in> set content"
    and "NUL \<notin> set tid" and "length tid \<le> 230"
    and "between_chunks fd e" and "rx (conn_of fd e) = frame s @ be32 (length content) @ content @ rest"
    and "serves (length (cstr content)) (client_conn (em_unix e))" and "rx (client_conn (em_unix e)) = js"
    and "status_answer J js"
    and "cni_select i1 = Sel_readable" and "cni_peek_mem i1" and "cni_json_mem i1" and "cni_data_mem i1"
    and "wi_malloc wi" and "wi_can_write wi (result_path tid)"
  shows "\<exists>e1 e2 r. conn_round J i1 fd e = Some (True, e1) \<and> worker_round J wi e1 = Some e2 \<and>
    em_running e1 \<and> em_running e2 \<and> fd \<noteq> unix_client_sockfd (em_unix e2) \<and>
    tx (client_conn (em_unix e2)) = tx (client_conn (em_unix e)) @ cstr content \<and>
    reads (conn_of fd e) (conn_of fd e2) \<and> rx (conn_of fd e2) = rest \<and>
    task_buffer_items (em_buffer e2) = [] \<and> result_queue_inv (em_results e2) \<and> result_queue_items (em_results e2) = [r] \<and>
    em_files e2 (result_path tid) = Some js \<and> cstr (ri_task_id r) = tid \<and> cstr (ri_result_filepath r) = result_path tid"
proof -
  note b = assms(9) [unfolded between_chunks_def]
  have g: "generous (conn_of fd e)" using b by blast
  note f = task_metadata_fields [OF assms(1), of tid path ip]
  have n: "NUL \<notin> set ''employer''" "length ''employer'' \<le> 62" "length tid \<le> 254" using assms(8) by simp_all
  have room: "int (length (task_buffer_items (em_buffer e))) < tb_capacity (em_buffer e)"
    using b task_buffer_bounds [of "em_buffer e"] by simp
  from chunk_arrives [OF assms(2,3) generous_peeks [OF g assms(3)] assms(10,4,5) f(1-4) assms(7) n(3,1,2) _ room
      _ _ assms(14-17)] b
  obtain d files buf t where
    e1: "conn_round J i1 fd e = Some (True, (set_conn fd d e)\<lparr>em_files := files, em_buffer := buf\<rparr>)"
      "reads (conn_of fd e) d" "rx d = rest" "task_buffer_inv buf" "task_buffer_items buf = [t]" "rt_data t = Live content"
      "cstr (rt_task_id t) = tid" by auto
  let ?e1 = "(set_conn fd d e)\<lparr>em_files := files, em_buffer := buf\<rparr>"
  have c1: "client_conn (em_unix ?e1) = client_conn (em_unix e)" "client_ready (em_unix ?e1)"
    using b by (simp_all add: client_ready_def client_conn_def set_conn_def)
  have js: "object_text js" "length js < RESPONSE_SIZE - 1" "NUL \<notin> set js" "skip_blanks js = js"
    using assms(13) by (simp_all add: status_answer_def)
  obtain j st where j: "j_parse J js = Some j" "j_string J j ''status'' = Some st"
    using assms(13) by (auto simp: status_answer_def split: option.splits)
  have "\<exists>b u q. worker_round J wi ?e1 = Some (?e1\<lparr>em_buffer := b, em_unix := u,
      em_files := (em_files ?e1)(result_path (cstr (rt_task_id t)) \<mapsto> js), em_results := q\<rparr>) \<and>
    task_buffer_inv b \<and> task_buffer_items b = [] \<and> others u = others (em_unix ?e1) \<and>
    tx (client_conn u) = tx (client_conn (em_unix ?e1)) @ cstr content \<and> result_queue_inv q \<and>
    result_queue_items q = result_queue_items (em_results ?e1) @ [node_result t]"
    using b e1 c1 assms(8,11,12,18,19) result_queue_bounds [of "em_results e"]
    by (intro chunk_answered [OF _ _ _ _ e1(6) assms(6) c1(2) _ _ js j]) simp_all
  then obtain b2 u q where
    e2: "worker_round J wi ?e1 = Some (?e1\<lparr>em_buffer := b2, em_unix := u,
      em_files := (em_files ?e1)(result_path tid \<mapsto> js), em_results := q\<rparr>)"
      "task_buffer_items b2 = []" "others u = others (em_unix ?e1)"
      "tx (client_conn u) = tx (client_conn (em_unix e)) @ cstr content" "result_queue_inv q"
      "result_queue_items q = [node_result t]" using b c1(1) e1(7) by auto
  let ?e2 = "?e1\<lparr>em_buffer := b2, em_unix := u, em_files := (em_files ?e1)(result_path tid \<mapsto> js), em_results := q\<rparr>"
  have fd: "fd \<noteq> unix_client_sockfd (em_unix ?e1)" using b by (simp add: set_conn_def)
  have "conn_of fd ?e2 = d" using others_conn(1) [OF e2(3) fd] by (simp add: conn_of_def set_conn_def)
  moreover note others_conn(2) [OF e2(3) fd] node_result_fields [of t, unfolded e1(7), OF assms(8)]
  ultimately show ?thesis using e1 e2 fd b
    by (intro exI [of _ ?e1] exI [of _ ?e2] exI [of _ "node_result t"]) simp
qed

text \<open>What the iteration of the employer's main loop meets that receives the result of its employee \<open>i\<close>.\<close>

definition result_arrives :: "int multiset \<Rightarrow> int \<Rightarrow> nat \<Rightarrow> string \<Rightarrow> round_input \<Rightarrow> employer \<Rightarrow> bool" where
  "result_arrives B discovery_fd i tid inp m \<longleftrightarrow> employer_ok B m \<and> discovery_fd \<in># B \<and>
     0 \<le> en_sockfd (ep_employees m ! i) \<and> in_ready inp = [en_sockfd (ep_employees m ! i)] \<and> in_json_mem inp \<and>
     in_can_write inp (''./results/result_'' @ tid) \<and> length (in_junk inp) = 256"


text \<open>The two messages of a trip with two different texts, and the answer of the script.\<close>

definition demo_trip_json :: "(string \<times> json_item) list json_ops" where
  "demo_trip_json = (let J = list_json [] [] in
     J\<lparr>j_print := (\<lambda>j. Some (if j = task_metadata J ''t'' ''f'' ''h'' then ''m'' else ''r'')),
       j_parse := [''m'' \<mapsto> task_metadata J ''t'' ''f'' ''h'', ''r'' \<mapsto> result_metadata J ''t'' 2,
         [CHR ''{'', CHR ''}''] \<mapsto> [(''status'', Item_string ''ok'')]]\<rparr>)"

lemma json_object_texts [simp]: "json_object (J\<lparr>j_print := p, j_parse := q\<rparr>) = json_object J"
  by (simp add: json_object_def)

lemma demo_trip_json: "json_object demo_trip_json"
    "json_text demo_trip_json (task_metadata demo_trip_json ''t'' ''f'' ''h'') ''m''"
    "json_text demo_trip_json (result_metadata demo_trip_json ''t'' 2) ''r''"
    "status_answer demo_trip_json [CHR ''{'', CHR ''}'']"
proof -
  show "json_object demo_trip_json" by (simp add: demo_trip_json_def list_json_object Let_def)
  show "json_text demo_trip_json (task_metadata demo_trip_json ''t'' ''f'' ''h'') ''m''"
    "json_text demo_trip_json (result_metadata demo_trip_json ''t'' 2) ''r''"
    by (simp_all add: demo_trip_json_def json_text_def list_json_def task_metadata_def create_task_metadata_def
        result_metadata_def Let_def)
  have "object_text [CHR ''{'', CHR ''}'']"
    by (simp add: object_text_def scan_start_def scan_char_def upt_rec [of _ 2] numeral_eq_Suc)
  then show "status_answer demo_trip_json [CHR ''{'', CHR ''}'']"
    by (simp add: status_answer_def demo_trip_json_def list_json_def Let_def RESPONSE_SIZE_def skip_blanks_def)
qed

definition demo_traveller :: employee where
  "demo_traveller = set_conn 5 (demo_conn (frame ''m'' @ be32 2 @ [CHR ''x'', NUL]) [65540, 65540])
     (demo_emp [] [] (demo_conn [CHR ''{'', CHR ''}''] []))"

definition demo_waiting :: employer where
  "demo_waiting = (demo_employer [demo_assignment ''t'' True False] [demo_node ''h'' 3 1])
     \<lparr>ep_os := demo_os\<lparr>os_conn := (\<lambda>_. demo_conn (frame ''r'' @ be32 2 @ [CHR ''{'', CHR ''}'']) [])\<rparr>\<rparr>"

lemma be32_two: "be32 (Suc (Suc 0)) = be32 2"
  by (simp only: numeral_2_eq_2)

lemma demo_trip_sent:
  "\<exists>w'. send_file_to_employee demo_trip_json (demo_files [CHR ''x'', NUL]) 3 (Some ''f'') (Some ''t'') ''h'' demo_os = (0, w') \<and>
     tx (os_conn w' 3) = frame ''m'' @ be32 2 @ [CHR ''x'', NUL]"
  by (simp add: send_file_to_employee_def demo_trip_json_def list_json_def demo_files_def on_conn_def Let_def
      send_json_def sk_write_def demo_os_def demo_conn_def send_sized_def send_content.simps [of "Suc (Suc 0)"]
      frame_def cstr_def task_metadata_def create_task_metadata_def be32_two)


end
