(* ===== verification/Sysinfo_Proofs.thy ===== *)
theory Sysinfo_Proofs
  imports Volcom_Sysinfo
begin

text \<open>
  The proofs about the system information: the saved configuration is read back, and the numbers of
  \<open>/proc/stat\<close> and \<open>/proc/meminfo\<close> end where they belong.
\<close>

section \<open>Evaluating the scanner\<close>

lemmas scan_eval = sscanf_def conversion_def is_space_def is_digit_def signed_digits_nat signed_digits_int
  drop_space_dec_nat drop_space_dec_int cstr_id

definition int32 :: "int \<Rightarrow> bool" where
  "int32 i \<longleftrightarrow> - (2 ^ 31) \<le> i \<and> i < 2 ^ 31"

lemma int_of_dec32 [simp]: "int32 i \<Longrightarrow> int_of_digits (i < 0) (dec_nat (nat \<bar>i\<bar>)) = i"
  by (simp add: int32_def int_of_dec)

section \<open>The saved configuration\<close>

lemma load_memory_max:
  "load_config_line (''Memory Size (Max): '' @ dec_nat (unat v) @ '' kB'' @ [NL]) config
     = config\<lparr>cf_mem_config := (cf_mem_config config)\<lparr>mc_allocated_memory_size_max := v\<rparr>\<rparr>"
  by (simp add: load_config_line_def scan_eval)

lemma load_memory_high:
  "load_config_line (''Memory Size (High): '' @ dec_nat (unat v) @ '' kB'' @ [NL]) config
     = config\<lparr>cf_mem_config := (cf_mem_config config)\<lparr>mc_allocated_memory_size_high := v\<rparr>\<rparr>"
  by (simp add: load_config_line_def scan_eval)

lemma load_swap_max:
  "load_config_line (''Swap Memory Size (Max): '' @ dec_nat (unat v) @ '' kB'' @ [NL]) config
     = config\<lparr>cf_mem_config := (cf_mem_config config)\<lparr>mc_allocated_swap_memory_size_max := v\<rparr>\<rparr>"
  by (simp add: load_config_line_def scan_eval)

lemma load_swap_high:
  "load_config_line (''Swap Memory Size (High): '' @ dec_nat (unat v) @ '' kB'' @ [NL]) config
     = config\<lparr>cf_mem_config := (cf_mem_config config)\<lparr>mc_allocated_swap_memory_size_high := v\<rparr>\<rparr>"
  by (simp add: load_config_line_def scan_eval)

lemma load_oom:
  "int32 i \<Longrightarrow> load_config_line (''Memory OOM Protection: '' @ dec_int i @ [NL]) config
     = config\<lparr>cf_mem_config := (cf_mem_config config)\<lparr>mc_memory_oom_protection := i\<rparr>\<rparr>"
  by (simp add: load_config_line_def scan_eval)

lemma load_processors:
  "int32 i \<Longrightarrow> load_config_line (''Allocated Logical Processors: '' @ dec_int i @ [NL]) config
     = config\<lparr>cf_cpu_config := (cf_cpu_config config)\<lparr>cc_allocated_logical_processors := i\<rparr>\<rparr>"
  by (simp add: load_config_line_def scan_eval)

lemma load_share:
  "int32 i \<Longrightarrow> load_config_line (''Allocated CPU Share: '' @ dec_int i @ [NL]) config
     = config\<lparr>cf_cpu_config := (cf_cpu_config config)\<lparr>cc_allocated_cpu_share := i\<rparr>\<rparr>"
  by (simp add: load_config_line_def scan_eval)

text \<open>The headings are no settings.\<close>

lemma load_headings:
  "load_config_line (''System Configuration:'' @ [NL]) config = config"
  "load_config_line (''Memory Configuration:'' @ [NL]) config = config"
  "load_config_line (''CPU Configuration:'' @ [NL]) config = config"
  "load_config_line (''----------------------'' @ [NL]) config = config"
  "load_config_line [NL] config = config"
  by (simp_all add: load_config_line_def scan_eval)

lemmas load_lines = load_memory_max [simplified] load_memory_high [simplified] load_swap_max [simplified]
  load_swap_high [simplified] load_oom [simplified] load_processors [simplified] load_share [simplified]
  load_headings [simplified]

lemma fgets_lines:
  "\<forall>l \<in> set ls. NL \<notin> set l \<and> length l \<le> n \<Longrightarrow> fgets_all n (concat (map (\<lambda>l. l @ [NL]) ls)) = map (\<lambda>l. l @ [NL]) ls"
proof (induction ls)
  case (Cons l ls)
  then show ?case using fgets_all_line [of l n "concat (map (\<lambda>l. l @ [NL]) ls)"] by simp
qed simp

definition config_in_range :: "config_s \<Rightarrow> bool" where
  "config_in_range c \<longleftrightarrow> int32 (mc_memory_oom_protection (cf_mem_config c)) \<and>
     int32 (cc_allocated_logical_processors (cf_cpu_config c)) \<and> int32 (cc_allocated_cpu_share (cf_cpu_config c))"

lemma config_lines_short:
  assumes "config_in_range c" and "l \<in> set (config_lines c)"
  shows "NL \<notin> set l \<and> length l \<le> 254"
proof -
  have i: "int32 i \<Longrightarrow> length (dec_int i) \<le> 11" for i by (simp add: int32_def length_dec_int)
  have "list_all (\<lambda>l. NL \<notin> set l \<and> length l \<le> 254) (config_lines c)"
    using assms(1) i [of "mc_memory_oom_protection (cf_mem_config c)"]
      i [of "cc_allocated_logical_processors (cf_cpu_config c)"] i [of "cc_allocated_cpu_share (cf_cpu_config c)"]
      length_dec_u64 [of "mc_allocated_memory_size_max (cf_mem_config c)"]
      length_dec_u64 [of "mc_allocated_memory_size_high (cf_mem_config c)"]
      length_dec_u64 [of "mc_allocated_swap_memory_size_max (cf_mem_config c)"]
      length_dec_u64 [of "mc_allocated_swap_memory_size_high (cf_mem_config c)"]
    by (simp add: config_lines_def config_in_range_def Let_def)
  with assms(2) show ?thesis by (simp add: list_all_iff)
qed

lemma load_saved_lines:
  assumes "config_in_range c"
  shows "fold load_config_line (map (\<lambda>l. l @ [NL]) (config_lines c)) zero_config = c"
  using assms by (simp add: config_lines_def config_in_range_def Let_def load_lines zero_config_def)

section \<open>The lines of \<open>/proc/stat\<close>\<close>

definition stat_numbers :: "u64 list \<Rightarrow> string" where
  "stat_numbers ns = concat (map (\<lambda>n. CHR '' '' # dec_nat (unat n)) ns)"

definition overall_line :: "u64 list \<Rightarrow> string" where
  "overall_line ns = ''cpu '' @ stat_numbers ns"

definition core_line :: "nat \<times> u64 list \<Rightarrow> string" where
  "core_line c = ''cpu'' @ dec_nat (fst c) @ stat_numbers (snd c)"

lemma number_ends_stat: "number_ends rest \<Longrightarrow> number_ends (stat_numbers ns @ rest)"
  by (cases ns) (simp_all add: stat_numbers_def is_digit_def)

lemma scan_ulongs:
  assumes "number_ends rest"
  shows "scan (concat (replicate (length ns) [Ws, Ulong])) (stat_numbers ns @ rest) = map S_ulong ns"
proof (induction ns)
  case Nil
  then show ?case by simp
next
  case (Cons n ns)
  have "dropWhile is_space (stat_numbers (n # ns) @ rest) = dec_nat (unat n) @ stat_numbers ns @ rest"
    by (simp add: stat_numbers_def drop_space_dec_nat is_space_def)
  with signed_digits_nat [OF number_ends_stat [OF assms], of "unat n" ns] Cons show ?case by simp
qed

lemma directives_ulongs: "directives ulongs_format = concat (replicate 10 [Ws, Ulong])"
  by (simp add: ulongs_format_def conversion_def is_space_def numeral_eq_Suc)

lemma directives_cpu: "directives (''cpu'' @ f) = [Lit CHR ''c'', Lit CHR ''p'', Lit CHR ''u''] @ directives f"
  by (simp add: is_space_def)

lemma directives_cpu_skip:
  "directives (''cpu%*d'' @ f) = [Lit CHR ''c'', Lit CHR ''p'', Lit CHR ''u'', Skip_int] @ directives f"
  by (simp add: is_space_def conversion_def)

lemma stat_numbers_clean: "NUL \<notin> set (stat_numbers ns) \<and> NL \<notin> set (stat_numbers ns)"
  by (auto simp: stat_numbers_def)

lemma length_stat_numbers: "length (stat_numbers ns) \<le> 21 * length ns"
proof (induction ns)
  case (Cons n ns)
  with length_dec_u64 [of n] show ?case by (simp add: stat_numbers_def)
qed (simp add: stat_numbers_def)

lemma overall_line_clean: "length ns = 10 \<Longrightarrow> NL \<notin> set (overall_line ns) \<and> length (overall_line ns) \<le> 254"
  using length_stat_numbers [of ns] stat_numbers_clean [of ns] by (simp add: overall_line_def)

lemma core_line_clean:
  "length (snd c) = 10 \<Longrightarrow> fst c < 10 ^ 10 \<Longrightarrow> NL \<notin> set (core_line c) \<and> length (core_line c) \<le> 254"
  using length_stat_numbers [of "snd c"] stat_numbers_clean [of "snd c"] length_dec_nat [of 10 "fst c"]
  by (simp add: core_line_def)

lemma scan_ws: "scan (Ws # ds) (CHR '' '' # inp) = scan (Ws # ds) inp"
  by (simp add: is_space_def)

lemma scan_overall:
  assumes "length ns = 10"
  shows "sscanf (overall_line ns @ [NL]) (''cpu'' @ ulongs_format) = map S_ulong ns"
proof -
  have c: "cstr (overall_line ns @ [NL]) = overall_line ns @ [NL]"
    using stat_numbers_clean by (intro cstr_id) (simp add: overall_line_def)
  have "scan (concat (replicate 10 [Ws, Ulong])) (CHR '' '' # stat_numbers ns @ [NL])
      = scan (concat (replicate 10 [Ws, Ulong])) (stat_numbers ns @ [NL])"
    by (simp only: numeral_eq_Suc pred_numeral_simps replicate_Suc concat.simps append_Cons append_Nil scan_ws)
  with scan_ulongs [of "[NL]" ns] assms c show ?thesis
    unfolding sscanf_def directives_cpu directives_ulongs c
    by (simp add: overall_line_def is_digit_def)
qed

lemma scan_core:
  assumes "length (snd c) = 10"
  shows "sscanf (core_line c @ [NL]) (''cpu%*d'' @ ulongs_format) = map S_ulong (snd c)"
proof -
  have e: "cstr (core_line c @ [NL]) = core_line c @ [NL]"
    using stat_numbers_clean by (intro cstr_id) (simp add: core_line_def)
  have "number_ends (stat_numbers (snd c) @ [NL])" by (intro number_ends_stat) (simp add: is_digit_def)
  from signed_digits_nat [OF this, of "fst c"] scan_ulongs [of "[NL]" "snd c"] assms e show ?thesis
    unfolding sscanf_def directives_cpu_skip directives_ulongs e
    by (simp add: core_line_def is_digit_def)
qed

definition set_usage :: "u64 list \<Rightarrow> 'd cpu_core_usage_s \<Rightarrow> 'd cpu_core_usage_s" where
  "set_usage ns u = assign_usage (map S_ulong ns) u"

lemma stat_line_overall:
  "length ns = 10 \<Longrightarrow> stat_line D n (overall_line ns @ [NL]) (ov, cores, k) = (sum_usage D (set_usage ns ov), cores, k)"
proof -
  assume l: "length ns = 10"
  have "starts_with (overall_line ns @ [NL]) ''cpu ''"
    by (simp add: starts_with_def overall_line_def cstr_def)
  with scan_overall [OF l] show ?thesis by (simp add: stat_line_def set_usage_def)
qed

lemma stat_line_core:
  assumes "length (snd c) = 10" and "int k < n"
  shows "stat_line D n (core_line c @ [NL]) (ov, cores, k)
    = (ov, cores[k := sum_usage D (set_usage (snd c) (cores ! k))], k + 1)"
proof -
  obtain d ds where d: "dec_nat (fst c) = d # ds" "is_digit d" using dec_nat_head by blast
  have e: "cstr (core_line c @ [NL]) = core_line c @ [NL]"
    using stat_numbers_clean by (intro cstr_id) (simp add: core_line_def)
  have "\<not> starts_with (core_line c @ [NL]) ''cpu ''" "starts_with (core_line c @ [NL]) ''cpu''"
    "list_ex is_digit (take 1 (drop 3 (cstr (core_line c @ [NL]))))"
    using d is_digit_not_space [OF d(2)] unfolding starts_with_def e
    by (auto simp: core_line_def is_space_def)
  with scan_core [OF assms(1)] assms(2) show ?thesis by (simp add: stat_line_def set_usage_def)
qed

lemma starts_with_prefix: "starts_with l (a @ b) \<Longrightarrow> starts_with l a"
proof -
  assume "starts_with l (a @ b)"
  then have "take (length a) (take (length (a @ b)) (cstr l)) = a" by (simp add: starts_with_def)
  then show ?thesis by (simp add: starts_with_def min_def)
qed

lemma stat_line_other: "\<not> starts_with l ''cpu'' \<Longrightarrow> stat_line D n l s = s"
proof -
  assume n: "\<not> starts_with l ''cpu''"
  with starts_with_prefix [of l "''cpu''" "'' ''"] have "\<not> starts_with l ''cpu ''" by auto
  with n show ?thesis by (cases s) (simp add: stat_line_def)
qed

lemma stat_lines_cores:
  assumes "\<forall>c \<in> set cs. length (snd c) = 10" and "length cells = length cs" and "int (length pre + length cs) \<le> n"
  shows "fold (stat_line D n) (map (\<lambda>c. core_line c @ [NL]) cs) (ov, pre @ cells, length pre)
    = (ov, pre @ map2 (\<lambda>c u. sum_usage D (set_usage (snd c) u)) cs cells, length pre + length cs)"
  using assms
proof (induction cs arbitrary: pre cells)
  case Nil
  then show ?case by simp
next
  case (Cons c cs)
  then obtain u us where u: "cells = u # us" "length us = length cs" by (cases cells) auto
  let ?u = "sum_usage D (set_usage (snd c) u)"
  have "fold (stat_line D n) (map (\<lambda>c. core_line c @ [NL]) cs) (ov, (pre @ [?u]) @ us, length (pre @ [?u]))
      = (ov, (pre @ [?u]) @ map2 (\<lambda>c u. sum_usage D (set_usage (snd c) u)) cs us, length (pre @ [?u]) + length cs)"
    using Cons.prems u by (intro Cons.IH) auto
  with Cons.prems u show ?case by (simp add: stat_line_core list_update_append nth_append)
qed

lemma stat_lines_other: "\<forall>l \<in> set ls. \<not> starts_with l ''cpu'' \<Longrightarrow> fold (stat_line D n) ls s = s"
  by (induction ls) (simp_all add: stat_line_other)

section \<open>The sums\<close>

lemma unat_add_small: "unat (a :: u64) + unat b < 2 ^ 64 \<Longrightarrow> unat (a + b) = unat a + unat b"
  by (simp add: unat_word_ariths)

lemma unat_sub_small: "unat (b :: u64) \<le> unat a \<Longrightarrow> unat (a - b) = unat a - unat b"
  by (simp add: unat_sub word_le_nat_alt)

lemma sum_usage_exact:
  assumes "length ns = 10" and "sum_list (map unat (take 8 ns)) < 2 ^ 64"
  shows "let u = sum_usage D (set_usage ns u0) in
    cu_user u = ns ! 0 \<and> cu_system u = ns ! 2 \<and> cu_idle u = ns ! 3 \<and> cu_iowait u = ns ! 4 \<and>
    unat (cu_total u) = sum_list (map unat (take 8 ns)) \<and>
    unat (cu_used u) = unat (ns ! 0) + unat (ns ! 1) + unat (ns ! 2) + unat (ns ! 5) + unat (ns ! 6) + unat (ns ! 7)"
proof -
  from assms(1) obtain a b c d e f g h i j where ns: "ns = [a, b, c, d, e, f, g, h, i, j]"
    by (auto simp: numeral_eq_Suc length_Suc_conv)
  have b: "unat a + unat b + unat c + unat d + unat e + unat f + unat g + unat h < 2 ^ 64"
    using assms(2) ns by (simp add: add.assoc)
  have t: "unat (a + b + c + d + e + f + g + h) = unat a + unat b + unat c + unat d + unat e + unat f + unat g + unat h"
    using b by (simp add: unat_add_small)
  have u: "unat (a + (b + (c + (f + (g + h))))) = unat a + unat b + unat c + unat f + unat g + unat h"
    using b by (simp add: unat_add_small)
  show ?thesis
    using t u by (simp add: ns sum_usage_def set_usage_def assign_usage_def usage_fields_def Let_def)
qed

section \<open>Properties\<close>

text \<open>C25: a configuration that is saved and loaded again comes back with every zero setting replaced by
  its default and every other setting unchanged, whatever the sizes; in particular it comes back as
  it was when no setting is zero.\<close>
theorem saved_config_loaded:
  assumes "config_in_range c"
  shows "load_config (snd (save_config True c)) = with_defaults c \<and>
    (with_defaults c = c \<longleftrightarrow>
      mc_allocated_memory_size_max (cf_mem_config c) \<noteq> 0 \<and> mc_allocated_memory_size_high (cf_mem_config c) \<noteq> 0 \<and>
      mc_allocated_swap_memory_size_max (cf_mem_config c) \<noteq> 0 \<and> mc_allocated_swap_memory_size_high (cf_mem_config c) \<noteq> 0 \<and>
      mc_memory_oom_protection (cf_mem_config c) \<noteq> 0 \<and>
      cc_allocated_logical_processors (cf_cpu_config c) \<noteq> 0 \<and> cc_allocated_cpu_share (cf_cpu_config c) \<noteq> 0)"
proof
  have "\<forall>l \<in> set (config_lines c). NL \<notin> set l \<and> length l \<le> 254"
    using config_lines_short [OF assms] by blast
  from fgets_lines [OF this] load_saved_lines [OF assms]
  show "load_config (snd (save_config True c)) = with_defaults c"
    by (simp add: load_config_def save_config_def)
  show "with_defaults c = c \<longleftrightarrow>
      mc_allocated_memory_size_max (cf_mem_config c) \<noteq> 0 \<and> mc_allocated_memory_size_high (cf_mem_config c) \<noteq> 0 \<and>
      mc_allocated_swap_memory_size_max (cf_mem_config c) \<noteq> 0 \<and> mc_allocated_swap_memory_size_high (cf_mem_config c) \<noteq> 0 \<and>
      mc_memory_oom_protection (cf_mem_config c) \<noteq> 0 \<and>
      cc_allocated_logical_processors (cf_cpu_config c) \<noteq> 0 \<and> cc_allocated_cpu_share (cf_cpu_config c) \<noteq> 0"
    by (cases c; cases "cf_mem_config c"; cases "cf_cpu_config c") (auto simp: with_defaults_def Let_def)
qed

definition demo_config_s :: config_s where
  "demo_config_s = \<lparr>cf_mem_config = \<lparr>mc_allocated_memory_size_max = 2048, mc_allocated_memory_size_high = 1024,
     mc_allocated_swap_memory_size_max = 7, mc_allocated_swap_memory_size_high = 5, mc_memory_oom_protection = 0\<rparr>,
     cf_cpu_config = \<lparr>cc_allocated_logical_processors = 2, cc_allocated_cpu_share = -3\<rparr>\<rparr>"

theorem saved_config_loaded_witness:
  "cf_cpu_config (load_config (snd (save_config True demo_config_s))) = cf_cpu_config demo_config_s \<and>
   mc_memory_oom_protection (cf_mem_config (load_config (snd (save_config True demo_config_s)))) = 1"
  using saved_config_loaded [of demo_config_s]
  by (simp add: demo_config_s_def config_in_range_def int32_def with_defaults_def)

text \<open>\<open>get_cpu_usage\<close> reads \<open>/proc/stat\<close> exactly: the overall numbers come from the \<open>cpu\<close> line, cell
  \<open>k\<close> from the \<open>k\<close>-th core line, and, as long as the sum of the eight times fits 64 bits, the total is
  that sum and the used time is the total without idle and I/O wait, with no wrap-around.\<close>
theorem cpu_usage_exact:
  assumes "length ns = 10" and "\<forall>c \<in> set cs. length (snd c) = 10 \<and> fst c < 10 ^ 10"
    and "\<forall>l \<in> set ls. NL \<notin> set l \<and> length l \<le> 254 \<and> \<not> starts_with (l @ [NL]) ''cpu''"
    and "length cells = length cs" and "ci_logical_processors info = int (length cs)"
    and "\<forall>ns' \<in> set (ns # map snd cs). sum_list (map unat (take 8 ns')) < 2 ^ 64"
  shows "let info' = get_cpu_usage D (Some (concat (map (\<lambda>l. l @ [NL]) (overall_line ns # map core_line cs @ ls)))) (Some cells) info;
             exact = (\<lambda>ns u. cu_user u = ns ! 0 \<and> cu_idle u = ns ! 3 \<and>
               unat (cu_total u) = sum_list (map unat (take 8 ns)) \<and>
               unat (cu_used u) = unat (ns ! 0) + unat (ns ! 1) + unat (ns ! 2) + unat (ns ! 5) + unat (ns ! 6) + unat (ns ! 7))
         in exact ns (ci_overall_usage info') \<and>
            (\<exists>us. ci_core_usage info' = Live us \<and> list_all2 (\<lambda>c u. exact (snd c) u) cs us)"
proof -
  let ?ls = "overall_line ns # map core_line cs @ ls"
  have "\<forall>l \<in> set ?ls. NL \<notin> set l \<and> length l \<le> 254"
    using assms(1-3) by (auto simp: overall_line_clean core_line_clean)
  from fgets_lines [OF this] have f: "fgets_all 254 (concat (map (\<lambda>l. l @ [NL]) ?ls)) = map (\<lambda>l. l @ [NL]) ?ls" .
  let ?ov = "sum_usage D (set_usage ns (ci_overall_usage info))"
  let ?us = "map2 (\<lambda>c u. sum_usage D (set_usage (snd c) u)) cs cells"
  have "fold (stat_line D (int (length cs))) (map (\<lambda>l. l @ [NL]) (map core_line cs)) (?ov, cells, 0) = (?ov, ?us, length cs)"
    using stat_lines_cores [of cs cells "[]"] assms(2,4) by (simp add: comp_def)
  moreover have "fold (stat_line D (int (length cs))) (map (\<lambda>l. l @ [NL]) ls) s = s" for s :: "'a cpu_core_usage_s \<times> 'a cpu_core_usage_s list \<times> nat"
    using assms(3) by (intro stat_lines_other) auto
  moreover have "stat_line D n (overall_line ns @ [NL]) (ci_overall_usage info, cells, 0) = (?ov, cells, 0)" for n
    using assms(1) by (rule stat_line_overall)
  ultimately have h: "fold (stat_line D (int (length cs))) (map (\<lambda>l. l @ [NL]) ?ls) (ci_overall_usage info, cells, 0)
      = (?ov, ?us, length cs)"
    by simp
  have g: "get_cpu_usage D (Some (concat (map (\<lambda>l. l @ [NL]) ?ls))) (Some cells) info
      = info\<lparr>ci_overall_usage := ?ov, ci_core_usage := Live ?us\<rparr>"
    unfolding get_cpu_usage_def option.case f assms(5) h by simp
  have "list_all2 (\<lambda>c u. let ns = snd c in cu_user u = ns ! 0 \<and> cu_idle u = ns ! 3 \<and>
               unat (cu_total u) = sum_list (map unat (take 8 ns)) \<and>
               unat (cu_used u) = unat (ns ! 0) + unat (ns ! 1) + unat (ns ! 2) + unat (ns ! 5) + unat (ns ! 6) + unat (ns ! 7)) cs ?us"
    using assms(2,4,6) sum_usage_exact by (fastforce simp: list_all2_conv_all_nth Let_def)
  with g sum_usage_exact [OF assms(1), of D "ci_overall_usage info"] assms(6) show ?thesis
    by (simp add: Let_def)
qed

definition demo_info_s :: "int cpu_info_s" where
  "demo_info_s = \<lparr>ci_cpu_count = 1, ci_logical_processors = 1, ci_model = zbuf 256 ''cpu'',
     ci_overall_usage = zero_usage int_double, ci_core_usage = Null\<rparr>"

theorem cpu_usage_exact_witness:
  "let info' = get_cpu_usage int_double
       (Some (concat (map (\<lambda>l. l @ [NL]) (overall_line [1, 2, 3, 4, 5, 6, 7, 8, 9, 10] # map core_line [(0, [9, 8, 7, 6, 5, 4, 3, 2, 1, 0])] @ [''ctxt 5'']))))
       (Some [zero_usage int_double]) demo_info_s
   in unat (cu_total (ci_overall_usage info')) = 36 \<and> unat (cu_used (ci_overall_usage info')) = 27"
  using cpu_usage_exact [of "[1, 2, 3, 4, 5, 6, 7, 8, 9, 10]" "[(0, [9, 8, 7, 6, 5, 4, 3, 2, 1, 0])]" "[''ctxt 5'']"
      "[zero_usage int_double]" demo_info_s int_double]
  by (simp add: demo_info_s_def starts_with_def cstr_def Let_def)

section \<open>Memory\<close>

text \<open>A line of \<open>/proc/meminfo\<close>: a key, a colon, blanks, a number and a unit.\<close>

definition mem_line :: "string \<times> nat \<times> u64 \<times> string \<Rightarrow> string" where
  "mem_line e = (case e of (key, pad, n, u) \<Rightarrow> key @ '':'' @ replicate pad (CHR '' '') @ dec_nat (unat n) @ u)"

definition mem_entry :: "string \<times> nat \<times> u64 \<times> string \<Rightarrow> bool" where
  "mem_entry e \<longleftrightarrow> (case e of (key, pad, n, u) \<Rightarrow>
     CHR '':'' \<notin> set key \<and> NL \<notin> set key \<and> NUL \<notin> set key \<and>
     NL \<notin> set u \<and> NUL \<notin> set u \<and> number_ends u \<and> length (mem_line e) \<le> 254)"

text \<open>The number the last line with a key gives.\<close>

definition mem_value :: "(string \<times> nat \<times> u64 \<times> string) list \<Rightarrow> string \<Rightarrow> u64" where
  "mem_value es key = (case map_of (rev (map (\<lambda>(k, _, n, _). (k, n)) es)) key of None \<Rightarrow> 0 | Some n \<Rightarrow> n)"

lemma take_key:
  assumes "c \<notin> set k" and "c \<notin> set k'"
  shows "take (length (k' @ [c])) (k @ c # r) = k' @ [c] \<longleftrightarrow> k = k'"
  using assms
proof (induction k' arbitrary: k)
  case Nil
  then show ?case by (cases k) auto
next
  case (Cons x k')
  then show ?case by (cases k) auto
qed

lemma mem_line_clean: "mem_entry e \<Longrightarrow> NL \<notin> set (mem_line e) \<and> NUL \<notin> set (mem_line e)"
  by (auto simp: mem_entry_def mem_line_def dest: in_set_replicate [THEN iffD1])

lemma mem_line_starts:
  assumes "mem_entry (key, pad, n, u)" and "CHR '':'' \<notin> set k"
  shows "starts_with (mem_line (key, pad, n, u) @ [NL]) (k @ '':'') \<longleftrightarrow> key = k"
proof -
  have "cstr (mem_line (key, pad, n, u) @ [NL]) = mem_line (key, pad, n, u) @ [NL]"
    using mem_line_clean [OF assms(1)] by (intro cstr_id) simp
  moreover have "CHR '':'' \<notin> set key" using assms(1) by (simp add: mem_entry_def)
  ultimately show ?thesis
    using take_key [OF _ assms(2), of key "replicate pad (CHR '' '') @ dec_nat (unat n) @ u @ [NL]"]
    by (simp add: starts_with_def mem_line_def)
qed

lemma scan_lits: "scan (map Lit k @ ds) (k @ inp) = scan ds inp"
  by (induction k) simp_all

lemma drop_blanks: "dropWhile is_space (replicate pad (CHR '' '') @ dec_nat n @ r) = dec_nat n @ r"
proof -
  have "is_space (CHR '' '')" by (simp add: is_space_def)
  then show ?thesis by (induction pad) (simp_all add: drop_space_dec_nat)
qed

lemma scan_mem_line:
  assumes "mem_entry (key, pad, n, u)" and "directives fmt = map Lit (key @ '':'') @ Ws # Ulong # ds"
  shows "scan_ulong (mem_line (key, pad, n, u) @ [NL]) fmt old = n"
proof -
  have c: "cstr (mem_line (key, pad, n, u) @ [NL]) = (key @ '':'') @ replicate pad (CHR '' '') @ dec_nat (unat n) @ u @ [NL]"
    using mem_line_clean [OF assms(1)] by (subst cstr_id) (simp_all add: mem_line_def)
  have e: "number_ends (u @ [NL])"
    using assms(1) by (cases u) (auto simp: mem_entry_def is_digit_def)
  have "scan (directives fmt) ((key @ '':'') @ replicate pad (CHR '' '') @ dec_nat (unat n) @ u @ [NL])
      = S_ulong n # scan ds (u @ [NL])"
    unfolding assms(2) scan_lits using scan_Ulong [OF e, of ds n] by (simp add: drop_blanks)
  with c show ?thesis by (simp add: scan_ulong_def sscanf_def)
qed

lemma meminfo_line_mem:
  assumes "mem_entry (key, pad, n, u)"
  shows "meminfo_line (mem_line (key, pad, n, u) @ [NL]) m =
    (if key = ''MemTotal'' then m\<lparr>mi_total := n\<rparr> else if key = ''MemFree'' then m\<lparr>mi_free := n\<rparr>
     else if key = ''Buffers'' then m\<lparr>mi_buffers := n\<rparr> else if key = ''Cached'' then m\<lparr>mi_cached := n\<rparr>
     else if key = ''SwapTotal'' then m\<lparr>mi_swap_total := n\<rparr> else if key = ''SwapFree'' then m\<lparr>mi_swap_free := n\<rparr> else m)"
proof -
  note s = mem_line_starts [OF assms, of "''MemTotal''"] mem_line_starts [OF assms, of "''MemFree''"]
    mem_line_starts [OF assms, of "''Buffers''"] mem_line_starts [OF assms, of "''Cached''"]
    mem_line_starts [OF assms, of "''SwapTotal''"] mem_line_starts [OF assms, of "''SwapFree''"]
  have d: "\<And>k. k \<in> {''MemTotal'', ''MemFree'', ''Buffers'', ''Cached'', ''SwapTotal'', ''SwapFree''} \<Longrightarrow>
      directives (k @ '': %lu kB'') = map Lit (k @ '':'') @ Ws # Ulong # [Ws, Lit CHR ''k'', Lit CHR ''B'']"
    by (auto simp: is_space_def conversion_def)
  have v: "\<And>k. k \<in> {''MemTotal'', ''MemFree'', ''Buffers'', ''Cached'', ''SwapTotal'', ''SwapFree''} \<Longrightarrow> key = k \<Longrightarrow>
      scan_ulong (mem_line (key, pad, n, u) @ [NL]) (k @ '': %lu kB'') old = n" for old
    using scan_mem_line [OF assms] d by blast
  note w = v [of "''MemTotal''"] v [of "''MemFree''"] v [of "''Buffers''"] v [of "''Cached''"]
    v [of "''SwapTotal''"] v [of "''SwapFree''"]
  show ?thesis using s w by (simp add: meminfo_line_def)
qed

lemma mem_value_snoc: "mem_value (es @ [(k, p, n, u)]) key = (if k = key then n else mem_value es key)"
  by (simp add: mem_value_def)

lemma fold_mem_lines:
  "\<forall>e \<in> set es. mem_entry e \<Longrightarrow> fold meminfo_line (map (\<lambda>e. mem_line e @ [NL]) es) zero_memory_info =
    \<lparr>mi_total = mem_value es ''MemTotal'', mi_free = mem_value es ''MemFree'', mi_buffers = mem_value es ''Buffers'',
     mi_cached = mem_value es ''Cached'', mi_swap_total = mem_value es ''SwapTotal'', mi_swap_free = mem_value es ''SwapFree''\<rparr>"
proof (induction es rule: rev_induct)
  case Nil
  then show ?case by (simp add: zero_memory_info_def mem_value_def)
next
  case (snoc e es)
  obtain k p n u where "e = (k, p, n, u)" by (cases e)
  with snoc show ?case by (simp add: meminfo_line_mem mem_value_snoc)
qed

lemma used_memory_value:
  fixes m :: memory_info_s
  defines "away \<equiv> unat (mi_free m) + unat (mi_buffers m) + unat (mi_cached m)"
  shows "away \<le> unat (mi_total m) \<Longrightarrow> unat (used_memory m) = unat (mi_total m) - away"
    and "unat (mi_total m) < away \<Longrightarrow> away < 2 ^ 64 \<Longrightarrow> unat (used_memory m) = 2 ^ 64 - (away - unat (mi_total m))"
proof -
  have i: "uint (used_memory m) = (int (unat (mi_total m)) - int away) mod 2 ^ 64"
    by (simp add: used_memory_def away_def uint_word_ariths mod_simps uint_nat [symmetric] algebra_simps)
  then have u: "int (unat (used_memory m)) = (int (unat (mi_total m)) - int away) mod 2 ^ 64"
    by simp
  show "unat (used_memory m) = unat (mi_total m) - away" if le: "away \<le> unat (mi_total m)"
  proof -
    have "(int (unat (mi_total m)) - int away) mod 2 ^ 64 = int (unat (mi_total m)) - int away"
    proof (rule mod_pos_pos_trivial)
      show "0 \<le> int (unat (mi_total m)) - int away" using le by linarith
      show "int (unat (mi_total m)) - int away < 2 ^ 64" using unsigned_less [of "mi_total m", where 'a = int] by simp
    qed
    with u le show ?thesis by linarith
  qed
  show "unat (used_memory m) = 2 ^ 64 - (away - unat (mi_total m))"
    if gt: "unat (mi_total m) < away" and small: "away < 2 ^ 64"
  proof -
    have "(int (unat (mi_total m)) - int away) mod 2 ^ 64 = (int (unat (mi_total m)) - int away + 2 ^ 64) mod 2 ^ 64"
      by simp
    also have "\<dots> = int (unat (mi_total m)) - int away + 2 ^ 64"
    proof (rule mod_pos_pos_trivial)
      have "int away < 2 ^ 64" using small by (simp only: of_nat_less_numeral_power_cancel_iff)
      then show "0 \<le> int (unat (mi_total m)) - int away + 2 ^ 64"
        using of_nat_0_le_iff [of "unat (mi_total m)", where 'a = int] by linarith
      show "int (unat (mi_total m)) - int away + 2 ^ 64 < 2 ^ 64" using gt by linarith
    qed
    finally have "(int (unat (mi_total m)) - int away) mod 2 ^ 64 = int (unat (mi_total m)) - int away + 2 ^ 64" .
    with u have "int (unat (used_memory m) + (away - unat (mi_total m))) = int (2 ^ 64)"
      using gt by (simp add: of_nat_diff del: of_nat_unat)
    then have "unat (used_memory m) + (away - unat (mi_total m)) = 2 ^ 64" by (simp only: of_nat_eq_iff)
    then show ?thesis by (metis add_diff_cancel_right')
  qed
qed

text \<open>C26: \<open>get_memory_info\<close> gives, for every file of \<open>key: number unit\<close> lines, the number of the last line
  with each of its six keys and 0 for a missing one; the used memory computed from it is the exact
  difference whenever the free, buffer and cache sizes fit the total, and wraps around to a value
  near \<open>2 ^ 64\<close> when they exceed it.\<close>
theorem memory_info_exact:
  assumes "\<forall>e \<in> set es. mem_entry e"
  shows "let m = get_memory_info (Some (concat (map (\<lambda>e. mem_line e @ [NL]) es)));
             away = unat (mi_free m) + unat (mi_buffers m) + unat (mi_cached m) in
    m = \<lparr>mi_total = mem_value es ''MemTotal'', mi_free = mem_value es ''MemFree'', mi_buffers = mem_value es ''Buffers'',
         mi_cached = mem_value es ''Cached'', mi_swap_total = mem_value es ''SwapTotal'', mi_swap_free = mem_value es ''SwapFree''\<rparr> \<and>
    (away \<le> unat (mi_total m) \<longrightarrow> unat (used_memory m) = unat (mi_total m) - away) \<and>
    (unat (mi_total m) < away \<and> away < 2 ^ 64 \<longrightarrow> unat (used_memory m) = 2 ^ 64 - (away - unat (mi_total m)))"
proof -
  let ?m = "get_memory_info (Some (concat (map (\<lambda>e. mem_line e @ [NL]) es)))"
  have "\<forall>l \<in> set (map mem_line es). NL \<notin> set l \<and> length l \<le> 254"
    using assms mem_line_clean by (auto simp: mem_entry_def)
  from fgets_lines [OF this] fold_mem_lines [OF assms]
  have m: "?m = \<lparr>mi_total = mem_value es ''MemTotal'', mi_free = mem_value es ''MemFree'', mi_buffers = mem_value es ''Buffers'',
     mi_cached = mem_value es ''Cached'', mi_swap_total = mem_value es ''SwapTotal'', mi_swap_free = mem_value es ''SwapFree''\<rparr>"
    by (simp add: get_memory_info_def comp_def)
  with used_memory_value [of ?m] show ?thesis unfolding Let_def by blast
qed

definition demo_meminfo :: "(string \<times> nat \<times> u64 \<times> string) list" where
  "demo_meminfo = [(''MemTotal'', 7, 100, '' kB''), (''MemFree'', 8, 60, '' kB''),
     (''SwapCached'', 5, 3, '' kB''), (''Cached'', 9, 50, '' kB'')]"

theorem memory_info_exact_witness:
  "let m = get_memory_info (Some (concat (map (\<lambda>e. mem_line e @ [NL]) demo_meminfo)))
   in mi_total m = 100 \<and> mi_cached m = 50 \<and> unat (used_memory m) = 2 ^ 64 - 10"
proof -
  have "\<forall>e \<in> set demo_meminfo. mem_entry e"
    by (simp add: demo_meminfo_def mem_entry_def mem_line_def dec_nat.simps is_digit_def)
  note e = memory_info_exact [OF this, unfolded Let_def]
  have v: "mem_value demo_meminfo ''MemTotal'' = 100" "mem_value demo_meminfo ''MemFree'' = 60"
    "mem_value demo_meminfo ''Cached'' = 50" "mem_value demo_meminfo ''Buffers'' = 0"
    by (simp_all add: mem_value_def demo_meminfo_def)
  from e [THEN conjunct1] e [THEN conjunct2, THEN conjunct2] v show ?thesis by (simp add: Let_def)
qed

end
