(* ===== verification/Volcom_Main.thy ===== *)
theory Volcom_Main
  imports Employee_Run
begin

text \<open>
  \<open>volcom_main.c\<close>: the program that starts the others. It reads its limits from a file or from the
  commands of a console, creates the main control group with them, and runs as employer or employee;
  from the console it can also run a node script on data points, each time in a group of its own. The
  text of standard input is what is still to be read; the reports the console prints are a list of
  the values printed. What \<open>malloc\<close> and the kernel answer, the process ids and the ends of the children
  come from outside, for each command anew. The result \<open>None\<close> stands for an overflow of a signed
  number, the use of memory that was not set, or a fault in one of the parts.
\<close>

section \<open>One node process\<close>

text \<open>How a child ended, as \<open>waitpid\<close> tells it.\<close>

datatype wait_status = Exited int | Signaled int | Other_status

definition node_argv :: "string \<Rightarrow> string \<Rightarrow> string list" where
  "node_argv script_path data_point = [''node'', script_path, data_point]"

text \<open>The parent's side; the child runs \<open>node_argv\<close>. \<open>pid\<close> is the result of \<open>fork\<close>.\<close>

definition run_node_in_cgroup_o ::
    "cg_kernel \<Rightarrow> (nat \<Rightarrow> int) option \<Rightarrow> int \<Rightarrow> wait_status \<Rightarrow> volcom_rcsmngr_s \<Rightarrow> cgfs
     \<Rightarrow> (int \<times> volcom_rcsmngr_s option \<times> cgfs) option" where
  "run_node_in_cgroup_o K pid_mem pid status m fs =
     (if pid < 0 then Some (-1, Some m, fs)
      else do {
        (_, m, fs) \<leftarrow> volcom_add_pid_to_cgroup K pid_mem (Some m) (Some (cg_name (rm_main_cgroup m))) pid fs;
        Some (case status of Exited code \<Rightarrow> code | Signaled _ \<Rightarrow> -1 | Other_status \<Rightarrow> 0, m, fs)
      })"

section \<open>The data stream\<close>

definition data_points :: "string list" where
  \<open>data_points =
     [''{"id":"sensor_001", "type":"sensor", "value":75}'',
      ''{"id":"calc_001", "type":"calculation", "value":8}'',
      ''{"id":"sensor_002", "type":"sensor", "value":120}'',
      ''{"id":"calc_002", "type":"calculation", "value":5}'',
      ''{"id":"sensor_003", "type":"sensor", "value":45}'',
      ''{"id":"calc_003", "type":"calculation", "value":10}'']\<close>

record stream =
  st_processed :: nat
  st_successful :: nat
  st_failed :: nat
  st_started :: "string list list"

definition zero_stream :: stream where
  "zero_stream = \<lparr>st_processed = 0, st_successful = 0, st_failed = 0, st_started = []\<rparr>"

text \<open>One data point: the counters, and the command line of the child when there is one.\<close>

definition count_run :: "string \<Rightarrow> string \<Rightarrow> int \<Rightarrow> int \<Rightarrow> stream \<Rightarrow> stream" where
  "count_run script_path d pid result st =
     (let st = (if pid < 0 then st else st\<lparr>st_started := st_started st @ [node_argv script_path d]\<rparr>);
          st = (if result = 0 then st\<lparr>st_successful := st_successful st + 1\<rparr>
                else st\<lparr>st_failed := st_failed st + 1\<rparr>)
      in st\<lparr>st_processed := st_processed st + 1\<rparr>)"

fun stream_loop ::
    "cg_kernel \<Rightarrow> (nat \<Rightarrow> int) option \<Rightarrow> string \<Rightarrow> (nat \<Rightarrow> int \<times> wait_status) \<Rightarrow> nat \<Rightarrow> string list \<Rightarrow> stream
     \<Rightarrow> volcom_rcsmngr_s \<Rightarrow> cgfs \<Rightarrow> (stream \<times> volcom_rcsmngr_s option \<times> cgfs) option" where
  "stream_loop K pid_mem script_path runs i [] st m fs = Some (st, Some m, fs)"
| "stream_loop K pid_mem script_path runs i (d # ds) st m fs = do {
     (result, m, fs) \<leftarrow> run_node_in_cgroup_o K pid_mem (fst (runs i)) (snd (runs i)) m fs;
     m \<leftarrow> m;
     stream_loop K pid_mem script_path runs (Suc i) ds (count_run script_path d (fst (runs i)) result st) m fs
   }"

definition process_data_stream ::
    "cg_kernel \<Rightarrow> (nat \<Rightarrow> int) option \<Rightarrow> string \<Rightarrow> (nat \<Rightarrow> int \<times> wait_status) \<Rightarrow> volcom_rcsmngr_s \<Rightarrow> cgfs
     \<Rightarrow> (stream \<times> volcom_rcsmngr_s option \<times> cgfs) option" where
  "process_data_stream K pid_mem script_path runs m fs =
     stream_loop K pid_mem script_path runs 0 data_points zero_stream m fs"

section \<open>A group for a while\<close>

record group_env =
  ge_kernel :: cg_kernel
  ge_cgroup_v2 :: bool
  ge_pids :: "(nat \<Rightarrow> int) option"
  ge_children :: "(nat \<Rightarrow> cgroup_info_s) option"
  ge_strdup :: bool
  ge_stack :: volcom_rcsmngr_s

text \<open>What the commands \<open>process\<close> have in common: a manager on the stack is initialised, its main group
  created, used by \<open>body\<close> and deleted, and the manager cleaned up.\<close>

definition with_group ::
    "group_env \<Rightarrow> string \<Rightarrow> config_s \<Rightarrow> (volcom_rcsmngr_s \<Rightarrow> cgfs \<Rightarrow> ('a \<times> volcom_rcsmngr_s option \<times> cgfs) option)
     \<Rightarrow> cgfs \<Rightarrow> ('a option \<times> cgfs) option" where
  "with_group G name config body fs = do {
     (r, m) \<leftarrow> volcom_rcsmngr_init (ge_cgroup_v2 G) (ge_pids G) (ge_children G) (Some (ge_stack G)) (Some name);
     if r \<noteq> 0 then Some (None, fs)
     else do {
       (r, m, fs) \<leftarrow> volcom_create_main_cgroup (ge_kernel G) (ge_strdup G) m config fs;
       (x, m, fs) \<leftarrow>
         (if r \<noteq> 0 then Some (None, m, fs)
          else do {
            m \<leftarrow> m;
            (x, m, fs) \<leftarrow> body m fs;
            (_, m, fs) \<leftarrow> volcom_delete_main_cgroup (ge_kernel G) m fs;
            Some (Some x, m, fs)
          });
       _ \<leftarrow> volcom_rcsmngr_cleanup m;
       Some (x, fs)
     }
   }"

section \<open>The console\<close>

datatype 'd report =
    Memory_report memory_info_s
  | Cpu_report "'d cpu_info_s"
  | Cpu_usage_report "'d cpu_info_s"
  | Gpu_report gpu_info_s
  | Config_report config_s
  | Stream_report stream
  | Single_report int
  | File_report string

record 'd console =
  co_config :: config_s
  co_fs :: cgfs
  co_files :: "string \<Rightarrow> string option"
  co_reports :: "'d report list"

text \<open>What the surroundings answer while one command runs.\<close>

record 'd cmd_env =
  ce_group :: group_env
  ce_grow :: "(nat \<Rightarrow> int) option"
  ce_runs :: "nat \<Rightarrow> int \<times> wait_status"
  ce_can_write :: "string \<Rightarrow> bool"
  ce_double :: "'d double_ops"
  ce_usage_mem :: "'d cpu_core_usage_s list option"
  ce_lspci :: "string option"

definition open_file :: "string \<Rightarrow> 'd console \<Rightarrow> 'd console" where
  "open_file filename s =
     (case co_files s filename of
        None \<Rightarrow> s
      | Some txt \<Rightarrow> s\<lparr>co_reports := co_reports s @ [File_report (concat (fgets_all 254 txt))]\<rparr>)"

text \<open>The product of two \<open>int\<close>s: no result when it overflows.\<close>

definition int_mult :: "int \<Rightarrow> int \<Rightarrow> int option" where
  "int_mult a b = (if - (2 ^ 31) \<le> a * b \<and> a * b < 2 ^ 31 then Some (a * b) else None)"

text \<open>\<open>config <key> <value>\<close>, with what follows the first blank.\<close>

definition config_command :: "string \<Rightarrow> config_s \<Rightarrow> config_s option" where
  "config_command arg config =
     (case sscanf arg ''%31s %d'' of
        [S_text key, S_int v] \<Rightarrow>
          if key = ''memory'' then do {
            max \<leftarrow> int_mult v 1024;
            Some (config\<lparr>cf_mem_config := (cf_mem_config config)
                    \<lparr>mc_allocated_memory_size_max := u64_of_int max,
                     mc_allocated_memory_size_high := u64_of_int (max sdiv 2)\<rparr>\<rparr>)
          }
          else if key = ''cpu'' then
            Some (config\<lparr>cf_cpu_config := (cf_cpu_config config)
                    \<lparr>cc_allocated_logical_processors := v, cc_allocated_cpu_share := 1024\<rparr>\<rparr>)
          else Some config
      | _ \<Rightarrow> Some config)"

definition get_command :: "'d cmd_env \<Rightarrow> string \<Rightarrow> 'd console \<Rightarrow> 'd console" where
  "get_command E arg s =
     (let cpu = get_cpu_info (ce_double E) (co_files s ''/proc/cpuinfo'');
          show = (\<lambda>r. s\<lparr>co_reports := co_reports s @ [r]\<rparr>) in
      if arg = ''memory'' then show (Memory_report (get_memory_info (co_files s ''/proc/meminfo'')))
      else if arg = ''cpu'' then show (Cpu_report cpu)
      else if arg = ''cpu_usage''
      then show (Cpu_usage_report (get_cpu_usage (ce_double E) (co_files s ''/proc/stat'') (ce_usage_mem E) cpu))
      else if arg = ''gpu'' then show (Gpu_report (get_gpu_info (ce_lspci E)))
      else s)"

definition process_command :: "'d cmd_env \<Rightarrow> 'd console \<Rightarrow> 'd console option" where
  "process_command E s = do {
     (st, fs) \<leftarrow> with_group (ce_group E) ''volcom_interactive'' (co_config s)
       (process_data_stream (ge_kernel (ce_group E)) (ce_grow E) ''./scripts/data_processor.js'' (ce_runs E)) (co_fs s);
     Some (s\<lparr>co_fs := fs, co_reports := co_reports s @ (case st of None \<Rightarrow> [] | Some st \<Rightarrow> [Stream_report st])\<rparr>)
   }"

definition process_single_command :: "'d cmd_env \<Rightarrow> string \<Rightarrow> 'd console \<Rightarrow> 'd console option" where
  "process_single_command E data_point s = do {
     (r, fs) \<leftarrow> with_group (ce_group E) ''volcom_single'' (co_config s)
       (run_node_in_cgroup_o (ge_kernel (ce_group E)) (ce_grow E) (fst (ce_runs E 0)) (snd (ce_runs E 0))) (co_fs s);
     Some (s\<lparr>co_fs := fs, co_reports := co_reports s @ (case r of None \<Rightarrow> [] | Some r \<Rightarrow> [Single_report r])\<rparr>)
   }"

definition save_command :: "'d cmd_env \<Rightarrow> string \<Rightarrow> 'd console \<Rightarrow> 'd console" where
  "save_command E filename s =
     (case save_config (ce_can_write E filename) (co_config s) of
        (_, None) \<Rightarrow> s
      | (_, Some txt) \<Rightarrow> s\<lparr>co_files := (co_files s)(filename \<mapsto> txt)\<rparr>)"

text \<open>One command; the ones that only print a fixed text change nothing.\<close>

definition run_command :: "'d cmd_env \<Rightarrow> string \<Rightarrow> 'd console \<Rightarrow> 'd console option" where
  "run_command E input s =
     (if starts_with input ''config '' then
        do { config \<leftarrow> config_command (drop 7 input) (co_config s); Some (s\<lparr>co_config := config\<rparr>) }
      else if starts_with input ''config'' \<and> length input = 6 then Some s
      else if starts_with input ''get '' then Some (get_command E (drop 4 input) s)
      else if input = ''get'' then Some s
      else if input = ''process'' then process_command E s
      else if starts_with input ''process '' then process_single_command E (drop 8 input) s
      else if input = ''show_config'' then Some (s\<lparr>co_reports := co_reports s @ [Config_report (co_config s)]\<rparr>)
      else if starts_with input ''save_config '' then Some (save_command E (drop 12 input) s)
      else if input = ''help'' then Some (open_file ''./other/help.txt'' s)
      else if input = ''menu'' then Some (open_file ''./other/menu.txt'' s)
      else Some s)"

text \<open>The loop over the lines of standard input, ended by \<open>q\<close>. At the end of the input \<open>fgets\<close> leaves
  the new block as it is, and the program reads it all the same.\<close>

function configure_by_cmd :: "(nat \<Rightarrow> 'd cmd_env) \<Rightarrow> nat \<Rightarrow> string \<Rightarrow> 'd console \<Rightarrow> 'd console option" where
  "configure_by_cmd E i stdin s =
     (case fgets 256 stdin of
        None \<Rightarrow> None
      | Some (line, rest) \<Rightarrow>
          (let input = takeWhile (\<lambda>c. c \<noteq> NL) (cstr line) in
           if input = ''q'' then Some s
           else (case run_command (E i) input s of
                   None \<Rightarrow> None
                 | Some s \<Rightarrow> configure_by_cmd E (Suc i) rest s)))"
  by pat_completeness auto
termination
  by (relation "measure (\<lambda>(E, i, stdin, s). length stdin)") (auto simp: fgets_def Let_def split: if_splits)

declare configure_by_cmd.simps [simp del]

section \<open>The program\<close>

record ('j, 'd) main_env =
  me_uid :: int
  me_stdin :: string
  me_cmds :: "nat \<Rightarrow> 'd cmd_env"
  me_group :: group_env
  me_thread :: bool
  me_start :: int
  me_entries :: "string list option"
  me_rounds :: "round_input list"
  me_emp :: "('j, 'd) emp_env"
  me_startup :: startup
  me_conns :: "('d emp_event list \<times> string option \<times> 'd emp_event list) list"

record 'd program =
  pg_console :: "'d console"
  pg_manager :: "volcom_rcsmngr_s option"
  pg_employer :: employer
  pg_employee :: employee

text \<open>The configuration: from the file, or from the console.\<close>

definition main_config :: "('j, 'd) main_env \<Rightarrow> string list \<Rightarrow> 'd program \<Rightarrow> 'd program option" where
  "main_config E argv p =
     (let s = (pg_console p)\<lparr>co_config := zero_config\<rparr> in
      if length argv = 5 \<and> argv ! 3 = ''--file''
      then (let config = load_config (co_files s (argv ! 4))
            in Some (p\<lparr>pg_console := s\<lparr>co_config := config, co_reports := co_reports s @ [Config_report config]\<rparr>\<rparr>))
      else map_option (\<lambda>s. p\<lparr>pg_console := s\<rparr>) (configure_by_cmd (me_cmds E) 0 (me_stdin E) s))"

definition main_employer :: "('j, 'd) main_env \<Rightarrow> 'd program \<Rightarrow> 'd program" where
  "main_employer E p =
     (let s = snd (init_agent AGENT_MODE_EMPLOYER (pg_employer p));
          s = snd (run_employer_mode (ev_json (me_emp E)) (me_thread E) (me_start E) (me_entries E) (me_rounds E) s)
      in p\<lparr>pg_employer := cleanup_agent s\<rparr>)"

definition main_employee :: "('j, 'd) main_env \<Rightarrow> 'd program \<Rightarrow> 'd program option" where
  "main_employee E p =
     (let ep = snd (init_agent AGENT_MODE_EMPLOYEE (pg_employer p));
          e = (pg_employee p)\<lparr>em_manager := pg_manager p, em_cgfs := co_fs (pg_console p)\<rparr>
      in do {
        (_, e) \<leftarrow> run_employee_mode (me_emp E) (me_startup E) (me_conns E) ep e;
        Some (p\<lparr>pg_employer := cleanup_agent ep, pg_employee := e, pg_manager := em_manager e,
                pg_console := (pg_console p)\<lparr>co_fs := em_cgfs e\<rparr>\<rparr>)
      })"

definition main_mode :: "('j, 'd) main_env \<Rightarrow> string list \<Rightarrow> 'd program \<Rightarrow> 'd program option" where
  "main_mode E argv p =
     (if argv ! 1 = ''--mode''
      then if argv ! 2 = ''employer'' then Some (main_employer E p) else main_employee E p
      else Some p)"

abbreviation set_groups :: "'d program \<Rightarrow> volcom_rcsmngr_s option \<Rightarrow> cgfs \<Rightarrow> 'd program" where
  "set_groups p m fs \<equiv> p\<lparr>pg_manager := m, pg_console := (pg_console p)\<lparr>co_fs := fs\<rparr>\<rparr>"

definition volcom_main :: "('j, 'd) main_env \<Rightarrow> string list \<Rightarrow> 'd program \<Rightarrow> (int \<times> 'd program) option" where
  "volcom_main E argv p =
     (let G = me_group E in
      if me_uid E \<noteq> 0 \<or> length argv < 3
      then Some (-1, p\<lparr>pg_console := open_file ''./other/help.txt'' (pg_console p)\<rparr>)
      else do {
        p \<leftarrow> main_config E argv p;
        (r, m) \<leftarrow> volcom_rcsmngr_init (ge_cgroup_v2 G) (ge_pids G) (ge_children G) (pg_manager p) (Some ''volcom'');
        if r \<noteq> 0 then Some (-1, p\<lparr>pg_manager := m\<rparr>)
        else do {
          (r, m, fs) \<leftarrow> volcom_create_main_cgroup (ge_kernel G) (ge_strdup G) m (co_config (pg_console p)) (co_fs (pg_console p));
          if r \<noteq> 0 then do { m \<leftarrow> volcom_rcsmngr_cleanup m; Some (-1, set_groups p m fs) }
          else do {
            p \<leftarrow> main_mode E argv (set_groups p m fs);
            (_, m, fs) \<leftarrow> volcom_delete_main_cgroup (ge_kernel G) (pg_manager p) (co_fs (pg_console p));
            m \<leftarrow> volcom_rcsmngr_cleanup m;
            Some (0, set_groups p m fs)
          }
        }
      })"

end
