(* ===== verification/Main_Proofs.thy ===== *)
theory Main_Proofs
  imports Volcom_Main Employee_Proofs
begin

text \<open>
  What \<open>volcom_main.c\<close> makes of its parts: a command \<open>process\<close> creates a group, runs the node
  processes in it and removes it, so that nothing but the record of it stays; the limits typed into
  the console are the ones written for the group; the employer mode leaves no group behind; and the
  employee mode writes limits of its own over the configured ones.
\<close>

section \<open>Processes of the main group\<close>

lemma add_to_main_effect:
  assumes "accepting K"
    and "volcom_add_pid_to_cgroup K j (Some m) (Some (cg_name (rm_main_cgroup m))) p fs = Some (0, Some m', fs')"
  shows "fs' = fs\<lparr>fs_log := fs_log fs @ [Wrote (file_in (cg_path (rm_main_cgroup m)) ''cgroup.procs'') (dec_int p @ [NL])]\<rparr> \<and>
    cg_path (rm_main_cgroup m') = cg_path (rm_main_cgroup m) \<and> children_of m' = children_of m"
  using assms(2)
  by (auto simp: volcom_add_pid_to_cgroup_def target_cgroup_def get_cgroup_def set_cgroup_def grow_pids_def
      accepting_write [OF assms(1)] bind_eq_Some_conv split: if_splits)

definition joined :: "string \<Rightarrow> int \<Rightarrow> cg_event" where
  "joined p pid = Wrote (p @ ''/cgroup.procs'') (dec_int pid @ [NL])"

text \<open>A manager whose only group is the main group in the directory \<open>p\<close>.\<close>

definition lone_group :: "string \<Rightarrow> volcom_rcsmngr_s \<Rightarrow> cgfs \<Rightarrow> bool" where
  "lone_group p m fs \<longleftrightarrow> sys_ok m fs \<and> children_of m = [] \<and> cstr (cg_path (rm_main_cgroup m)) = p"

fun run_result :: "wait_status \<Rightarrow> int" where
  "run_result (Exited code) = code"
| "run_result (Signaled _) = -1"
| "run_result Other_status = 0"

lemma run_node_ok:
  assumes "lone_group p m fs" and "accepting K" and "0 < pid"
  shows "\<exists>m'. run_node_in_cgroup_o K (Some j) pid status m fs
      = Some (run_result status, Some m', fs\<lparr>fs_log := fs_log fs @ [joined p pid]\<rparr>) \<and>
    lone_group p m' (fs\<lparr>fs_log := fs_log fs @ [joined p pid]\<rparr>)"
proof -
  have ok: "sys_ok m fs" "children_of m = []" "cstr (cg_path (rm_main_cgroup m)) = p" "obliging K"
    using assms(1,2) by (auto simp: lone_group_def accepting_def)
  let ?n = "cg_name (rm_main_cgroup m)"
  obtain r m' fs' where j: "volcom_add_pid_to_cgroup K (Some j) (Some m) (Some ?n) pid fs = Some (r, Some m', fs')"
    "sys_ok m' fs'" "group_step (Join (cstr ?n) pid) (groups m) = (r, groups m')"
    using join_main [OF ok(1,4), of j pid] by blast
  have "cstr ?n \<in> fst ` set (groups m)" by (simp add: group_names all_groups_def)
  with j(3) assms(3) have "r = 0" by (auto split: if_splits)
  with j(1) have j': "volcom_add_pid_to_cgroup K (Some j) (Some m) (Some ?n) pid fs = Some (0, Some m', fs')" by simp
  have "length p + MAX_NAME_LEN < MAX_PATH_LEN" using ok(1,3) by (auto simp: sys_ok_def)
  then have "file_in (cg_path (rm_main_cgroup m)) ''cgroup.procs'' = p @ ''/cgroup.procs''"
    using ok(3) by (simp add: file_in_def MAX_PATH_LEN_def MAX_NAME_LEN_def)
  with add_to_main_effect [OF assms(2) j'] j(2) ok(2,3) assms(3) j' show ?thesis
    by (intro exI [of _ m']) (auto simp: run_node_in_cgroup_o_def joined_def lone_group_def split: wait_status.splits)
qed

section \<open>The data stream\<close>

definition stream_of :: "string \<Rightarrow> (nat \<Rightarrow> int \<times> wait_status) \<Rightarrow> string list \<Rightarrow> stream" where
  "stream_of script runs ds = \<lparr>st_processed = length ds,
     st_successful = length (filter (\<lambda>i. run_result (snd (runs i)) = 0) [0..<length ds]),
     st_failed = length (filter (\<lambda>i. run_result (snd (runs i)) \<noteq> 0) [0..<length ds]),
     st_started = map (node_argv script) ds\<rparr>"

lemma stream_of_snoc:
  "0 < fst (runs (length ds)) \<Longrightarrow>
    count_run script d (fst (runs (length ds))) (run_result (snd (runs (length ds)))) (stream_of script runs ds)
    = stream_of script runs (ds @ [d])"
  by (simp add: count_run_def stream_of_def Let_def)

lemma stream_loop_ok:
  assumes "accepting K" and "\<And>i. 0 < fst (runs i)"
  shows "lone_group p m fs \<Longrightarrow> \<exists>m'. stream_loop K (Some j) script runs (length done') ds (stream_of script runs done') m fs
      = Some (stream_of script runs (done' @ ds), Some m',
          fs\<lparr>fs_log := fs_log fs @ map (\<lambda>i. joined p (fst (runs i))) [length done'..<length done' + length ds]\<rparr>) \<and>
    lone_group p m' (fs\<lparr>fs_log := fs_log fs @ map (\<lambda>i. joined p (fst (runs i))) [length done'..<length done' + length ds]\<rparr>)"
proof (induction ds arbitrary: done' m fs)
  case Nil
  then show ?case by simp
next
  case (Cons d ds)
  let ?i = "length done'"
  obtain m1 where m1: "run_node_in_cgroup_o K (Some j) (fst (runs ?i)) (snd (runs ?i)) m fs
      = Some (run_result (snd (runs ?i)), Some m1, fs\<lparr>fs_log := fs_log fs @ [joined p (fst (runs ?i))]\<rparr>)"
    "lone_group p m1 (fs\<lparr>fs_log := fs_log fs @ [joined p (fst (runs ?i))]\<rparr>)"
    using run_node_ok [OF Cons.prems assms(1,2)] by blast
  have u: "[?i..<?i + length (d # ds)] = ?i # [length (done' @ [d])..<length (done' @ [d]) + length ds]"
    by (simp add: upt_conv_Cons del: upt_Suc)
  from Cons.IH [OF m1(2), of "done' @ [d]"] m1(1) stream_of_snoc [of runs done' script d, OF assms(2)]
  show ?case unfolding u by (simp del: upt_Suc)
qed

section \<open>A group for a while\<close>

definition group_env_ok :: "group_env \<Rightarrow> bool" where
  "group_env_ok G \<longleftrightarrow> accepting (ge_kernel G) \<and> ge_cgroup_v2 G \<and> ge_strdup G \<and> ge_pids G \<noteq> None \<and> ge_children G \<noteq> None"

text \<open>The events of creating and removing a group around \<open>evs\<close>.\<close>

definition group_events :: "string \<Rightarrow> config_s \<Rightarrow> string list \<Rightarrow> cg_event list \<Rightarrow> cg_event list" where
  "group_events p config dirs evs =
     (if p \<in> set dirs then [] else [Mkdir p]) @ main_writes p config @ evs @ [Rmdir p]"

lemma new_lone_group:
  assumes "group_env_ok G" and "NUL \<notin> set n" and "length n < MAX_NAME_LEN"
    and "cc_allocated_logical_processors (cf_cpu_config config) * 100000 < 2 ^ 31"
  shows "\<exists>m m' fs'. volcom_rcsmngr_init (ge_cgroup_v2 G) (ge_pids G) (ge_children G) (Some m0) (Some n) = Some (0, Some m) \<and>
    volcom_create_main_cgroup (ge_kernel G) (ge_strdup G) (Some m) config fs = Some (0, Some m', fs') \<and>
    lone_group (main_path n) m' fs' \<and>
    fs_dirs fs' = (if main_path n \<in> set (fs_dirs fs) then fs_dirs fs else main_path n # fs_dirs fs) \<and>
    fs_log fs' = fs_log fs @ (if main_path n \<in> set (fs_dirs fs) then [] else [Mkdir (main_path n)]) @ main_writes (main_path n) config"
proof -
  obtain i j where ij: "ge_pids G = Some i" "ge_children G = Some j" using assms(1) by (auto simp: group_env_ok_def)
  have K: "accepting (ge_kernel G)" "ge_cgroup_v2 G" "ge_strdup G" using assms(1) by (auto simp: group_env_ok_def)
  from started_state [OF assms(2,3) K(1) assms(4), of i j m0 fs] obtain m m' fs' where
    "volcom_rcsmngr_init True (Some i) (Some j) (Some m0) (Some n) = Some (0, Some m)"
    "volcom_create_main_cgroup (ge_kernel G) True (Some m) config fs = Some (0, Some m', fs')"
    "sys_ok m' fs'" "groups m' = [(n, [])]" "cstr (cg_path (rm_main_cgroup m')) = main_path n"
    "fs_dirs fs' = (if main_path n \<in> set (fs_dirs fs) then fs_dirs fs else main_path n # fs_dirs fs)"
    "fs_log fs' = fs_log fs @ (if main_path n \<in> set (fs_dirs fs) then [] else [Mkdir (main_path n)]) @ main_writes (main_path n) config"
    by blast
  with ij K show ?thesis
    by (intro exI [of _ m] exI [of _ m'] exI [of _ fs']) (auto simp: lone_group_def groups_def all_groups_def)
qed

lemma lone_group_deleted:
  assumes "lone_group p m fs" and "accepting K"
  shows "\<exists>m'. volcom_delete_main_cgroup K (Some m) fs
      = Some (0, Some m', fs\<lparr>fs_dirs := filter (\<lambda>d. d \<noteq> p) (fs_dirs fs), fs_log := fs_log fs @ [Rmdir p]\<rparr>) \<and>
    volcom_rcsmngr_cleanup (Some m') = Some (Some zero_manager)"
proof -
  have "sys_ok m fs" "obliging K" "children_of m = []" "cstr (cg_path (rm_main_cgroup m)) = p"
    using assms by (auto simp: lone_group_def accepting_def)
  with deleted_state [of m fs K] cleanup_ok show ?thesis by (auto simp: all_groups_def)
qed

lemma with_group_ok:
  assumes "group_env_ok G" and "NUL \<notin> set n" and "length n < MAX_NAME_LEN"
    and "cc_allocated_logical_processors (cf_cpu_config config) * 100000 < 2 ^ 31"
    and "\<And>m fs. lone_group (main_path n) m fs \<Longrightarrow> \<exists>m'. body m fs = Some (x, Some m', fs\<lparr>fs_log := fs_log fs @ evs\<rparr>) \<and>
      lone_group (main_path n) m' (fs\<lparr>fs_log := fs_log fs @ evs\<rparr>)"
  shows "with_group G n config body fs = Some (Some x, fs\<lparr>fs_dirs := filter (\<lambda>d. d \<noteq> main_path n) (fs_dirs fs),
    fs_log := fs_log fs @ group_events (main_path n) config (fs_dirs fs) evs\<rparr>)"
proof -
  let ?p = "main_path n"
  obtain m m1 fs1 where s: "volcom_rcsmngr_init (ge_cgroup_v2 G) (ge_pids G) (ge_children G) (Some (ge_stack G)) (Some n) = Some (0, Some m)"
    "volcom_create_main_cgroup (ge_kernel G) (ge_strdup G) (Some m) config fs = Some (0, Some m1, fs1)" "lone_group ?p m1 fs1"
    "fs_dirs fs1 = (if ?p \<in> set (fs_dirs fs) then fs_dirs fs else ?p # fs_dirs fs)"
    "fs_log fs1 = fs_log fs @ (if ?p \<in> set (fs_dirs fs) then [] else [Mkdir ?p]) @ main_writes ?p config"
    using new_lone_group [OF assms(1-4)] by blast
  obtain m2 where b: "body m1 fs1 = Some (x, Some m2, fs1\<lparr>fs_log := fs_log fs1 @ evs\<rparr>)"
    "lone_group ?p m2 (fs1\<lparr>fs_log := fs_log fs1 @ evs\<rparr>)" using assms(5) [OF s(3)] by blast
  have K: "accepting (ge_kernel G)" using assms(1) by (simp add: group_env_ok_def)
  obtain m3 where d: "volcom_delete_main_cgroup (ge_kernel G) (Some m2) (fs1\<lparr>fs_log := fs_log fs1 @ evs\<rparr>)
      = Some (0, Some m3, fs1\<lparr>fs_dirs := filter (\<lambda>d. d \<noteq> ?p) (fs_dirs fs1), fs_log := fs_log fs1 @ evs @ [Rmdir ?p]\<rparr>)"
    "volcom_rcsmngr_cleanup (Some m3) = Some (Some zero_manager)"
    using lone_group_deleted [OF b(2) K] by auto
  have "fs1\<lparr>fs_dirs := filter (\<lambda>d. d \<noteq> ?p) (fs_dirs fs1), fs_log := fs_log fs1 @ evs @ [Rmdir ?p]\<rparr>
    = fs\<lparr>fs_dirs := filter (\<lambda>d. d \<noteq> ?p) (fs_dirs fs), fs_log := fs_log fs @ group_events ?p config (fs_dirs fs) evs\<rparr>"
    by (rule cgfs.equality) (simp_all add: s(4,5) group_events_def)
  with s(1,2) b(1) d show ?thesis by (simp add: with_group_def)
qed

section \<open>The commands of the console\<close>

definition script_path :: string where
  "script_path = ''./scripts/data_processor.js''"

definition cpu_ok :: "config_s \<Rightarrow> bool" where
  "cpu_ok config \<longleftrightarrow> cc_allocated_logical_processors (cf_cpu_config config) * 100000 < 2 ^ 31"

text \<open>The file system after a group in the directory \<open>p\<close> came and went.\<close>

definition after_group :: "string \<Rightarrow> config_s \<Rightarrow> cg_event list \<Rightarrow> cgfs \<Rightarrow> cgfs" where
  "after_group p config evs fs =
     fs\<lparr>fs_dirs := filter (\<lambda>d. d \<noteq> p) (fs_dirs fs), fs_log := fs_log fs @ group_events p config (fs_dirs fs) evs\<rparr>"



section \<open>Limits\<close>

text \<open>What a file of the group holds: the last text written to it.\<close>

definition last_written :: "string \<Rightarrow> cg_event list \<Rightarrow> string option" where
  "last_written f log = fold (\<lambda>e c. case e of Wrote p txt \<Rightarrow> if p = f then Some txt else c | _ \<Rightarrow> c) log None"

lemma last_written_main:
  "last_written (p @ ''/memory.max'') (log @ ds @ main_writes p config)
    = Some (dec_nat (unat (mc_allocated_memory_size_max (cf_mem_config config) * 1024)) @ [NL])"
  "last_written (p @ ''/cpu.weight'') (log @ ds @ main_writes p config)
    = Some (dec_int (cc_allocated_cpu_share (cf_cpu_config config)) @ [NL])"
  by (simp_all add: last_written_def main_writes_def)

text \<open>C37: the limits the user configures have no effect in employee mode: whatever configuration the main
  program created the group with, once the employee is ready for connections the memory limit of the
  group is one TiB and its processor weight 80.\<close>
theorem configured_limits_overridden:
  assumes "accepting K" and "su_cgroup_v2 su" and "su_pids su = Some i" and "su_children su = Some j" and "su_strdup su"
    and "su_buf_mem su \<noteq> Null" and "su_res_mem su \<noteq> Null"
    and "volcom_create_main_cgroup K True (Some m0) config fs = Some (0, Some m, fs1)"
    and "employee_startup K su ep (e\<lparr>em_manager := Some m, em_cgfs := fs1\<rparr>) = Some (r, fd, e')"
  shows "last_written ''/sys/fs/cgroup/volcom/memory.max'' (fs_log (em_cgfs e')) = Some (dec_nat (1024 ^ 4) @ [NL]) \<and>
    last_written ''/sys/fs/cgroup/volcom/cpu.weight'' (fs_log (em_cgfs e')) = Some (dec_int 80 @ [NL])"
proof -
  have "fs_log (em_cgfs e') = fs_log fs1 @ (if main_path ''volcom'' \<in> set (fs_dirs fs1) then [] else [Mkdir (main_path ''volcom'')]) @
      main_writes (main_path ''volcom'') employee_config"
    using startup_writes [OF assms(1-5) _ assms(6,7,9)] by simp
  with last_written_main [of "main_path ''volcom''" "fs_log fs1" _ employee_config] show ?thesis
    by (simp add: employee_config_def main_path_def CGROUP_V2_ROOT_def)
qed

text \<open>Reading a command line.\<close>

lemma fgets_command: "NL \<notin> set l \<Longrightarrow> length l \<le> 200 \<Longrightarrow> fgets 256 (l @ NL # rest) = Some (l @ [NL], rest)"
  by (auto simp: fgets_def Let_def takeWhile_append takeWhile_eq_all_conv)

lemma command_step:
  assumes "NL \<notin> set l" and "NUL \<notin> set l" and "length l \<le> 200"
  shows "configure_by_cmd E i (l @ NL # rest) s =
    (if l = ''q'' then Some s else Option.bind (run_command (E i) l s) (configure_by_cmd E (Suc i) rest))"
proof -
  have "takeWhile (\<lambda>c. c \<noteq> NL) (cstr (l @ [NL])) = l"
    using assms(1,2) by (auto simp: cstr_id takeWhile_append takeWhile_eq_all_conv)
  with fgets_command [OF assms(1,3), of rest] show ?thesis
    by (simp add: configure_by_cmd.simps [of E i "l @ NL # rest"] bind_split split: option.splits)
qed

lemma scan_key_value:
  assumes "- (2 ^ 31) \<le> v" and "v < 2 ^ 31"
  shows "sscanf (''memory '' @ dec_int v) ''%31s %d'' = [S_text ''memory'', S_int v]"
proof -
  have d: "directives ''%31s %d'' = [Text 31, Ws, Dint]" by (simp add: conversion_def is_space_def)
  have t: "takeWhile (\<lambda>c. \<not> is_space c) (''memory '' @ dec_int v) = ''memory''" by (simp add: is_space_def)
  have c: "cstr (''memory '' @ dec_int v) = ''memory '' @ dec_int v" by (intro cstr_id) simp
  have "scan [Text 31, Ws, Dint] (''memory '' @ dec_int v) = S_text ''memory'' # scan [Ws, Dint] ('' '' @ dec_int v)"
    using t by (simp add: is_space_def)
  also have "scan [Ws, Dint] ('' '' @ dec_int v) = scan [Dint] (dec_int v @ [])"
    using drop_space_dec_int [of v "[]"] by (simp add: is_space_def)
  also have "\<dots> = [S_int v]" using scan_Int [OF _ assms, of "[]" "[]"] by simp
  finally show ?thesis by (simp only: sscanf_def c d)
qed

definition memory_config :: "int \<Rightarrow> config_s \<Rightarrow> config_s" where
  "memory_config v config = config\<lparr>cf_mem_config := (cf_mem_config config)
     \<lparr>mc_allocated_memory_size_max := word_of_int (v * 1024), mc_allocated_memory_size_high := word_of_int (v * 512)\<rparr>\<rparr>"

lemma mebibytes:
  assumes "0 \<le> v" and "v < 2 ^ 21"
  shows "unat (word_of_int (v * 1024) * 1024 :: u64) = nat v * 2 ^ 20"
proof -
  obtain n where n: "v = int n" "n < 2 ^ 21" using assms by (cases v rule: int_cases) auto
  have "(word_of_int (v * 1024) * 1024 :: u64) = word_of_nat (n * 2 ^ 20)" using n(1) by simp
  moreover have "n * 2 ^ 20 < 2 ^ LENGTH(64)" using n(2) by simp
  ultimately show ?thesis using n(1) by (simp only: unsigned_of_nat take_bit_nat_eq_self nat_int of_nat_id)
qed

lemma memory_config_max: "mc_allocated_memory_size_max (cf_mem_config (memory_config v config)) = word_of_int (v * 1024)"
  by (simp add: memory_config_def)


section \<open>Examples\<close>

definition demo_group_env :: group_env where
  "demo_group_env = \<lparr>ge_kernel = demo_kernel, ge_cgroup_v2 = True, ge_pids = Some (\<lambda>_. 0), ge_children = Some (\<lambda>_. zero_cgroup),
     ge_strdup = True, ge_stack = zero_manager\<rparr>"

lemma demo_group_env_ok: "group_env_ok demo_group_env"
  by (simp add: group_env_ok_def demo_group_env_def demo_kernel_ok)

text \<open>Process \<open>100 + i\<close> for data point \<open>i\<close>; the second one fails.\<close>

definition demo_cmd_env :: "int cmd_env" where
  "demo_cmd_env = \<lparr>ce_group = demo_group_env, ce_grow = Some (\<lambda>_. 0),
     ce_runs = (\<lambda>i. (100 + int i, if i = 1 then Exited 2 else Exited 0)), ce_can_write = (\<lambda>_. True),
     ce_double = int_double, ce_usage_mem = None, ce_lspci = None\<rparr>"

definition demo_console :: "int console" where
  "demo_console = \<lparr>co_config = demo_config, co_fs = \<lparr>fs_dirs = [], fs_log = []\<rparr>, co_files = (\<lambda>_. None), co_reports = []\<rparr>"

lemma demo_cpu_ok: "cpu_ok demo_config" "cpu_ok zero_config"
  by (simp_all add: cpu_ok_def demo_config_def zero_config_def)


definition demo_startup :: startup where
  "demo_startup = \<lparr>su_buf_mem = Live [], su_res_mem = Live [], su_cgroup_v2 = True, su_pids = Some (\<lambda>_. 0),
     su_children = Some (\<lambda>_. zero_cgroup), su_strdup = True, su_threads = (True, True)\<rparr>"

definition demo_main_env :: "((string \<times> json_item) list, int) main_env" where
  "demo_main_env = \<lparr>me_uid = 0, me_stdin = ''q'' @ [NL], me_cmds = (\<lambda>_. demo_cmd_env), me_group = demo_group_env, me_thread = True,
     me_start = 0, me_entries = None, me_rounds = [], me_emp = demo_env, me_startup = demo_startup, me_conns = []\<rparr>"

definition demo_program :: "int program" where
  "demo_program = \<lparr>pg_console = demo_console, pg_manager = Some zero_manager, pg_employer = demo_employer [] [],
     pg_employee = demo_emp [] [] (demo_conn [] [])\<rparr>"


lemma demo_startup_runs:
  assumes "em_manager s = Some m0"
  shows "\<exists>r fd s'. employee_startup demo_kernel demo_startup ep s = Some (r, fd, s')"
proof -
  from started_state [of "''volcom''" demo_kernel employee_config "\<lambda>_. 0" "\<lambda>_. zero_cgroup" m0 "em_cgfs s"]
  obtain m m' fs' where
    "volcom_rcsmngr_init True (Some (\<lambda>_. 0)) (Some (\<lambda>_. zero_cgroup)) (Some m0) (Some ''volcom'') = Some (0, Some m)"
    "volcom_create_main_cgroup demo_kernel True (Some m) employee_config (em_cgfs s) = Some (0, Some m', fs')"
    by (auto simp: demo_kernel_ok MAX_NAME_LEN_def employee_config_def)
  then show ?thesis
    using assms by (simp add: employee_startup_def demo_startup_def init_agent_def init_task_buffer_def init_result_queue_def
        drop_buffer_def cleanup_task_buffer_def Let_def split: prod.splits)
qed

theorem configured_limits_overridden_witness:
  "\<exists>m0 m fs1 r fd e'. volcom_create_main_cgroup demo_kernel True (Some m0) demo_config demo_fs = Some (0, Some m, fs1) \<and>
     employee_startup demo_kernel demo_startup (demo_employer [] []) ((demo_emp [] [] (demo_conn [] []))\<lparr>em_manager := Some m, em_cgfs := fs1\<rparr>)
       = Some (r, fd, e') \<and>
     last_written ''/sys/fs/cgroup/volcom/memory.max'' (fs_log (em_cgfs e')) = Some (dec_nat (1024 ^ 4) @ [NL])"
proof -
  from started_state [of "''volcom''" demo_kernel demo_config "\<lambda>_. 0" "\<lambda>_. zero_cgroup" zero_manager demo_fs]
  obtain m0 m fs1 where c: "volcom_create_main_cgroup demo_kernel True (Some m0) demo_config demo_fs = Some (0, Some m, fs1)"
    by (auto simp: demo_kernel_ok MAX_NAME_LEN_def demo_config_def)
  let ?e = "demo_emp [] [] (demo_conn [] [])"
  obtain r fd e' where e: "employee_startup demo_kernel demo_startup (demo_employer [] []) (?e\<lparr>em_manager := Some m, em_cgfs := fs1\<rparr>)
      = Some (r, fd, e')" using demo_startup_runs [of "?e\<lparr>em_manager := Some m, em_cgfs := fs1\<rparr>" m "demo_employer [] []"] by auto
  from configured_limits_overridden [OF demo_kernel_ok(2) _ _ _ _ _ _ c e] have
    "last_written ''/sys/fs/cgroup/volcom/memory.max'' (fs_log (em_cgfs e')) = Some (dec_nat (1024 ^ 4) @ [NL])"
    by (simp add: demo_startup_def)
  with c e show ?thesis by blast
qed


end
