(* ===== verification/Volcom_Menu.thy ===== *)
theory Volcom_Menu
  imports Net_Utils
begin

text \<open>
  \<open>volcom_main_new.c\<close>: the older main program, a menu on standard input. It calls the two modes
  without their arguments, which the current definitions have; they are arguments of the model, and
  so is the display of the system information. A signal while the menu waits is left out. The result
  \<open>None\<close> stands for the loop that never ends once the input does.
\<close>

section \<open>The menu\<close>

text \<open>\<open>scanf("%d", &choice)\<close>: the number and the rest of the input.\<close>

definition scan_choice :: "string \<Rightarrow> (int \<times> string) option" where
  "scan_choice inp =
     (case signed_digits inp of (neg, ds, rest) \<Rightarrow> if ds = [] then None else Some (int_of_digits neg ds, rest))"

text \<open>The rest of the line is thrown away; white space was skipped already.\<close>

definition flush_line :: "string \<Rightarrow> string" where
  "flush_line inp = tl (dropWhile (\<lambda>c. c \<noteq> NL) (dropWhile is_space inp))"

record 's modes =
  md_employer :: "'s \<Rightarrow> 's"
  md_employee :: "'s \<Rightarrow> 's"
  md_show :: "'s \<Rightarrow> 's"

definition menu_choice :: "'s modes \<Rightarrow> int \<Rightarrow> 's \<Rightarrow> 's" where
  "menu_choice M choice s =
     (if choice = 1 then md_employer M s
      else if choice = 2 then md_employee M s
      else if choice = 3 then md_show M s
      else s)"

lemma dropWhile_shorter: "takeWhile P xs \<noteq> [] \<Longrightarrow> length (dropWhile P xs) < length xs"
  by (cases xs) (auto simp: le_imp_less_Suc length_dropWhile_le split: if_splits)

lemma scan_choice_shorter: "scan_choice inp = Some (c, rest) \<Longrightarrow> length rest < length inp"
proof -
  assume a: "scan_choice inp = Some (c, rest)"
  let ?i = "dropWhile is_space inp"
  let ?r = "if take 1 ?i = ''-'' \<or> take 1 ?i = ''+'' then tl ?i else ?i"
  have "takeWhile is_digit ?r \<noteq> []" "rest = dropWhile is_digit ?r"
    using a by (auto simp: scan_choice_def signed_digits_def Let_def split: if_splits)
  then have "length rest < length ?r" using dropWhile_shorter [of is_digit ?r] by blast
  also have "\<dots> \<le> length ?i" by simp
  also have "\<dots> \<le> length inp" by (rule length_dropWhile_le)
  finally show ?thesis .
qed

lemma flush_line_shorter: "dropWhile is_space inp \<noteq> [] \<Longrightarrow> length (flush_line inp) < length inp"
proof -
  assume a: "dropWhile is_space inp \<noteq> []"
  have "length (flush_line inp) \<le> length (dropWhile is_space inp) - 1"
    using length_dropWhile_le [of "\<lambda>c. c \<noteq> NL" "dropWhile is_space inp"] by (simp add: flush_line_def)
  with a length_dropWhile_le [of is_space inp] show ?thesis by (cases "dropWhile is_space inp") auto
qed

text \<open>The loop; two characters are read after every choice but 4.\<close>

function menu_loop :: "'s modes \<Rightarrow> string \<Rightarrow> 's \<Rightarrow> 's option" where
  "menu_loop M stdin s =
     (case scan_choice stdin of
        None \<Rightarrow> if dropWhile is_space stdin = [] then None else menu_loop M (flush_line stdin) s
      | Some (choice, rest) \<Rightarrow>
          if choice = 4 then Some s else menu_loop M (drop 2 rest) (menu_choice M choice s))"
  by pat_completeness auto
termination
proof (relation "measure (\<lambda>(M, stdin, s). length stdin)")
  fix M :: "'s modes" and stdin s x c rest
  assume "scan_choice stdin = Some x" "(c, rest) = x"
  then have "length rest < length stdin" using scan_choice_shorter by blast
  then show "((M, drop 2 rest, menu_choice M c s), M, stdin, s) \<in> measure (\<lambda>(M, stdin, s). length stdin)" by auto
qed (auto simp: flush_line_shorter)

declare menu_loop.simps [simp del]

definition main_new :: "'s modes \<Rightarrow> string \<Rightarrow> config_store \<times> 's \<Rightarrow> (int \<times> config_store \<times> 's) option" where
  "main_new M stdin cs =
     (case init_volcom_utils (fst cs) of (r, store) \<Rightarrow>
      if r \<noteq> 0 then Some (1, store, snd cs)
      else map_option (\<lambda>s. (0, cleanup_volcom_utils store, s)) (menu_loop M stdin (snd cs)))"

section \<open>Sessions\<close>

text \<open>The text of a session: each choice on a line of its own, and an empty line to go on.\<close>

definition session_text :: "int list \<Rightarrow> string" where
  "session_text cs = concat (map (\<lambda>c. dec_int c @ [NL, NL]) cs)"

lemma menu_step:
  assumes "- (2 ^ 31) \<le> c" and "c < 2 ^ 31" and "c \<noteq> 4"
  shows "menu_loop M (dec_int c @ NL # NL # rest) s = menu_loop M rest (menu_choice M c s)"
  using signed_digits_int [of "NL # NL # rest" c] int_of_dec [OF assms(1,2)] assms(3)
  by (simp add: menu_loop.simps [of M "dec_int c @ NL # NL # rest"] scan_choice_def is_digit_def)

lemma menu_end: "menu_loop M (dec_int 4 @ NL # rest) s = Some s"
  using signed_digits_int [of "NL # rest" 4] int_of_dec [of 4]
  by (simp add: menu_loop.simps [of M "dec_int 4 @ NL # rest"] scan_choice_def is_digit_def)

lemma menu_out_of_input: "menu_loop M [] s = None"
  by (simp add: menu_loop.simps [of M "[]"] scan_choice_def signed_digits_def)

text \<open>A session of any choices carries them out in their order; it comes back exactly when a 4 ends it,
  and then with 0 and the configuration store empty: at the end of the input alone the program loops
  for ever.\<close>
theorem menu_session:
  assumes "\<forall>c \<in> set cs. - (2 ^ 31) \<le> c \<and> c < 2 ^ 31 \<and> c \<noteq> 4"
  shows "main_new M (session_text cs @ dec_int 4 @ NL # rest) (store, s)
      = Some (0, cleanup_volcom_utils (snd (init_volcom_utils store)), fold (menu_choice M) cs s)"
    and "main_new M (session_text cs) (store, s) = None"
proof -
  have "menu_loop M (session_text cs @ dec_int 4 @ NL # rest) s = Some (fold (menu_choice M) cs s)"
    using assms by (induction cs arbitrary: s) (simp_all add: session_text_def menu_end menu_step)
  then show "main_new M (session_text cs @ dec_int 4 @ NL # rest) (store, s)
      = Some (0, cleanup_volcom_utils (snd (init_volcom_utils store)), fold (menu_choice M) cs s)"
    by (simp add: main_new_def init_volcom_utils_def)
  have "menu_loop M (session_text cs) s = None"
    using assms by (induction cs arbitrary: s) (simp_all add: session_text_def menu_out_of_input menu_step)
  then show "main_new M (session_text cs) (store, s) = None"
    by (simp add: main_new_def init_volcom_utils_def)
qed

end
