(* ===== verification/Tcp_Demo.thy ===== *)
theory Tcp_Demo
  imports Volcom_Net Volcom_Stdio
begin

text \<open>
  \<open>volcom_net/simple_tcp_demo.c\<close>: a server that answers each connection once and a client that sends
  the lines of its standard input, both on the functions of \<open>volcom_net.c\<close>. The header has
  \<open>TCP_PORT\<close> only in a comment; it is an argument here. Each array starts with any content. The list
  of contents given to the server loop is as long as the loop runs until the interrupt.
\<close>

definition server_config :: "int \<Rightarrow> tcp_config_s" where
  "server_config TCP_PORT = \<lparr>tp_port = TCP_PORT, tp_ip = ''0.0.0.0'' @ [NUL], tp_max_connections = 5, tp_timeout_sec = 10\<rparr>"

definition client_config :: "int \<Rightarrow> tcp_config_s" where
  "client_config TCP_PORT = \<lparr>tp_port = TCP_PORT, tp_ip = ''127.0.0.1'' @ [NUL], tp_max_connections = 0, tp_timeout_sec = 5\<rparr>"

definition close_client :: "int \<Rightarrow> net \<Rightarrow> net" where
  "close_client fd s = s\<lparr>unix_os := sys_close fd (unix_os s)\<rparr>"

text \<open>The answer to the text in \<open>buffer\<close>: printed into an array of 1024 bytes.\<close>

definition demo_response :: "char list \<Rightarrow> string" where
  "demo_response buffer = take 1023 (''Server processed: '' @ cstr buffer)"

definition server_round :: "char list \<Rightarrow> net \<Rightarrow> net option" where
  "server_round buffer s =
     (case tcp_server_accept_connection s of (client_fd, s) \<Rightarrow>
      if client_fd < 0 then Some s
      else do {
        (bytes, buffer, s) \<leftarrow> tcp_server_receive_message client_fd (Some buffer) 1024 s;
        let s = (if bytes > 0 then snd (tcp_server_send_message client_fd (Some (demo_response (the buffer))) s) else s);
        Some (close_client client_fd s)
      })"

fun server_loop :: "char list list \<Rightarrow> net \<Rightarrow> net option" where
  "server_loop [] s = Some s"
| "server_loop (b # bs) s = do { s \<leftarrow> server_round b s; server_loop bs s }"

definition demo_server :: "int \<Rightarrow> char list list \<Rightarrow> net \<Rightarrow> (int \<times> net) option" where
  "demo_server TCP_PORT buffers s =
     (case tcp_server_init (Some (server_config TCP_PORT)) s of (ok, s) \<Rightarrow>
      if \<not> ok then Some (1, s)
      else do { s \<leftarrow> server_loop buffers s; Some (0, tcp_server_cleanup s) })"

text \<open>The loop over the lines of standard input: the answers received, in order.\<close>

function client_loop :: "char list \<Rightarrow> string \<Rightarrow> string list \<Rightarrow> net \<Rightarrow> (string list \<times> net) option" where
  "client_loop response stdin got s =
     (case fgets 1024 stdin of
        None \<Rightarrow> Some (got, s)
      | Some (line, rest) \<Rightarrow>
          (let input = takeWhile (\<lambda>c. c \<noteq> NL) (cstr line) in
           if input = ''quit'' then Some (got, s)
           else (case tcp_client_send_message (Some input) s of (sent, s) \<Rightarrow>
             if \<not> sent then Some (got, s)
             else (case tcp_client_receive_message (Some response) 1024 s of
                     None \<Rightarrow> None
                   | Some (bytes, buf, s) \<Rightarrow>
                       if bytes > 0 then client_loop response rest (got @ [cstr (the buf)]) s
                       else Some (got, s)))))"
  by pat_completeness auto
termination
  by (relation "measure (\<lambda>(r, stdin, g, s). length stdin)") (auto simp: fgets_def Let_def split: if_splits)

definition demo_client :: "int \<Rightarrow> char list \<Rightarrow> string \<Rightarrow> net \<Rightarrow> (int \<times> string list \<times> net) option" where
  "demo_client TCP_PORT response stdin s =
     (case tcp_client_init (Some (client_config TCP_PORT)) s of (ok, s) \<Rightarrow>
      if \<not> ok then Some (1, [], s)
      else (case tcp_client_connect s of (ok, s) \<Rightarrow>
        if \<not> ok then Some (1, [], tcp_client_cleanup s)
        else do { (got, s) \<leftarrow> client_loop response stdin [] s; Some (0, got, tcp_client_cleanup s) }))"

definition demo_main :: "string list \<Rightarrow> int \<Rightarrow> char list list \<Rightarrow> char list \<Rightarrow> string \<Rightarrow> net \<Rightarrow> (int \<times> string list \<times> net) option" where
  "demo_main argv TCP_PORT buffers response stdin s =
     (if length argv \<noteq> 2 then Some (1, [], s)
      else if argv ! 1 = ''server'' then map_option (\<lambda>(r, s). (r, [], s)) (demo_server TCP_PORT buffers s)
      else if argv ! 1 = ''client'' then demo_client TCP_PORT response stdin s
      else Some (1, [], s))"

section \<open>Descriptors\<close>

lemma receive_text_total: "length b \<ge> n \<Longrightarrow> \<exists>k b' w'. receive_text fd (Some b) n w = Some (k, b', w') \<and> os_open w' = os_open w"
  by (auto simp: receive_text_def dest: sys_recv_open split: prod.splits)

text \<open>A round is defined for every content of the arrays and closes what it opened.\<close>

lemma server_round_open:
  assumes "length b = 1024"
  shows "\<exists>s'. server_round b s = Some s' \<and> os_open (unix_os s') = os_open (unix_os s) \<and> tcp_server_sockfd s' = tcp_server_sockfd s"
proof -
  obtain fd s1 where a: "tcp_server_accept_connection s = (fd, s1)" by fastforce
  then have o: "tcp_server_sockfd s1 = tcp_server_sockfd s"
    "fd < 0 \<and> os_open (unix_os s1) = os_open (unix_os s) \<or>
     0 \<le> fd \<and> fd \<notin> set (os_open (unix_os s)) \<and> os_open (unix_os s1) = fd # os_open (unix_os s)"
    using sys_open_cases [of "unix_os s"] by (auto simp: tcp_server_accept_connection_def split: if_splits prod.splits)
  obtain k b' w where r: "receive_text fd (Some b) 1024 (unix_os s1) = Some (k, b', w)" "os_open w = os_open (unix_os s1)"
    using receive_text_total [of 1024 b fd "unix_os s1"] assms by auto
  obtain t w' where t: "send_text fd (Some (demo_response (the b'))) w = (t, w')" by fastforce
  note send_text_open [OF t]
  with a o r t show ?thesis
    by (auto simp: server_round_def tcp_server_receive_message_def tcp_server_send_message_def close_client_def Let_def filter_fresh)
qed

lemma server_loop_open:
  "\<forall>b \<in> set bs. length b = 1024 \<Longrightarrow>
    \<exists>s'. server_loop bs s = Some s' \<and> os_open (unix_os s') = os_open (unix_os s) \<and> tcp_server_sockfd s' = tcp_server_sockfd s"
proof (induction bs arbitrary: s)
  case Nil
  then show ?case by simp
next
  case (Cons b bs)
  from server_round_open [of b s] Cons.prems obtain s1 where
    "server_round b s = Some s1" "os_open (unix_os s1) = os_open (unix_os s)" "tcp_server_sockfd s1 = tcp_server_sockfd s" by auto
  with Cons.IH [of s1] Cons.prems show ?case by simp
qed

text \<open>However many connections come, and whatever fails, the server ends with the descriptors it
  started with.\<close>
theorem demo_server_leaks_nothing:
  assumes "\<forall>b \<in> set buffers. length b = 1024"
  shows "\<exists>r s'. demo_server TCP_PORT buffers s = Some (r, s') \<and> os_open (unix_os s') = os_open (unix_os s) \<and> (r = 0 \<or> r = 1)"
proof -
  obtain ok s1 where i: "tcp_server_init (Some (server_config TCP_PORT)) s = (ok, s1)" by fastforce
  obtain s2 where l: "server_loop buffers s1 = Some s2" "os_open (unix_os s2) = os_open (unix_os s1)"
    "tcp_server_sockfd s2 = tcp_server_sockfd s1" using server_loop_open [OF assms] by blast
  from tcp_server_init_open [OF i] i l show ?thesis
    by (cases ok) (auto simp: demo_server_def tcp_server_cleanup_def filter_fresh)
qed

section \<open>Answers\<close>

text \<open>The answer is never longer than the array it is printed into.\<close>

lemma demo_response_fits: "length (demo_response b) < 1024" "NUL \<notin> set (demo_response b)"
  by (auto simp: demo_response_def dest: in_set_takeD)

text \<open>A round in which the request arrives and the answer is sent.\<close>

lemma server_round_answers:
  assumes "tcp_server_accept_connection s = (fd, s1)" and "0 \<le> fd"
    and "tcp_server_receive_message fd (Some b) 1024 s1 = Some (k, Some b', s2)" and "0 < k"
    and "tcp_server_send_message fd (Some (demo_response b')) s2 = (True, s3)"
  shows "\<exists>s' bs. server_round b s = Some s' \<and> rx (os_conn (unix_os s1) fd) = bs @ rx (os_conn (unix_os s2) fd) \<and>
    tx (os_conn (unix_os s') fd) = tx (os_conn (unix_os s2) fd) @ take 1023 (''Server processed: '' @ cstr bs)"
proof -
  from assms(3) obtain w where w: "receive_text fd (Some b) 1024 (unix_os s1) = Some (k, Some b', w)" "s2 = s1\<lparr>unix_os := w\<rparr>"
    by (auto simp: tcp_server_receive_message_def)
  from receive_text_positive [OF w(1) assms(4)] obtain bs where
    bs: "rx (os_conn (unix_os s1) fd) = bs @ rx (os_conn w fd)" "cstr b' = cstr bs" by auto
  from assms(5) obtain w' where w': "send_text fd (Some (demo_response b')) w = (True, w')" "s3 = s2\<lparr>unix_os := w'\<rparr>"
    using w(2) by (auto simp: tcp_server_send_message_def split: prod.splits)
  have "tx (os_conn w' fd) = tx (os_conn w fd) @ demo_response b'"
    using send_text_true [OF w'(1)] demo_response_fits(2) by (simp add: cstr_id)
  with assms w bs w' show ?thesis
    by (simp add: server_round_def close_client_def demo_response_def sys_close_def)
qed

end
