(* ===== verification/Kernel_Module.thy ===== *)
theory Kernel_Module
  imports Volcom_Stdio "HOL-Library.Sublist"
begin

unbundle bit_operations_syntax

text \<open>
  \<open>src/lkm/volcom_rsucmngr.c\<close>: the kernel module behind \<open>/dev/resalloc\<close>. Its one command writes the
  limits of a task into the files of the task's control group and then puts the process into it. The
  rest of the kernel is a parameter: \<open>rk_path\<close> is what \<open>kern_path\<close> answers when it is given no place for
  the path it finds (\<open>None\<close> when it faults), \<open>rk_open\<close> and \<open>rk_write\<close> what \<open>filp_open\<close> and
  \<open>kernel_write\<close> answer, negative error numbers included. The files are the list of what was written,
  in order. A name without a terminator is read past its end: no defined result. The messages of the
  kernel log are left out.
\<close>

section \<open>Data\<close>

record task_config =
  tc_task_name :: "char list"
  tc_memory_limit_mb :: int
  tc_cpu_share :: int
  tc_pid :: int

definition TASK_NAME_LEN :: nat where "TASK_NAME_LEN = 64"

text \<open>\<open>_IOW('k', 1, struct task_config)\<close>: the direction, the 76 bytes of the structure, the type, the
  number.\<close>

definition IOCTL_ALLOCATE_TASK :: u32 where
  "IOCTL_ALLOCATE_TASK =
     push_bit 30 1 OR push_bit 16 (word_of_nat (TASK_NAME_LEN + 4 + 4 + 4)) OR push_bit 8 (of_char (CHR ''k'')) OR 1"

definition cgroup_base_path :: string where
  "cgroup_base_path = ''/sys/fs/cgroup/resgroup''"

abbreviation ENOENT :: int where "ENOENT \<equiv> 2"
abbreviation EIO :: int where "EIO \<equiv> 5"
abbreviation ENOMEM :: int where "ENOMEM \<equiv> 12"
abbreviation EFAULT :: int where "EFAULT \<equiv> 14"
abbreviation EINVAL :: int where "EINVAL \<equiv> 22"

type_synonym writes = "(string \<times> string) list"

record res_kernel =
  rk_path :: "string \<Rightarrow> int option"
  rk_open :: "writes \<Rightarrow> string \<Rightarrow> int"
  rk_write :: "writes \<Rightarrow> string \<Rightarrow> string \<Rightarrow> int"

section \<open>The command\<close>

text \<open>What \<open>snprintf\<close> leaves in an array of \<open>n\<close> bytes; the directory of a task.\<close>

definition printed :: "nat \<Rightarrow> string \<Rightarrow> string" where
  "printed n s = take (n - 1) s"

definition task_dir :: "string \<Rightarrow> string" where
  "task_dir name = printed 256 (cgroup_base_path @ ''/'' @ name)"

definition write_cgroup_file :: "res_kernel \<Rightarrow> string \<Rightarrow> string \<Rightarrow> string \<Rightarrow> writes \<Rightarrow> int \<times> writes" where
  "write_cgroup_file K path filename data fs =
     (let fullpath = printed 256 (path @ ''/'' @ filename);
          file = rk_open K fs fullpath
      in if file < 0 then (file, fs)
         else (let written = rk_write K fs fullpath data
               in if written > 0 then (0, fs @ [(fullpath, take (nat written) data)]) else (- EIO, fs)))"

text \<open>\<open>user\<close>: the structure the argument points to, \<open>None\<close> when it cannot be copied.\<close>

definition resman_ioctl ::
    "res_kernel \<Rightarrow> u32 \<Rightarrow> task_config option \<Rightarrow> writes \<Rightarrow> (int \<times> writes) option" where
  "resman_ioctl K cmd user fs =
     (if cmd \<noteq> IOCTL_ALLOCATE_TASK then Some (- EINVAL, fs)
      else (case user of
        None \<Rightarrow> Some (- EFAULT, fs)
      | Some config \<Rightarrow>
          if \<not> terminated (tc_task_name config) then None
          else (let task_path = task_dir (cstr (tc_task_name config)) in
            case rk_path K task_path of
              None \<Rightarrow> None
            | Some ret \<Rightarrow>
                if ret \<noteq> 0 then Some (- ENOENT, fs)
                else (case write_cgroup_file K task_path ''memory.max''
                             (printed 32 (dec_int (tc_memory_limit_mb config) @ ''M'')) fs of (ret, fs) \<Rightarrow>
                if ret < 0 then Some (ret, fs)
                else (case (if tc_cpu_share config > 0
                            then write_cgroup_file K task_path ''cpu.max''
                                   (printed 32 (dec_int (tc_cpu_share config) @ '' 100000'')) fs
                            else (ret, fs)) of (ret, fs) \<Rightarrow>
                if ret < 0 then Some (ret, fs)
                else (case write_cgroup_file K task_path ''cgroup.procs''
                             (printed 16 (dec_int (tc_pid config))) fs of (ret, fs) \<Rightarrow>
                if ret < 0 then Some (ret, fs) else Some (0, fs)))))))"

text \<open>The attribute file \<open>path\<close>: the text put into the buffer; its length is the result.\<close>

definition path_show :: string where
  "path_show = cgroup_base_path @ [NL]"

section \<open>Loading and unloading\<close>

record resman =
  dr_misc :: bool
  dr_kobj :: bool
  dr_attr :: bool

definition resman_unloaded :: resman where
  "resman_unloaded = \<lparr>dr_misc = False, dr_kobj = False, dr_attr = False\<rparr>"

text \<open>\<open>misc\<close> and \<open>sysfs\<close>: the results of \<open>misc_register\<close> and \<open>sysfs_create_file\<close>; \<open>kobj\<close>: whether the
  object was created.\<close>

definition resman_init :: "int \<Rightarrow> bool \<Rightarrow> int \<Rightarrow> resman \<Rightarrow> int \<times> resman" where
  "resman_init misc kobj sysfs s =
     (if misc \<noteq> 0 then (misc, s)
      else (let s = s\<lparr>dr_misc := True\<rparr> in
        if \<not> kobj then (- ENOMEM, s\<lparr>dr_misc := False\<rparr>)
        else (let s = s\<lparr>dr_kobj := True\<rparr> in
          if sysfs \<noteq> 0 then (- ENOMEM, s\<lparr>dr_kobj := False, dr_misc := False\<rparr>)
          else (0, s\<lparr>dr_attr := True\<rparr>))))"

definition resman_exit :: "resman \<Rightarrow> resman" where
  "resman_exit s = s\<lparr>dr_attr := False, dr_kobj := False, dr_misc := False\<rparr>"

lemma init_all_or_nothing:
  assumes "resman_init misc kobj sysfs resman_unloaded = (r, s)"
  shows "if r = 0 then dr_misc s \<and> dr_kobj s \<and> dr_attr s else s = resman_unloaded" "resman_exit s = resman_unloaded"
  using assms by (auto simp: resman_init_def resman_exit_def resman_unloaded_def Let_def split: if_splits)

section \<open>What an allocation writes\<close>

definition task_file :: "string \<Rightarrow> string \<Rightarrow> string" where
  "task_file name file = cgroup_base_path @ ''/'' @ name @ ''/'' @ file"

definition allocation :: "task_config \<Rightarrow> writes" where
  "allocation c =
     (let name = cstr (tc_task_name c) in
      [(task_file name ''memory.max'', dec_int (tc_memory_limit_mb c) @ ''M'')] @
      (if tc_cpu_share c > 0 then [(task_file name ''cpu.max'', dec_int (tc_cpu_share c) @ '' 100000'')] else []) @
      [(task_file name ''cgroup.procs'', dec_int (tc_pid c))])"

definition config_ok :: "task_config \<Rightarrow> bool" where
  "config_ok c \<longleftrightarrow> length (tc_task_name c) = TASK_NAME_LEN \<and> terminated (tc_task_name c) \<and>
     (\<forall>i \<in> {tc_memory_limit_mb c, tc_cpu_share c, tc_pid c}. - (2 ^ 31) \<le> i \<and> i < 2 ^ 31)"

text \<open>The kernel takes a written text as a whole or not at all.\<close>

definition whole_writes :: "res_kernel \<Rightarrow> bool" where
  "whole_writes K \<longleftrightarrow> (\<forall>fs p v. rk_write K fs p v \<le> 0 \<or> rk_write K fs p v = int (length v))"

text \<open>No name of the structure is too long for the arrays of the module.\<close>

lemma config_ok_fits:
  assumes "config_ok c"
  shows "task_dir (cstr (tc_task_name c)) = cgroup_base_path @ ''/'' @ cstr (tc_task_name c)"
    "length f \<le> 32 \<Longrightarrow> printed 256 (task_dir (cstr (tc_task_name c)) @ ''/'' @ f) = task_file (cstr (tc_task_name c)) f"
    "printed 32 (dec_int (tc_memory_limit_mb c) @ ''M'') = dec_int (tc_memory_limit_mb c) @ ''M''"
    "printed 32 (dec_int (tc_cpu_share c) @ '' 100000'') = dec_int (tc_cpu_share c) @ '' 100000''"
    "printed 16 (dec_int (tc_pid c)) = dec_int (tc_pid c)"
proof -
  have "length (cstr (tc_task_name c)) < 64"
    using assms length_cstr_terminated [of "tc_task_name c"] by (simp add: config_ok_def TASK_NAME_LEN_def)
  then show "task_dir (cstr (tc_task_name c)) = cgroup_base_path @ ''/'' @ cstr (tc_task_name c)"
    "length f \<le> 32 \<Longrightarrow> printed 256 (task_dir (cstr (tc_task_name c)) @ ''/'' @ f) = task_file (cstr (tc_task_name c)) f"
    by (simp_all add: cgroup_base_path_def task_file_def task_dir_def printed_def)
  have "length (dec_int (tc_memory_limit_mb c)) \<le> 11" "length (dec_int (tc_cpu_share c)) \<le> 11" "length (dec_int (tc_pid c)) \<le> 11"
    using assms by (auto simp: config_ok_def intro!: length_dec_int)
  then show "printed 32 (dec_int (tc_memory_limit_mb c) @ ''M'') = dec_int (tc_memory_limit_mb c) @ ''M''"
    "printed 32 (dec_int (tc_cpu_share c) @ '' 100000'') = dec_int (tc_cpu_share c) @ '' 100000''"
    "printed 16 (dec_int (tc_pid c)) = dec_int (tc_pid c)" by (simp_all add: printed_def)
qed

lemma write_cgroup_file_cases:
  assumes "whole_writes K" and "write_cgroup_file K path f v fs = (r, fs')"
  obtains "r = 0" "fs' = fs @ [(printed 256 (path @ ''/'' @ f), v)]" | "r < 0" "fs' = fs"
proof -
  let ?p = "printed 256 (path @ ''/'' @ f)"
  have "rk_write K fs ?p v \<le> 0 \<or> rk_write K fs ?p v = int (length v)" using assms(1) by (simp add: whole_writes_def)
  with assms(2) that show thesis by (auto simp: write_cgroup_file_def Let_def split: if_splits)
qed

lemma write_task_file:
  assumes "config_ok c" and "whole_writes K" and "length f \<le> 32"
    and "write_cgroup_file K (task_dir (cstr (tc_task_name c))) f v fs = (r, fs')"
  shows "r = 0 \<and> fs' = fs @ [(task_file (cstr (tc_task_name c)) f, v)] \<or> r < 0 \<and> fs' = fs"
  using write_cgroup_file_cases [OF assms(2,4)] config_ok_fits(2) [OF assms(1,3)] by metis

lemma allocation_prefix:
  assumes "config_ok c" and "whole_writes K" and "resman_ioctl K cmd (Some c) fs = Some (r, fs')"
  shows "\<exists>ws. fs' = fs @ ws \<and> prefix ws (allocation c) \<and> r \<le> 0 \<and> (r = 0 \<longleftrightarrow> ws = allocation c)"
proof (cases "cmd = IOCTL_ALLOCATE_TASK \<and> rk_path K (task_dir (cstr (tc_task_name c))) = Some 0")
  case False
  with assms(1,3) show ?thesis
    by (auto simp: resman_ioctl_def Let_def config_ok_def allocation_def split: if_splits option.splits)
next
  case True
  let ?n = "cstr (tc_task_name c)"
  obtain r1 fs1 where w1: "write_cgroup_file K (task_dir ?n) ''memory.max'' (dec_int (tc_memory_limit_mb c) @ ''M'') fs = (r1, fs1)" by fastforce
  obtain r2 fs2 where w2: "(if tc_cpu_share c > 0 then write_cgroup_file K (task_dir ?n) ''cpu.max'' (dec_int (tc_cpu_share c) @ '' 100000'') fs1
      else (r1, fs1)) = (r2, fs2)" by fastforce
  obtain r3 fs3 where w3: "write_cgroup_file K (task_dir ?n) ''cgroup.procs'' (dec_int (tc_pid c)) fs2 = (r3, fs3)" by fastforce
  have res: "(r, fs') = (if r1 < 0 then (r1, fs1) else if r2 < 0 then (r2, fs2) else if r3 < 0 then (r3, fs3) else (0, fs3))"
    using assms(1,3) True w1 w2 w3
    by (auto simp: resman_ioctl_def config_ok_fits(3-5) [OF assms(1)] config_ok_def Let_def split: if_splits)
  note wr = write_task_file [OF assms(1,2)]
  have 1: "r1 = 0 \<and> fs1 = fs @ [(task_file ?n ''memory.max'', dec_int (tc_memory_limit_mb c) @ ''M'')] \<or> r1 < 0 \<and> fs1 = fs"
    by (rule wr [OF _ w1]) simp
  have 2: "r2 = 0 \<and> fs2 = fs1 @ (if tc_cpu_share c > 0 then [(task_file ?n ''cpu.max'', dec_int (tc_cpu_share c) @ '' 100000'')] else []) \<or>
      r2 < 0 \<and> fs2 = fs1" if "r1 = 0"
  proof (cases "tc_cpu_share c > 0")
    case True
    with w2 have "write_cgroup_file K (task_dir ?n) ''cpu.max'' (dec_int (tc_cpu_share c) @ '' 100000'') fs1 = (r2, fs2)" by simp
    from wr [OF _ this] True show ?thesis by simp
  qed (use w2 that in simp)
  have 3: "r3 = 0 \<and> fs3 = fs2 @ [(task_file ?n ''cgroup.procs'', dec_int (tc_pid c))] \<or> r3 < 0 \<and> fs3 = fs2"
    by (rule wr [OF _ w3]) simp
  show ?thesis
    using res 1 2 3 by (cases "r1 < 0"; cases "r2 < 0"; cases "r3 < 0") (auto simp: allocation_def Let_def)
qed

section \<open>Properties\<close>

text \<open>C38: whatever the kernel refuses on the way, the command writes an initial part of memory limit, CPU
  limit and process, in this order and each as a whole, into the files of the group named by the
  task; it returns 0 only when all of it is written. So the process is never in the group before its
  limits are, and after an error it is not in the group at all.\<close>
theorem limits_before_process:
  assumes "config_ok c" and "whole_writes K" and "resman_ioctl K cmd (Some c) fs = Some (r, fs')"
  shows "\<exists>ws. fs' = fs @ ws \<and> prefix ws (allocation c) \<and> r \<le> 0 \<and> (r = 0 \<longleftrightarrow> ws = allocation c) \<and>
    ((task_file (cstr (tc_task_name c)) ''cgroup.procs'', dec_int (tc_pid c)) \<in> set ws \<longrightarrow> r = 0)"
proof -
  obtain ws where ws: "fs' = fs @ ws" "prefix ws (allocation c)" "r \<le> 0" "r = 0 \<longleftrightarrow> ws = allocation c"
    using allocation_prefix [OF assms] by blast
  moreover have "ws = allocation c"
    if "(task_file (cstr (tc_task_name c)) ''cgroup.procs'', dec_int (tc_pid c)) \<in> set ws"
    using that ws(2) by (auto simp: allocation_def Let_def task_file_def prefix_Cons split: if_splits)
  ultimately show ?thesis by blast
qed

section \<open>Examples\<close>

definition demo_res_kernel :: res_kernel where
  "demo_res_kernel = \<lparr>rk_path = \<lambda>_. Some 0, rk_open = \<lambda>_ _. 0, rk_write = \<lambda>_ _ v. int (length v)\<rparr>"

definition demo_task_config :: task_config where
  "demo_task_config = \<lparr>tc_task_name = zbuf 64 ''t'', tc_memory_limit_mb = 64, tc_cpu_share = 20000, tc_pid = 7\<rparr>"

lemma demo_res_ok: "config_ok demo_task_config" "whole_writes demo_res_kernel"
  by (simp_all add: config_ok_def demo_task_config_def TASK_NAME_LEN_def terminated_def zbuf_def whole_writes_def demo_res_kernel_def)

lemma demo_write: "v \<noteq> [] \<Longrightarrow> write_cgroup_file demo_res_kernel p f v fs = (0, fs @ [(printed 256 (p @ ''/'' @ f), v)])"
  by (simp add: write_cgroup_file_def demo_res_kernel_def)

lemma demo_allocation: "\<exists>ws. resman_ioctl demo_res_kernel IOCTL_ALLOCATE_TASK (Some demo_task_config) [] = Some (0, ws)"
proof -
  have "dec_int i \<noteq> []" for i by (simp add: dec_int_def)
  then have "write_cgroup_file demo_res_kernel p f (printed 16 (dec_int i)) fs = (0, fs @ [(printed 256 (p @ ''/'' @ f), printed 16 (dec_int i))])"
    "write_cgroup_file demo_res_kernel p f (printed 32 (dec_int i @ t)) fs = (0, fs @ [(printed 256 (p @ ''/'' @ f), printed 32 (dec_int i @ t))])"
    for p f i t fs by (intro demo_write; simp add: printed_def)+
  with demo_res_ok(1) show ?thesis by (simp add: resman_ioctl_def config_ok_def demo_res_kernel_def [THEN arg_cong [where f = rk_path]] Let_def)
qed

theorem limits_before_process_witness:
  "\<exists>ws. resman_ioctl demo_res_kernel IOCTL_ALLOCATE_TASK (Some demo_task_config) [] = Some (0, ws) \<and>
     ws = allocation demo_task_config"
proof -
  obtain ws where ws: "resman_ioctl demo_res_kernel IOCTL_ALLOCATE_TASK (Some demo_task_config) [] = Some (0, ws)"
    using demo_allocation by blast
  with limits_before_process [OF demo_res_ok ws] show ?thesis by auto
qed

end
