(* ===== verification/Ioctl_Helper.thy ===== *)
theory Ioctl_Helper
  imports Kernel_Module Step_System
begin

text \<open>
  \<open>volcom_ioctl/volcom_rsuchelper.c\<close>: the program that starts a node script in a control group through
  the kernel module. It forks; the child waits in \<open>pause\<close> to be told to go on, the parent has the
  module put the child into the group, sends it \<open>SIGCONT\<close> and waits for its end. A step is one system
  call of one of the two processes. A signal acts as POSIX has it: one that the process handles ends
  \<open>pause\<close>, \<open>SIGKILL\<close> ends the process, and \<open>SIGCONT\<close> that is not handled only continues a process that
  was stopped. Signals from other processes are steps_left out.
\<close>

section \<open>The two processes\<close>

datatype signal = SIGCONT | SIGKILL

datatype child_pc = Ch_start | Ch_paused | Ch_resumed | Ch_node | Ch_dead

datatype parent_pc = Pa_ioctl | Pa_kill | Pa_cont | Pa_wait | Pa_returned

record helper =
  hp_parent :: parent_pc
  hp_child :: child_pc
  hp_handled :: "signal list"
  hp_writes :: writes
  hp_ret :: "int option"

definition deliver :: "signal \<Rightarrow> helper \<Rightarrow> helper" where
  "deliver sig s =
     (if sig = SIGKILL then s\<lparr>hp_child := Ch_dead\<rparr>
      else if sig \<in> set (hp_handled s) \<and> hp_child s = Ch_paused then s\<lparr>hp_child := Ch_resumed\<rparr>
      else s)"

text \<open>\<open>exec_fails\<close> is a failing \<open>execlp\<close> followed by \<open>exit\<close>; \<open>node_ends\<close> the end of the node process.\<close>

inductive helper_step :: "res_kernel \<Rightarrow> task_config \<Rightarrow> helper \<Rightarrow> helper \<Rightarrow> bool" for K cfg where
  pauses: "hp_child s = Ch_start \<Longrightarrow> helper_step K cfg s (s\<lparr>hp_child := Ch_paused\<rparr>)"
| execs: "hp_child s = Ch_resumed \<Longrightarrow> helper_step K cfg s (s\<lparr>hp_child := Ch_node\<rparr>)"
| exec_fails: "hp_child s = Ch_resumed \<Longrightarrow> helper_step K cfg s (s\<lparr>hp_child := Ch_dead\<rparr>)"
| node_ends: "hp_child s = Ch_node \<Longrightarrow> helper_step K cfg s (s\<lparr>hp_child := Ch_dead\<rparr>)"
| ioctl: "hp_parent s = Pa_ioctl \<Longrightarrow> resman_ioctl K IOCTL_ALLOCATE_TASK (Some cfg) (hp_writes s) = Some (r, ws) \<Longrightarrow>
    helper_step K cfg s (s\<lparr>hp_parent := (if r < 0 then Pa_kill else Pa_cont), hp_writes := ws, hp_ret := Some r\<rparr>)"
| kills: "hp_parent s = Pa_kill \<Longrightarrow> helper_step K cfg s ((deliver SIGKILL s)\<lparr>hp_parent := Pa_returned\<rparr>)"
| continues: "hp_parent s = Pa_cont \<Longrightarrow> helper_step K cfg s ((deliver SIGCONT s)\<lparr>hp_parent := Pa_wait\<rparr>)"
| waits: "hp_parent s = Pa_wait \<Longrightarrow> hp_child s = Ch_dead \<Longrightarrow> helper_step K cfg s (s\<lparr>hp_parent := Pa_returned\<rparr>)"

section \<open>The program\<close>

definition atoi :: "string \<Rightarrow> int" where
  "atoi s = (case signed_digits (cstr s) of (neg, ds, _) \<Rightarrow> int_of_digits neg ds)"

definition helper_config :: "string \<Rightarrow> int \<Rightarrow> int \<Rightarrow> int \<Rightarrow> task_config" where
  "helper_config task_name mem_limit cpu_share pid =
     \<lparr>tc_task_name = strncpy (replicate TASK_NAME_LEN NUL) task_name (TASK_NAME_LEN - 1),
      tc_memory_limit_mb = mem_limit, tc_cpu_share = cpu_share, tc_pid = pid\<rparr>"

text \<open>The two processes after \<open>fork\<close>: the program installs no handler.\<close>

definition forked :: "writes \<Rightarrow> helper" where
  "forked ws = \<lparr>hp_parent = Pa_ioctl, hp_child = Ch_start, hp_handled = [], hp_writes = ws, hp_ret = None\<rparr>"

text \<open>\<open>main\<close>: either it returns at once, or it goes on with the two processes. \<open>fd\<close> is the result of
  \<open>open\<close>, \<open>pid\<close> the result of \<open>fork\<close>.\<close>

definition helper_main :: "string list \<Rightarrow> int \<Rightarrow> int \<Rightarrow> writes \<Rightarrow> int + (task_config \<times> helper)" where
  "helper_main argv fd pid ws =
     (if length argv < 4 then Inl 1
      else if fd < 0 then Inl 1
      else if pid > 0 then Inr (helper_config (argv ! 1) (atoi (argv ! 2)) 20000 pid, forked ws)
      else Inl 0)"

inductive_cases helper_stepE: "helper_step K cfg s t"

section \<open>Every run ends\<close>

fun child_left :: "child_pc \<Rightarrow> nat" where
  "child_left Ch_start = 4" | "child_left Ch_paused = 3" | "child_left Ch_resumed = 2"
| "child_left Ch_node = 1" | "child_left Ch_dead = 0"

fun parent_left :: "parent_pc \<Rightarrow> nat" where
  "parent_left Pa_ioctl = 3" | "parent_left Pa_kill = 2" | "parent_left Pa_cont = 2"
| "parent_left Pa_wait = 1" | "parent_left Pa_returned = 0"

definition steps_left :: "helper \<Rightarrow> nat" where
  "steps_left s = child_left (hp_child s) + parent_left (hp_parent s)"

lemma deliver_simps [simp]:
  "hp_parent (deliver g s) = hp_parent s" "hp_handled (deliver g s) = hp_handled s"
  "hp_writes (deliver g s) = hp_writes s" "hp_ret (deliver g s) = hp_ret s"
  "hp_child (deliver SIGKILL s) = Ch_dead"
  "hp_child (deliver SIGCONT s) = (if SIGCONT \<in> set (hp_handled s) \<and> hp_child s = Ch_paused then Ch_resumed else hp_child s)"
  by (simp_all add: deliver_def)

lemma step_left: "helper_step K cfg s t \<Longrightarrow> steps_left t < steps_left s"
  by (induction rule: helper_step.induct) (auto simp: steps_left_def)

section \<open>What a run can reach\<close>

text \<open>No handler, so the child never gets past \<open>pause\<close>; the parent comes back only after it killed it.\<close>

definition helper_inv :: "task_config \<Rightarrow> writes \<Rightarrow> helper \<Rightarrow> bool" where
  "helper_inv cfg ws0 s \<longleftrightarrow> hp_handled s = [] \<and> hp_child s \<in> {Ch_start, Ch_paused, Ch_dead} \<and>
     (hp_child s = Ch_dead \<longleftrightarrow> hp_parent s = Pa_returned) \<and>
     (case hp_ret s of None \<Rightarrow> hp_parent s = Pa_ioctl \<and> hp_writes s = ws0
      | Some r \<Rightarrow> (if r < 0 then hp_parent s \<in> {Pa_kill, Pa_returned} else hp_parent s \<in> {Pa_cont, Pa_wait}) \<and>
          (\<exists>ws. hp_writes s = ws0 @ ws \<and> prefix ws (allocation cfg) \<and> (0 \<le> r \<longleftrightarrow> ws = allocation cfg)))"

lemma forked_inv: "helper_inv cfg ws (forked ws)"
  by (simp add: helper_inv_def forked_def)

lemma step_inv:
  assumes "config_ok cfg" and "whole_writes K" and "helper_step K cfg s t" and "helper_inv cfg ws0 s"
  shows "helper_inv cfg ws0 t"
  using assms(3)
proof cases
  case (ioctl r ws)
  from allocation_prefix [OF assms(1,2) ioctl(3)] assms(4) ioctl show ?thesis
    by (auto simp: helper_inv_def split: option.splits)
qed (use assms(4) in \<open>auto simp: helper_inv_def split: option.splits if_splits\<close>)

text \<open>The kernel, the structure and the files at the start do not change in a run.\<close>

fun helper_moves :: "res_kernel \<times> task_config \<times> writes \<times> helper \<Rightarrow> res_kernel \<times> task_config \<times> writes \<times> helper \<Rightarrow> bool" where
  "helper_moves (K, cfg, ws, s) (K', cfg', ws', t) \<longleftrightarrow> K' = K \<and> cfg' = cfg \<and> ws' = ws \<and> helper_step K cfg s t"

fun helper_sys_inv :: "res_kernel \<times> task_config \<times> writes \<times> helper \<Rightarrow> bool" where
  "helper_sys_inv (K, cfg, ws, s) \<longleftrightarrow> config_ok cfg \<and> whole_writes K \<and> helper_inv cfg ws s"

interpretation helper: ending_steps helper_moves helper_sys_inv "\<lambda>(K, cfg, ws, s). steps_left s"
  by unfold_locales (auto intro: step_inv simp: step_left)

lemma lift_steps: "(helper_step K cfg ^^ n) s t \<Longrightarrow> (helper_moves ^^ n) (K, cfg, ws, s) (K, cfg, ws, t)"
proof (induction n arbitrary: t)
  case 0
  then show ?case by simp
next
  case (Suc n)
  then obtain u where u: "(helper_step K cfg ^^ n) s u" "helper_step K cfg u t" by auto
  then have "helper_moves (K, cfg, ws, u) (K, cfg, ws, t)" by simp
  with Suc.IH [OF u(1)] show ?case by (rule relpowp_Suc_I)
qed

lemma lower_run: "helper_moves\<^sup>*\<^sup>* x y \<Longrightarrow> x = (K, cfg, ws, s) \<Longrightarrow> \<exists>t. y = (K, cfg, ws, t) \<and> (helper_step K cfg)\<^sup>*\<^sup>* s t"
proof (induction rule: rtranclp_induct)
  case base
  then show ?case by blast
next
  case (step y z)
  then obtain t where "y = (K, cfg, ws, t)" "(helper_step K cfg)\<^sup>*\<^sup>* s t" by blast
  with step.hyps(2) show ?case by (cases z) (auto intro: rtranclp.rtrancl_into_rtrancl)
qed

text \<open>A run stops where no process can move.\<close>

definition helper_stuck :: "res_kernel \<Rightarrow> task_config \<Rightarrow> helper \<Rightarrow> bool" where
  "helper_stuck K cfg s \<longleftrightarrow> hp_child s \<notin> {Ch_start, Ch_resumed, Ch_node} \<and>
     (case hp_parent s of
        Pa_ioctl \<Rightarrow> resman_ioctl K IOCTL_ALLOCATE_TASK (Some cfg) (hp_writes s) = None
      | Pa_wait \<Rightarrow> hp_child s \<noteq> Ch_dead
      | Pa_returned \<Rightarrow> True
      | _ \<Rightarrow> False)"

lemma helper_stuck_iff: "helper_stuck K cfg s \<longleftrightarrow> (\<nexists>t. helper_step K cfg s t)"
proof
  assume "helper_stuck K cfg s"
  then show "\<nexists>t. helper_step K cfg s t"
    by (auto simp: helper_stuck_def elim!: helper_stepE split: parent_pc.splits)
next
  assume n: "\<nexists>t. helper_step K cfg s t"
  then have "hp_child s \<notin> {Ch_start, Ch_resumed, Ch_node}"
    using helper_step.pauses helper_step.execs helper_step.node_ends by blast
  moreover have "hp_parent s \<notin> {Pa_kill, Pa_cont}" using n helper_step.kills helper_step.continues by blast
  moreover have "hp_parent s = Pa_wait \<Longrightarrow> hp_child s \<noteq> Ch_dead" using n helper_step.waits by blast
  moreover have "hp_parent s = Pa_ioctl \<Longrightarrow> resman_ioctl K IOCTL_ALLOCATE_TASK (Some cfg) (hp_writes s) = None"
  proof (rule ccontr)
    assume "hp_parent s = Pa_ioctl" "resman_ioctl K IOCTL_ALLOCATE_TASK (Some cfg) (hp_writes s) \<noteq> None"
    with n helper_step.ioctl show False by (cases "resman_ioctl K IOCTL_ALLOCATE_TASK (Some cfg) (hp_writes s)") fastforce+
  qed
  ultimately show "helper_stuck K cfg s" by (cases "hp_parent s") (auto simp: helper_stuck_def)
qed

section \<open>Properties\<close>

lemma atoi_range: "- (2 ^ 31) \<le> atoi s \<and> atoi s < 2 ^ 31"
proof (cases "signed_digits (cstr s)")
  case (fields neg ds rest)
  have "- (2 ^ 31) \<le> sint (x :: u32) \<and> sint x < 2 ^ 31" for x
    using sint_ge [of x] sint_lt [of x] by simp
  then show ?thesis by (simp add: atoi_def fields int_of_digits_def Let_def)
qed

text \<open>C39: whatever the arguments of the helper, the structure it hands to the kernel module is well formed:
  the name has its full length with a terminator inside, so the module never reads past it, and is
  the argument cut to 63 characters; the numbers fit the arrays they are printed into.\<close>
theorem helper_config_well_formed:
  assumes "helper_main argv fd pid ws = Inr (cfg, s)" and "pid < 2 ^ 31"
  shows "config_ok cfg \<and> cstr (tc_task_name cfg) = take 63 (cstr (argv ! 1)) \<and> helper_inv cfg ws s"
proof -
  have c: "cfg = helper_config (argv ! 1) (atoi (argv ! 2)) 20000 pid" "s = forked ws" "0 < pid"
    using assms(1) by (auto simp: helper_main_def split: if_splits)
  have "length (strncpy (replicate 64 NUL) (argv ! 1) 63) = 64" "cstr (strncpy (replicate 64 NUL) (argv ! 1) 63) = take 63 (cstr (argv ! 1))"
    "terminated (strncpy (replicate 64 NUL) (argv ! 1) 63)"
    using strncpy_last_NUL [of "replicate 64 NUL" 63 "argv ! 1"] by simp_all
  with atoi_range [of "argv ! 2"] c assms(2) show ?thesis
    by (simp add: helper_config_def config_ok_def TASK_NAME_LEN_def forked_inv)
qed

text \<open>C40: the helper never runs the script. A run takes at most seven steps and can always be continued
  until no process moves; in every state it reaches the child has not got past \<open>pause\<close>, since
  \<open>SIGCONT\<close> does not end it; the program comes back only when the module refused, and then the child
  was killed; and when the module accepted, the run stops with the limits written, the child in the
  group and paused, and the parent waiting for it.\<close>
theorem helper_never_runs_the_script:
  assumes "config_ok cfg" and "whole_writes K" and "(helper_step K cfg ^^ n) (forked ws) s"
  shows "n \<le> 7 \<and> hp_child s \<notin> {Ch_resumed, Ch_node} \<and>
    (\<exists>t. (helper_step K cfg)\<^sup>*\<^sup>* s t \<and> (\<nexists>u. helper_step K cfg t u)) \<and>
    (hp_parent s = Pa_returned \<longrightarrow> hp_child s = Ch_dead \<and> (\<exists>r < 0. hp_ret s = Some r) \<and> hp_writes s \<noteq> ws @ allocation cfg) \<and>
    ((\<nexists>t. helper_step K cfg s t) \<and> hp_parent s \<notin> {Pa_returned, Pa_ioctl} \<longrightarrow>
       hp_parent s = Pa_wait \<and> hp_child s = Ch_paused \<and> hp_writes s = ws @ allocation cfg)"
proof -
  have start: "helper_sys_inv (K, cfg, ws, forked ws)" using assms(1,2) forked_inv by simp
  note run = lift_steps [OF assms(3), of ws]
  from helper.steps_keep [OF run start] have sys: "helper_sys_inv (K, cfg, ws, s)" .
  then have inv: "helper_inv cfg ws s" by simp
  have "n \<le> 7" using helper.steps_bounded [OF run start] by (simp add: steps_left_def forked_def)
  moreover have "\<exists>t. (helper_step K cfg)\<^sup>*\<^sup>* s t \<and> (\<nexists>u. helper_step K cfg t u)"
    using helper.run_stops [OF sys] lower_run by fastforce
  moreover have "hp_parent s = Pa_returned \<longrightarrow> hp_child s = Ch_dead \<and> (\<exists>r < 0. hp_ret s = Some r) \<and> hp_writes s \<noteq> ws @ allocation cfg"
    using inv by (auto simp: helper_inv_def split: option.splits if_splits)
  moreover have "hp_child s \<notin> {Ch_resumed, Ch_node}" using inv by (auto simp: helper_inv_def)
  moreover have "hp_parent s = Pa_wait \<and> hp_child s = Ch_paused \<and> hp_writes s = ws @ allocation cfg"
    if "helper_stuck K cfg s" "hp_parent s \<notin> {Pa_returned, Pa_ioctl}"
    using that inv by (auto simp: helper_stuck_def helper_inv_def split: parent_pc.splits option.splits if_splits)
  ultimately show ?thesis unfolding helper_stuck_iff [symmetric] by blast
qed

section \<open>Examples\<close>

text \<open>The arguments \<open>t 64 s.js\<close>, a kernel that accepts everything, process 7.\<close>

definition demo_argv :: "string list" where
  "demo_argv = [''helper'', ''t'', ''64'', ''s.js'']"

theorem helper_config_well_formed_witness:
  "\<exists>cfg s. helper_main demo_argv 3 7 [] = Inr (cfg, s) \<and> config_ok cfg \<and> cstr (tc_task_name cfg) = ''t''"
proof -
  have "helper_main demo_argv 3 7 [] = Inr (helper_config ''t'' (atoi ''64'') 20000 7, forked [])"
    by (simp add: helper_main_def demo_argv_def)
  from helper_config_well_formed [OF this] this show ?thesis by (auto simp: demo_argv_def cstr_id)
qed

theorem helper_never_runs_the_script_witness:
  "\<exists>s. (helper_step demo_res_kernel demo_task_config ^^ 3) (forked []) s \<and> hp_parent s = Pa_wait \<and> hp_child s = Ch_paused \<and>
     hp_writes s = allocation demo_task_config"
proof -
  obtain ws where ws: "resman_ioctl demo_res_kernel IOCTL_ALLOCATE_TASK (Some demo_task_config) [] = Some (0, ws)"
    using demo_allocation by blast
  define s1 where "s1 = (forked [])\<lparr>hp_child := Ch_paused\<rparr>"
  define s2 where "s2 = s1\<lparr>hp_parent := Pa_cont, hp_writes := ws, hp_ret := Some 0\<rparr>"
  define s3 where "s3 = (deliver SIGCONT s2)\<lparr>hp_parent := Pa_wait\<rparr>"
  have "helper_step demo_res_kernel demo_task_config (forked []) s1"
    unfolding s1_def by (rule helper_step.pauses) (simp add: forked_def)
  moreover have "helper_step demo_res_kernel demo_task_config s1 s2"
    using helper_step.ioctl [of s1 demo_res_kernel demo_task_config 0 ws] ws by (simp add: s2_def s1_def forked_def)
  moreover have "helper_step demo_res_kernel demo_task_config s2 s3"
    unfolding s3_def by (rule helper_step.continues) (simp add: s2_def)
  ultimately have r: "(helper_step demo_res_kernel demo_task_config ^^ 3) (forked []) s3"
    by (auto simp: numeral_3_eq_3)
  have "helper_stuck demo_res_kernel demo_task_config s3"
    by (simp add: helper_stuck_def s3_def s2_def s1_def forked_def)
  with helper_never_runs_the_script [OF demo_res_ok r] r show ?thesis
    by (intro exI [of _ s3]) (simp add: helper_stuck_iff s3_def)
qed

end
