(* ===== verification/Spec2Isabelle.thy ===== *)
theory Spec2Isabelle
  imports Task_Management User_Scheduler User_Scheduler_Threads Task_Scheduler Protocol Unix_Socket
    Volcom_Net Employer_Proofs Employee_Proofs Chunk_Journey Task_Delivery Net_Utils
    Sysinfo_Proofs Control_Groups Main_Proofs Volcom_Menu Tcp_Demo Ioctl_Helper
begin

text \<open>
  A verification library for the volunteer-computing system under \<open>src/src\<close>: the user-space helper in
  \<open>uspacehelper/\<close> and the kernel module in \<open>lkm/\<close>. Paths below are relative to \<open>src/src/uspacehelper\<close>
  unless they say otherwise.

  \<^bold>\<open>The program.\<close> One binary (\<open>volcom_main.c\<close>) runs as employer or as employee. An employer finds
  employees by their UDP broadcasts, connects to them over TCP, sends each a configuration and then the
  files of the tasks it has cut into chunks, resends what is not answered in time, and stores the results.
  An employee announces its memory and processor load, buffers the chunks it receives, hands them over a
  Unix socket to a node script that runs in a control group, and sends the answers back. Around them
  are a task scheduler, a buffer shared by user threads, a configuration store, readers of
  \<open>/proc\<close>, a manager of control groups, a console, and a kernel module that does the work of the
  manager from the kernel side.

  \<^bold>\<open>Theories and sources.\<close>
  \<^item> \<open>Task_Scheduler\<close>: \<open>volcom_scheduler/task_scheduler.c\<close>. Tasks and chunks are whole arrays with counters.
  \<^item> \<open>Task_Management\<close>: \<open>volcom_agents/task_management.c\<close>, the buffer of received tasks and the queue of results.
  \<^item> \<open>User_Scheduler\<close>, \<open>User_Scheduler_Threads\<close>: \<open>volcom_uscheduler/volcom_uscheduler.c\<close>, first as
    sequential operations, then as a step relation for any number of threads, one statement a step.
  \<^item> \<open>Protocol\<close>, \<open>Unix_Socket\<close>: \<open>volcom_net/protocol.c\<close>, framed JSON messages and the Unix sockets.
  \<^item> \<open>Volcom_Net\<close>: \<open>volcom_net/volcom_net.c\<close>; \<open>Tcp_Demo\<close>: \<open>volcom_net/simple_tcp_demo.c\<close>.
  \<^item> \<open>Employer\<close>, \<open>Employer_Proofs\<close>: \<open>volcom_agents/employer/volcom_employer.c\<close>; one iteration of the
    main loop is \<open>employer_round\<close>, composed of one definition per part of the loop body.
  \<^item> \<open>Employee\<close>, \<open>Employee_Run\<close>, \<open>Employee_Proofs\<close>: \<open>volcom_agents/employee/volcom_employee.c\<close>; each thread
    is one definition per iteration of its loop, and a run is an explicit list of events, so every
    theorem about runs holds for every schedule.
  \<^item> \<open>File_Transfer\<close>, \<open>Read_Frame\<close>, \<open>Task_Delivery\<close>: the file loops of both agents, what they leave alone and
    what arrives at the other end; \<open>Result_Round\<close>: the iteration of the employer's main loop that
    receives a result, and when that loop ends; \<open>Chunk_Journey\<close>: a chunk from the employer through the
    employee's connection, worker and node script and back into the employer's table.
  \<^item> \<open>Volcom_Sysinfo\<close>, \<open>Sysinfo_Proofs\<close>: \<open>volcom_sysinfo/volcom_sysinfo.c\<close>.
  \<^item> \<open>Volcom_Rcsmngr\<close>, \<open>Rcsmngr_Proofs\<close>, \<open>Control_Groups\<close>: \<open>volcom_rcsmngr/volcom_rcsmngr.c\<close>.
  \<^item> \<open>Net_Utils\<close>: \<open>volcom_utils/net_utils.c\<close>.
  \<^item> \<open>Volcom_Main\<close>, \<open>Main_Proofs\<close>: \<open>volcom_main.c\<close>; \<open>Volcom_Menu\<close>: \<open>volcom_main_new.c\<close>.
  \<^item> \<open>Kernel_Module\<close>: \<open>src/src/lkm/volcom_rsucmngr.c\<close>; \<open>Ioctl_Helper\<close>: \<open>volcom_ioctl/volcom_rsuchelper.c\<close>.
  \<^item> Shared: \<open>Volcom_Prelude\<close> (integers, doubles, heap blocks, mutexes, arrays), \<open>Volcom_CString\<close> (character
    arrays, decimal numbers), \<open>Volcom_Stdio\<close> (\<open>fgets\<close>, \<open>sscanf\<close>, \<open>strtok\<close>), \<open>Volcom_Io\<close> (connections and
    system calls), and the interfaces \<open>Bounded_Fifo\<close>, \<open>Descriptor_Owner\<close>, \<open>Keyed_Store\<close>, \<open>Step_System\<close>
    and \<open>group_table\<close> (in \<open>Control_Groups\<close>).

  \<^bold>\<open>Conventions.\<close> The fields and functions have the names of the source. A function on mutable state
  takes the state and returns it updated, with its return value. The outer \<open>option\<close> of a result is \<open>None\<close>
  where C defines no result or the call never comes back: a read or write outside an array, the use of
  freed memory, a string without a terminator, a second lock of a mutex, the overflow of a signed number,
  an endless loop. Pointers the code compares with NULL are options; heap blocks are \<open>Null\<close>, \<open>Live\<close> or
  \<open>Dangling\<close>. Character arrays are lists of characters at their length, and \<open>cstr\<close> is the text in one.
  \<open>size_t\<close> and \<open>unsigned long\<close> are 64-bit words; \<open>int\<close> is an integer, with its range checked where the code
  computes with numbers from outside. Doubles are the operations of a record \<open>double_ops\<close> with the
  laws used as hypotheses, cJSON the operations of a record \<open>json_ops\<close>, whose documented behaviour is
  the hypotheses \<open>json_text\<close> and \<open>json_object\<close>. What \<open>malloc\<close>, the clock, \<open>fork\<close>, \<open>waitpid\<close> and the file
  system answer are arguments. A connection is what is still to be read, what was written, and a plan of
  the byte counts the kernel serves; system calls take their answers from a list and leave a log. The
  kernel's side of the control groups is a record of decisions (\<open>cg_kernel\<close>, \<open>res_kernel\<close>); what takes
  effect is a log of events. A file written through \<open>FILE\<close> is buffered: a write the kernel refuses shows
  in \<open>fclose\<close>. Printing is left out, except in the console, where it is a list of the values printed.

  \<^bold>\<open>What is shown.\<close>
  \<^item> Scheduler: the chunks of a task partition its bytes; removing a task removes exactly its chunks; the
    next chunk, the pending tasks and the best employee are what their specifications say; an
    invariant of the tables holds after every sequence of operations.
  \<^item> Buffers: both queues of the agents and the shared buffer implement a bounded queue (\<open>bounded_fifo\<close>,
    interpreted three times); under threads nothing is lost or duplicated, and no wake-up is missed.
  \<^item> Network: messages and files arrive as they were sent however the bytes are cut; every module that
    opens descriptors closes them (\<open>descriptor_owner\<close>, interpreted five times).
  \<^item> Employer: no descriptor leaks over a whole run; an iteration keeps the table of employees and
    their loads consistent; it stops exactly when every task is completed; the removal of stale
    employees is exact.
  \<^item> Employee: a sent chunk is buffered with its bytes, an answered chunk becomes a stored result, and
    composed with the employer a chunk comes back as the result its assignment waits for; every
    schedule keeps buffer and queue intact, an unsent result stays; and where threads meet: chunks freed
    while queued, a second node that is never connected, a configuration that overflows its array.
  \<^item> Configuration: the store refines a map (\<open>keyed_store\<close>); a saved configuration is loaded again; sizes
    from \<open>/proc/meminfo\<close> are exact within their bounds.
  \<^item> Control groups: the manager refines a table of named groups with their processes; starting writes
    exactly the configured limits, tearing down ends and removes exactly its directories, and a
    directory the kernel keeps leads to a double free.
  \<^item> Main program: the composition of these: a command of the console creates, uses and removes its
    group; an employer session leaves no group behind; the number typed is the limit written; and in
    employee mode the configured limits are overwritten.
  \<^item> Kernel module and helper: limits are in place before a process joins; the helper hands over well formed
    structures, ends in at most seven steps, and never gets to run its script.

  Statements that show a defect are proved like the others; the manifest lists them as findings.

  \<^bold>\<open>Termination and bounds.\<close> Loops over arrays and input are recursive functions with a measure (what is
  left of the array, the file or the text). Only the loop of \<open>volcom_delete_main_cgroup\<close> may run for ever
  (it is a partial function; its end is a theorem for a kernel that removes directories). No definition
  uses fuel: main loops that run until a signal take the list of inputs of their iterations, so a theorem
  holds for runs of every length. \<open>connect_loop\<close> counts the fifteen attempts of the code.

  \<^bold>\<open>Not modelled.\<close> Functions that only print; signal handlers beyond the flag they set; the mutexes of the
  employer, which runs in one thread (its lock and unlock pairs enclose whole operations); the interleaving
  of employee threads below one loop iteration; the clock within one employer iteration; signals from
  outside to the two processes of the helper. The tests, example scripts and experiments
  of the repository are not part of the program.
\<close>

end
